(* ===== verification/Prelude.thy ===== *)
theory Prelude
  imports Main "HOL-Library.Word" "HOL-Library.Char_ord" "HOL-Library.List_Lexorder"
    "HOL-Library.Product_Lexorder"
begin

text \<open>
  Shared vocabulary of the development: the fixed-width integers of Rust and the
  checked operations the sources use on them, \<open>anyhow\<close> results with their chain of
  context messages (and panics as a separate kind of failure), effectful calls as
  explicit state passing, and the generic lemmas and \<open>named_theorems\<close> collections
  the component theories build on.
\<close>

named_theorems res_simps \<open>defining equations of the combinators on results\<close>
named_theorems int_ops \<open>defining equations of the checked integer operations\<close>


section \<open>Results\<close>

text \<open>
  An \<open>anyhow::Error\<close> is the list of its messages, outermost context first.  A panic is
  not an error value: no \<open>context\<close> is added to it and nothing catches it but the task
  that joins the panicking one.
\<close>

datatype failure = Error "string list" | Panic string

type_synonym 'a res = "failure + 'a"

type_synonym ('s, 'a) eff = "'s \<Rightarrow> 'a res \<times> 's"

abbreviation Ok :: "'a \<Rightarrow> 'a res" where
  "Ok \<equiv> Inr"

abbreviation Err :: "string list \<Rightarrow> 'a res" where
  "Err ms \<equiv> Inl (Error ms)"

abbreviation panic :: "string \<Rightarrow> 'a res" where
  "panic m \<equiv> Inl (Panic m)"

fun with_context :: "string \<Rightarrow> 'a res \<Rightarrow> 'a res" where
  "with_context m (Inl (Error ms)) = Inl (Error (m # ms))"
| "with_context m (Inl (Panic p)) = Inl (Panic p)"
| "with_context m (Inr x) = Inr x"

fun and_then :: "'a res \<Rightarrow> ('a \<Rightarrow> 'b res) \<Rightarrow> 'b res" where
  "and_then (Inl e) f = Inl e"
| "and_then (Inr x) f = f x"

fun map_res :: "('a \<Rightarrow> 'b) \<Rightarrow> 'a res \<Rightarrow> 'b res" where
  "map_res f (Inl e) = Inl e"
| "map_res f (Inr x) = Inr (f x)"

fun opt_context :: "string \<Rightarrow> 'a option \<Rightarrow> 'a res" where
  "opt_context m None = Inl (Error [m])"
| "opt_context m (Some x) = Inr x"

fun is_ok :: "'a res \<Rightarrow> bool" where
  "is_ok (Inl e) = False"
| "is_ok (Inr x) = True"

fun panics :: "'a res \<Rightarrow> bool" where
  "panics (Inl (Panic p)) = True"
| "panics (Inl (Error ms)) = False"
| "panics (Inr x) = False"

text \<open>
  \<open>collect\<close> of an iterator of results stops at the first failure (Rust's
  \<open>FromIterator\<close> for \<open>Result\<close>).
\<close>

fun collect_res :: "'a res list \<Rightarrow> 'a list res" where
  "collect_res [] = Inr []"
| "collect_res (Inl e # rs) = Inl e"
| "collect_res (Inr x # rs) = map_res (Cons x) (collect_res rs)"

text \<open>Sequencing of effectful calls: a failure returns early and keeps the state reached.\<close>

definition bind_eff :: "('s, 'a) eff \<Rightarrow> ('a \<Rightarrow> ('s, 'b) eff) \<Rightarrow> ('s, 'b) eff" where
  "bind_eff f g s = (case f s of (Inl e, s') \<Rightarrow> (Inl e, s') | (Inr x, s') \<Rightarrow> g x s')"

definition ret_eff :: "'a \<Rightarrow> ('s, 'a) eff" where
  "ret_eff x s = (Inr x, s)"

definition map_eff :: "('a \<Rightarrow> 'b) \<Rightarrow> ('s, 'a) eff \<Rightarrow> ('s, 'b) eff" where
  "map_eff f g s = (case g s of (r, s') \<Rightarrow> (map_res f r, s'))"

definition lift_eff :: "'a res \<Rightarrow> ('s, 'a) eff" where
  "lift_eff r s = (r, s)"

definition context_eff :: "string \<Rightarrow> ('s, 'a) eff \<Rightarrow> ('s, 'a) eff" where
  "context_eff m f s = (case f s of (r, s') \<Rightarrow> (with_context m r, s'))"


section \<open>Fixed-width integers\<close>

type_synonym u8 = "8 word"
type_synonym u16 = "16 word"
type_synonym u32 = "32 word"
type_synonym u64 = "64 word"
type_synonym u128 = "128 word"
type_synonym gas = u64

definition checked_add :: "'a::len word \<Rightarrow> 'a word \<Rightarrow> 'a word option" where
  [int_ops]: "checked_add a b = (if unat a + unat b < 2 ^ LENGTH('a) then Some (a + b) else None)"

definition checked_sub :: "'a::len word \<Rightarrow> 'a word \<Rightarrow> 'a word option" where
  [int_ops]: "checked_sub a b = (if b \<le> a then Some (a - b) else None)"

definition checked_mul :: "'a::len word \<Rightarrow> 'a word \<Rightarrow> 'a word option" where
  [int_ops]: "checked_mul a b = (if unat a * unat b < 2 ^ LENGTH('a) then Some (a * b) else None)"

definition checked_div :: "'a::len word \<Rightarrow> 'a word \<Rightarrow> 'a word option" where
  [int_ops]: "checked_div a b = (if b = 0 then None else Some (a div b))"

definition checked_pow :: "'a::len word \<Rightarrow> nat \<Rightarrow> 'a word option" where
  [int_ops]: "checked_pow a n = (if unat a ^ n < 2 ^ LENGTH('a) then Some (a ^ n) else None)"

definition saturating_add :: "'a::len word \<Rightarrow> 'a word \<Rightarrow> 'a word" where
  [int_ops]: "saturating_add a b = (case checked_add a b of Some c \<Rightarrow> c | None \<Rightarrow> - 1)"

text \<open>\<open>TryInto\<close> between unsigned types, and from \<open>usize\<close> (a \<open>nat\<close>: a length).\<close>

definition try_into :: "'a::len word \<Rightarrow> 'b::len word option" where
  [int_ops]: "try_into a = (if unat a < 2 ^ LENGTH('b) then Some (ucast a) else None)"

definition usize_try_into :: "nat \<Rightarrow> 'b::len word option" where
  [int_ops]: "usize_try_into n = (if n < 2 ^ LENGTH('b) then Some (of_nat n) else None)"

text \<open>The failing conversion as an \<open>anyhow\<close> error (\<open>TryFromIntError\<close>).\<close>

fun int_conversion :: "'b option \<Rightarrow> 'b res" where
  "int_conversion (Some b) = Ok b"
| "int_conversion None = Err [''out of range integral type conversion attempted'']"

text \<open>
  The build profiles keep \<open>overflow-checks = true\<close>: plain \<open>+\<close>, \<open>-\<close>, \<open>*\<close> and
  \<open>pow\<close> panic on overflow, \<open>/\<close> panics on a zero divisor.
\<close>

definition add_or_panic :: "'a::len word \<Rightarrow> 'a word \<Rightarrow> 'a word res" where
  [int_ops]: "add_or_panic a b =
     (case checked_add a b of Some c \<Rightarrow> Ok c | None \<Rightarrow> panic ''attempt to add with overflow'')"

definition sub_or_panic :: "'a::len word \<Rightarrow> 'a word \<Rightarrow> 'a word res" where
  [int_ops]: "sub_or_panic a b =
     (case checked_sub a b of Some c \<Rightarrow> Ok c | None \<Rightarrow> panic ''attempt to subtract with overflow'')"

definition mul_or_panic :: "'a::len word \<Rightarrow> 'a word \<Rightarrow> 'a word res" where
  [int_ops]: "mul_or_panic a b =
     (case checked_mul a b of Some c \<Rightarrow> Ok c | None \<Rightarrow> panic ''attempt to multiply with overflow'')"

definition div_or_panic :: "'a::len word \<Rightarrow> 'a word \<Rightarrow> 'a word res" where
  [int_ops]: "div_or_panic a b =
     (case checked_div a b of Some c \<Rightarrow> Ok c | None \<Rightarrow> panic ''attempt to divide by zero'')"

definition pow_or_panic :: "'a::len word \<Rightarrow> nat \<Rightarrow> 'a word res" where
  [int_ops]: "pow_or_panic a n =
     (case checked_pow a n of Some c \<Rightarrow> Ok c | None \<Rightarrow> panic ''attempt to multiply with overflow'')"

text \<open>Subtraction of \<open>usize\<close> values and prefixes \<open>&s[..n]\<close> of ASCII strings.\<close>

definition usize_sub :: "nat \<Rightarrow> nat \<Rightarrow> nat res" where
  "usize_sub a b = (if b \<le> a then Ok (a - b) else panic ''attempt to subtract with overflow'')"

definition str_prefix :: "nat \<Rightarrow> string \<Rightarrow> string res" where
  "str_prefix n s = (if n \<le> length s then Ok (take n s) else panic ''byte index is out of bounds'')"

definition assert_or_panic :: "string \<Rightarrow> bool \<Rightarrow> unit res" where
  "assert_or_panic m b = (if b then Ok () else panic m)"


text \<open>\<open>Ord::cmp\<close>.\<close>

datatype ordering = Less | Equal | Greater

definition cmp :: "'a::linorder \<Rightarrow> 'a \<Rightarrow> ordering" where
  "cmp a b = (if a < b then Less else if a = b then Equal else Greater)"

lemma cmp_simps [simp]:
  "cmp a b = Less \<longleftrightarrow> a < b"
  "cmp a b = Equal \<longleftrightarrow> a = b"
  "cmp a b = Greater \<longleftrightarrow> b < a"
  by (auto simp: cmp_def)


section \<open>Lemmas on results\<close>

lemma with_context_simps [simp]:
  "is_ok (with_context m r) = is_ok r"
  "panics (with_context m r) = panics r"
  "with_context m r = Ok x \<longleftrightarrow> r = Ok x"
  by (cases r rule: panics.cases; simp)+

lemma and_then_eq_Ok [simp]: "and_then r f = Ok y \<longleftrightarrow> (\<exists>x. r = Ok x \<and> f x = Ok y)"
  by (cases r) auto

lemma map_res_eq_Ok [simp]: "map_res f r = Ok y \<longleftrightarrow> (\<exists>x. r = Ok x \<and> y = f x)"
  by (cases r) auto

lemma map_res_simps [simp]:
  "is_ok (map_res f r) = is_ok r"
  "panics (map_res f r) = panics r"
  by (cases r rule: panics.cases; simp)+

lemma opt_context_eq_Ok [simp]: "opt_context m o' = Ok x \<longleftrightarrow> o' = Some x"
  by (cases o') auto

lemma opt_context_simps [simp]:
  "\<not> panics (opt_context m o')"
  "is_ok (opt_context m o') \<longleftrightarrow> o' \<noteq> None"
  by (cases o'; simp)+

lemma panics_and_then:
  "panics (and_then r f) \<longleftrightarrow> panics r \<or> (\<exists>x. r = Ok x \<and> panics (f x))"
  by (cases r rule: panics.cases) auto

lemma int_conversion_simps [simp]:
  "int_conversion o' = Ok x \<longleftrightarrow> o' = Some x"
  "\<not> panics (int_conversion o')"
  by (cases o'; simp)+

lemma is_ok_iff: "is_ok r \<longleftrightarrow> (\<exists>x. r = Ok x)"
  by (cases r) auto

lemma collect_res_eq_Ok: "collect_res rs = Ok xs \<longleftrightarrow> rs = map Ok xs"
  by (induction rs arbitrary: xs rule: collect_res.induct) auto

lemma collect_res_map_eq_Ok: "collect_res (map f xs) = Ok ys \<longleftrightarrow> list_all2 (\<lambda>x y. f x = Ok y) xs ys"
proof (induction xs arbitrary: ys)
  case (Cons x xs)
  then show ?case by (cases "f x") (auto simp: list_all2_Cons1)
qed auto

lemmas [res_simps] = with_context.simps and_then.simps map_res.simps opt_context.simps
  is_ok.simps panics.simps collect_res.simps

lemma bind_eff_simps [res_simps]:
  "f s = (Inl e, s') \<Longrightarrow> bind_eff f g s = (Inl e, s')"
  "f s = (Inr x, s') \<Longrightarrow> bind_eff f g s = g x s'"
  by (simp_all add: bind_eff_def)

lemma bind_eff_OkE:
  assumes "bind_eff f g s = (Ok y, s'')"
  obtains x s' where "f s = (Ok x, s')" and "g x s' = (Ok y, s'')"
  using assms by (auto simp: bind_eff_def split: prod.splits sum.splits)

lemma map_eff_eq_Ok [simp]: "map_eff f g s = (Ok y, s') \<longleftrightarrow> (\<exists>x. g s = (Ok x, s') \<and> y = f x)"
  by (auto simp: map_eff_def split: prod.splits)

lemma context_eff_eq_Ok [simp]: "context_eff m f s = (Ok x, s') \<longleftrightarrow> f s = (Ok x, s')"
  by (auto simp: context_eff_def split: prod.splits)


section \<open>Lemmas on integers\<close>

lemma unat_u8_less [simp]: "unat (a :: u8) < 256"
  using unsigned_less [of a, where ?'a = nat] by simp

lemma ex_u8_iff: "(\<exists>e :: u8. unat e = n \<and> P e) \<longleftrightarrow> n < 256 \<and> P (of_nat n)"
proof -
  have "unat (of_nat n :: u8) = n" if "n < 256" using that by (simp add: unat_of_nat)
  then show ?thesis by auto
qed

lemma unat_u16_less [simp]: "unat (a :: u16) < 65536"
  using unsigned_less [of a, where ?'a = nat] by simp

lemma unat_u32_less [simp]: "unat (a :: u32) < 4294967296"
  using unsigned_less [of a, where ?'a = nat] by simp

lemma unat_u64_less [simp]: "unat (a :: u64) < 18446744073709551616"
  using unsigned_less [of a, where ?'a = nat] by simp

lemma unat_add_if_fits:
  "unat a + unat b < 2 ^ LENGTH('a) \<Longrightarrow> unat (a + b) = unat a + unat (b :: 'a::len word)"
  by (simp add: unat_word_ariths)

lemma unat_mul_if_fits:
  "unat a * unat b < 2 ^ LENGTH('a) \<Longrightarrow> unat (a * b) = unat a * unat (b :: 'a::len word)"
  by (simp add: unat_word_ariths)

lemma unat_sub_if_le: "b \<le> a \<Longrightarrow> unat (a - b) = unat a - unat (b :: 'a::len word)"
  by (simp add: unat_sub)

lemma unat_pow_if_fits:
  "unat a ^ n < 2 ^ LENGTH('a) \<Longrightarrow> unat ((a :: 'a::len word) ^ n) = unat a ^ n"
proof (induction n)
  case (Suc n)
  show ?case
  proof (cases "unat a = 0")
    case True
    then show ?thesis by (simp add: unat_eq_zero)
  next
    case False
    then have "unat a ^ n \<le> unat a ^ Suc n" by simp
    with Suc.prems have "unat a ^ n < 2 ^ LENGTH('a)" by linarith
    with Suc show ?thesis by (simp add: unat_mul_if_fits)
  qed
qed simp

lemma unat_ucast_if_fits:
  "unat a < 2 ^ LENGTH('b) \<Longrightarrow> unat (ucast (a :: 'a::len word) :: 'b::len word) = unat a"
  by (simp add: unsigned_ucast_eq take_bit_nat_eq_self)

text \<open>The widening conversions (\<open>From\<close>) the sources use.\<close>

lemma unat_widen [simp]:
  "unat (ucast (a :: u8) :: u16) = unat a"
  "unat (ucast (b :: u32) :: u64) = unat b"
  "unat (ucast (b :: u32) :: u128) = unat b"
  "unat (ucast (c :: u64) :: u128) = unat c"
  by (rule unat_ucast_if_fits, simp add: less_trans [OF unat_u8_less]
      less_trans [OF unat_u32_less] less_trans [OF unat_u64_less])+

lemma checked_add_Some: "checked_add a b = Some c \<Longrightarrow> unat c = unat a + unat b"
  by (auto simp: checked_add_def unat_add_if_fits split: if_splits)

lemma checked_sub_Some: "checked_sub a b = Some c \<longleftrightarrow> unat b \<le> unat a \<and> unat c = unat a - unat b"
proof -
  have "c = a - b \<longleftrightarrow> unat c = unat a - unat b" if "b \<le> a"
    using that by (metis unat_sub_if_le word_unat_eq_iff)
  then show ?thesis by (auto simp: checked_sub_def word_le_nat_alt)
qed

lemma checked_mul_Some: "checked_mul a b = Some c \<Longrightarrow> unat c = unat a * unat b"
  by (auto simp: checked_mul_def unat_mul_if_fits split: if_splits)

lemma unat_saturating_add:
  "unat (saturating_add a b) = min (unat a + unat b) (2 ^ LENGTH('a) - 1)" for a :: "'a::len word"
  by (auto simp: saturating_add_def checked_add_def unat_add_if_fits unsigned_minus_1_eq_mask mask_eq_exp_minus_1)

lemma try_into_Some: "try_into a = Some b \<Longrightarrow> unat b = unat a"
  by (auto simp: try_into_def unat_ucast_if_fits split: if_splits)

lemma usize_try_into_Some: "usize_try_into n = Some (b :: 'b::len word) \<longleftrightarrow> unat b = n"
  by (auto simp: usize_try_into_def unat_of_nat word_unat_eq_iff split: if_splits)

end
