(* ===== verification/BTree.thy ===== *)
theory BTree
  imports Prelude
begin

text \<open>
  The ordered containers of Rust's standard library that the sources use.  A
  \<open>BTreeMap\<close> is the list of its entries in strictly increasing key order, a
  \<open>BTreeSet\<close> the strictly increasing list of its elements: the order is observable,
  because iteration follows it.  The locale \<open>ordered_map\<close> states what clients rely on;
  the lemmas on building a map by repeated insertion are proved in it once.
\<close>

section \<open>Maps\<close>

type_synonym ('k, 'v) btree_map = "('k \<times> 'v) list"

definition bt_wf :: "('k::linorder, 'v) btree_map \<Rightarrow> bool" where
  "bt_wf m \<longleftrightarrow> sorted_wrt (<) (map fst m)"

abbreviation bt_get :: "('k, 'v) btree_map \<Rightarrow> 'k \<Rightarrow> 'v option" where
  "bt_get \<equiv> map_of"

fun bt_insert :: "'k::linorder \<Rightarrow> 'v \<Rightarrow> ('k, 'v) btree_map \<Rightarrow> ('k, 'v) btree_map" where
  "bt_insert k v [] = [(k, v)]"
| "bt_insert k v ((k', v') # m) =
     (if k < k' then (k, v) # (k', v') # m
      else if k = k' then (k, v) # m
      else (k', v') # bt_insert k v m)"

definition bt_remove :: "'k \<Rightarrow> ('k, 'v) btree_map \<Rightarrow> ('k, 'v) btree_map" where
  "bt_remove k m = filter (\<lambda>(k', v). k' \<noteq> k) m"

definition bt_retain :: "('k \<Rightarrow> 'v \<Rightarrow> bool) \<Rightarrow> ('k, 'v) btree_map \<Rightarrow> ('k, 'v) btree_map" where
  "bt_retain P m = filter (\<lambda>(k, v). P k v) m"

definition bt_collect :: "('k::linorder \<times> 'v) list \<Rightarrow> ('k, 'v) btree_map" where
  "bt_collect kvs = fold (\<lambda>(k, v). bt_insert k v) kvs []"


section \<open>Sets\<close>

type_synonym 'k btree_set = "'k list"

definition bs_wf :: "'k::linorder btree_set \<Rightarrow> bool" where
  "bs_wf s \<longleftrightarrow> sorted_wrt (<) s"

text \<open>\<open>insert\<close> tells whether the element was new, \<open>remove\<close> whether it was present.\<close>

fun bs_insert :: "'k::linorder \<Rightarrow> 'k btree_set \<Rightarrow> 'k btree_set" where
  "bs_insert x [] = [x]"
| "bs_insert x (y # s) = (if x < y then x # y # s else if x = y then y # s else y # bs_insert x s)"

definition bs_contains :: "'k btree_set \<Rightarrow> 'k \<Rightarrow> bool" where
  "bs_contains s x \<longleftrightarrow> x \<in> set s"

definition bs_remove :: "'k \<Rightarrow> 'k btree_set \<Rightarrow> 'k btree_set" where
  "bs_remove x s = filter (\<lambda>y. y \<noteq> x) s"

definition bs_difference :: "'k btree_set \<Rightarrow> 'k btree_set \<Rightarrow> 'k list" where
  "bs_difference s t = filter (\<lambda>x. x \<notin> set t) s"

definition bs_collect :: "'k::linorder list \<Rightarrow> 'k btree_set" where
  "bs_collect xs = fold bs_insert xs []"


section \<open>What clients rely on\<close>

locale ordered_map =
  fixes empty :: 'm
    and insert :: "'k::linorder \<Rightarrow> 'v \<Rightarrow> 'm \<Rightarrow> 'm"
    and remove :: "'k \<Rightarrow> 'm \<Rightarrow> 'm"
    and retain :: "('k \<Rightarrow> 'v \<Rightarrow> bool) \<Rightarrow> 'm \<Rightarrow> 'm"
    and get :: "'m \<Rightarrow> 'k \<Rightarrow> 'v option"
    and keys :: "'m \<Rightarrow> 'k list"
    and wf :: "'m \<Rightarrow> bool"
  assumes wf_empty: "wf empty"
    and wf_insert: "wf m \<Longrightarrow> wf (insert k v m)"
    and wf_remove: "wf m \<Longrightarrow> wf (remove k m)"
    and wf_retain: "wf m \<Longrightarrow> wf (retain P m)"
    and get_empty: "get empty k = None"
    and get_insert: "get (insert k v m) k' = (if k' = k then Some v else get m k')"
    and get_remove: "get (remove k m) k' = (if k' = k then None else get m k')"
    and get_retain: "wf m \<Longrightarrow> get (retain P m) k =
          (case get m k of None \<Rightarrow> None | Some v \<Rightarrow> if P k v then Some v else None)"
    and set_keys: "set (keys m) = dom (get m)"
    and sorted_keys: "wf m \<Longrightarrow> sorted_wrt (<) (keys m)"
begin

lemma wf_insert_all: "wf m \<Longrightarrow> wf (fold (\<lambda>(k, v). insert k v) kvs m)"
  by (induction kvs arbitrary: m) (auto intro: wf_insert)

lemma get_insert_all:
  "get (fold (\<lambda>(k, v). insert k v) kvs m) k =
     (case map_of (rev kvs) k of None \<Rightarrow> get m k | Some v \<Rightarrow> Some v)"
proof (induction kvs arbitrary: m)
  case (Cons kv kvs)
  then show ?case
    by (cases kv) (auto simp: get_insert map_add_def split: option.splits)
qed simp

lemma distinct_keys: "wf m \<Longrightarrow> distinct (keys m)"
  using sorted_keys [of m] by (simp add: strict_sorted_iff)

lemma keys_unique:
  assumes "wf m" and "wf m'" and "dom (get m) = dom (get m')"
  shows "keys m = keys m'"
  using assms by (intro strict_sorted_equal) (simp_all add: set_keys sorted_keys)

end


section \<open>Maps as sorted association lists\<close>

lemma bt_wf_Cons: "bt_wf ((k, v) # m) \<longleftrightarrow> (\<forall>k' \<in> fst ` set m. k < k') \<and> bt_wf m"
  by (auto simp: bt_wf_def)

lemma fst_set_bt_insert: "fst ` set (bt_insert k v m) = insert k (fst ` set m)"
  by (induction k v m rule: bt_insert.induct) (simp_all add: insert_commute)

lemma bt_wf_insert: "bt_wf m \<Longrightarrow> bt_wf (bt_insert k v m)"
  by (induction k v m rule: bt_insert.induct)
    (auto simp: bt_wf_Cons fst_set_bt_insert bt_wf_def [of "[]"])

lemma bt_get_insert: "bt_get (bt_insert k v m) k' = (if k' = k then Some v else bt_get m k')"
  by (induction m) auto

lemma bt_wf_filter: "bt_wf m \<Longrightarrow> bt_wf (filter P m)"
  by (induction m) (auto simp: bt_wf_Cons)

lemma bt_wf_distinct: "bt_wf m \<Longrightarrow> distinct (map fst m)"
  by (simp add: bt_wf_def strict_sorted_iff)

lemma bt_get_retain:
  assumes "bt_wf m"
  shows "bt_get (bt_retain P m) k =
    (case bt_get m k of None \<Rightarrow> None | Some v \<Rightarrow> if P k v then Some v else None)"
  using assms
proof (induction m)
  case (Cons kv m)
  obtain k0 v0 where kv: "kv = (k0, v0)" by (cases kv)
  with Cons.prems have "bt_wf m" and less: "\<forall>k' \<in> fst ` set m. k0 < k'"
    by (simp_all add: bt_wf_Cons)
  from less have "bt_get m k0 = None" by (force simp: map_of_eq_None_iff)
  with Cons.IH [OF \<open>bt_wf m\<close>] kv show ?case by (auto simp: bt_retain_def)
qed (simp add: bt_retain_def)

lemma bt_get_remove: "bt_get (bt_remove k m) k' = (if k' = k then None else bt_get m k')"
  by (induction m) (auto simp: bt_remove_def)

interpretation bt: ordered_map "[]" bt_insert bt_remove bt_retain bt_get "map fst" bt_wf
proof unfold_locales
  show "bt_wf (bt_remove k m)" if "bt_wf m" for k and m :: "('k::linorder \<times> 'v) list"
    using that by (simp add: bt_remove_def bt_wf_filter)
  show "bt_wf (bt_retain P m)" if "bt_wf m" for P and m :: "('k::linorder \<times> 'v) list"
    using that by (simp add: bt_retain_def bt_wf_filter)
qed (simp_all add: bt_wf_insert bt_get_insert bt_get_remove bt_get_retain dom_map_of_conv_image_fst
      bt_wf_def [of "[]"], simp add: bt_wf_def)

lemma bt_get_collect: "bt_get (bt_collect kvs) = map_of (rev kvs)"
  by (rule ext) (simp add: bt_collect_def bt.get_insert_all split: option.split)

lemma bt_get_collect_distinct: "distinct (map fst kvs) \<Longrightarrow> bt_get (bt_collect kvs) = map_of kvs"
  by (simp add: bt_get_collect map_of_inject_set rev_map [symmetric])

lemma bt_wf_collect [simp]: "bt_wf (bt_collect kvs)"
  by (simp add: bt_collect_def bt.wf_insert_all bt.wf_empty)

lemma bt_get_in_set: "bt_wf m \<Longrightarrow> (k, v) \<in> set m \<longleftrightarrow> bt_get m k = Some v"
  using bt_wf_distinct [of m] by auto

lemma bt_retain_keys: "map fst (bt_retain (\<lambda>k _. P k) m) = filter P (map fst m)"
  by (induction m) (auto simp: bt_retain_def)


section \<open>Sets as sorted lists\<close>

lemma set_bs_insert [simp]: "set (bs_insert x s) = insert x (set s)"
  by (induction s) auto

lemma bs_wf_insert: "bs_wf s \<Longrightarrow> bs_wf (bs_insert x s)"
  by (induction s) (auto simp: bs_wf_def)

lemma set_bs_remove [simp]: "set (bs_remove x s) = set s - {x}"
  by (auto simp: bs_remove_def)

lemma bs_wf_remove: "bs_wf s \<Longrightarrow> bs_wf (bs_remove x s)"
  by (simp add: bs_wf_def bs_remove_def sorted_wrt_filter)

lemma set_bs_difference [simp]: "set (bs_difference s t) = set s - set t"
  by (auto simp: bs_difference_def)

lemma bs_wf_difference: "bs_wf s \<Longrightarrow> bs_wf (bs_difference s t)"
  by (simp add: bs_wf_def bs_difference_def sorted_wrt_filter)

lemma bs_fold_insert:
  "set (fold bs_insert xs s) = set xs \<union> set s"
  "bs_wf s \<Longrightarrow> bs_wf (fold bs_insert xs s)"
  by (induction xs arbitrary: s) (auto simp: bs_wf_insert)

lemma bs_collect_simps [simp]: "set (bs_collect xs) = set xs" "bs_wf (bs_collect xs)"
  by (simp_all add: bs_collect_def bs_fold_insert bs_wf_def [of "[]"])

lemma bs_wf_distinct: "bs_wf s \<Longrightarrow> distinct s"
  by (simp add: bs_wf_def strict_sorted_iff)

lemma bs_wf_unique: "bs_wf s \<Longrightarrow> bs_wf t \<Longrightarrow> set s = set t \<Longrightarrow> s = t"
  unfolding bs_wf_def by (rule strict_sorted_equal)

end
