(* ===== verification/Tx.thy ===== *)
theory Tx
  imports Prelude
begin

text \<open>
  \<open>chain-ops/src/tx.rs\<close>: building contract calls, waiting for a broadcast transaction to be
  included in a block, the running estimate of the fallback gas, and decoding the
  contract's answer.  Times and durations are in nanoseconds.  The encoders and decoders
  of \<open>cosmrs\<close>, \<open>prost\<close>, \<open>data_encoding\<close> and \<open>serde_json_wasm\<close> are parameters.
\<close>

section \<open>Responses\<close>

record tx_response =
  code :: u32
  txhash :: string
  raw_log :: string
  response_data :: string
  gas_used :: "64 word"
  height :: "64 word"

datatype tx_code = TxOk | TxErr u32

definition tx_code_from :: "u32 \<Rightarrow> tx_code" where
  "tx_code_from c = (if c = 0 then TxOk else TxErr c)"

fun tx_code_is_ok :: "tx_code \<Rightarrow> bool" where
  "tx_code_is_ok TxOk = True"
| "tx_code_is_ok (TxErr c) = False"

fun tx_code_value :: "tx_code \<Rightarrow> u32" where
  "tx_code_value TxOk = 0"
| "tx_code_value (TxErr c) = c"

definition OUT_OF_GAS_ERROR_CODE :: u32 where
  "OUT_OF_GAS_ERROR_CODE = 11"

text \<open>\<open>i64::unsigned_abs\<close>.\<close>

definition unsigned_abs :: "64 word \<Rightarrow> u64" where
  "unsigned_abs w = (if sint w < 0 then - w else w)"


section \<open>Contract calls\<close>

text \<open>The messages sent never carry funds; \<open>'any\<close> is the encoded message.\<close>

record msg_execute_contract =
  msg_sender :: string
  msg_contract :: string
  msg_bytes :: string
  msg_funds :: "string list"

record 'any tx_body =
  messages :: "'any list"
  memo :: string
  timeout_height :: u32
  extension_options :: "'any list"
  non_critical_extension_options :: "'any list"

definition execute_template_new :: "string \<Rightarrow> string \<Rightarrow> msg_execute_contract" where
  "execute_template_new signer_address contract_address =
     \<lparr>msg_sender = signer_address, msg_contract = contract_address, msg_bytes = [], msg_funds = []\<rparr>"

text \<open>The template's message is replaced for the encoding and emptied again.\<close>

definition apply_raw ::
  "(msg_execute_contract \<Rightarrow> 'any res) \<Rightarrow> msg_execute_contract \<Rightarrow> string \<Rightarrow>
     'any tx_body res \<times> msg_execute_contract" where
  "apply_raw any_from_msg template message =
     (let template = template\<lparr>msg_bytes := message\<rparr>;
          result = with_context ''Failed to encode message into binary Protobuf format!''
            (map_res (\<lambda>message.
               \<lparr>messages = [message], memo = [], timeout_height = 0,
                extension_options = [], non_critical_extension_options = []\<rparr>)
              (any_from_msg template));
          template = template\<lparr>msg_bytes := []\<rparr>
      in (result, template))"

definition apply_template ::
  "('m \<Rightarrow> string res) \<Rightarrow> (msg_execute_contract \<Rightarrow> 'any res) \<Rightarrow> msg_execute_contract \<Rightarrow> 'm \<Rightarrow>
     'any tx_body res \<times> msg_execute_contract" where
  "apply_template to_vec any_from_msg template message =
     (case with_context ''Failed to serialize message into JSON format!'' (to_vec message) of
        Inl e \<Rightarrow> (Inl e, template)
      | Inr bytes \<Rightarrow> apply_raw any_from_msg template bytes)"


section \<open>Waiting for inclusion in a block\<close>

text \<open>
  \<open>Duration\<close> is at most \<open>2 ^ 64 - 1\<close> seconds and 999999999 nanoseconds; multiplication
  panics beyond.
\<close>

definition duration_mul :: "nat \<Rightarrow> nat \<Rightarrow> nat res" where
  "duration_mul d n =
     (if d * n < 2 ^ 64 * 1000000000 then Ok (d * n)
      else panic ''overflow when multiplying duration by scalar'')"

record 's tx_env =
  query_tx :: "string \<Rightarrow> ('s, tx_response option) eff"
  env_sleep :: "nat \<Rightarrow> 's \<Rightarrow> 's"
  clock :: "'s \<Rightarrow> nat"

definition PRINT_ON_NTH :: u8 where
  "PRINT_ON_NTH = 5"

definition IDLE_SLEEP_DURATION :: nat where
  "IDLE_SLEEP_DURATION = 2 * 1000000000"

text \<open>
  The polling loop inside \<open>timeout\<close>: a query or a sleep that has not finished by the
  deadline is abandoned, and the result is then \<open>None\<close> (\<open>Elapsed\<close>).  A failing query is
  logged and retried; a panic of the query would end the loop.  The outer \<open>option\<close>
  is for the loop itself, which might not return.
\<close>

partial_function (option) fetch_loop ::
  "'s tx_env \<Rightarrow> string \<Rightarrow> nat \<Rightarrow> u8 \<Rightarrow> 's \<Rightarrow> (tx_response option res \<times> 's) option" where
  "fetch_loop env hash deadline not_included_counter s =
     (case query_tx env hash s of
        (r, s1) \<Rightarrow>
          if deadline < clock env s1 then Some (Ok None, s1)
          else (case r of
              Inr (Some response) \<Rightarrow> Some (Ok (Some response), s1)
            | Inl (Panic p) \<Rightarrow> Some (Inl (Panic p), s1)
            | _ \<Rightarrow>
                let s2 = env_sleep env IDLE_SLEEP_DURATION s1 in
                if deadline < clock env s2 then Some (Ok None, s2)
                else fetch_loop env hash deadline
                  (if r = Ok None then (not_included_counter + 1) mod PRINT_ON_NTH
                   else not_included_counter) s2))"

definition fetch_delivered ::
  "'s tx_env \<Rightarrow> tx_response \<Rightarrow> nat \<Rightarrow> 's \<Rightarrow> (tx_response option res \<times> 's) option" where
  "fetch_delivered env response timeout_duration s =
     (if tx_code_is_ok (tx_code_from (code response))
      then (case duration_mul timeout_duration (unat PRINT_ON_NTH) of
          Inl e \<Rightarrow> Some (Inl e, s)
        | Inr duration \<Rightarrow>
            map_option (\<lambda>(r, s').
                (and_then r (\<lambda>found. case found of
                    Some response \<Rightarrow> Ok (Some response)
                  | None \<Rightarrow> Err [''Timed out while fetching processed transaction!'',
                                 ''deadline has elapsed'']), s'))
              (fetch_loop env (txhash response) (clock env s + duration) 0 s))
      else Some (Ok None, s))"


section \<open>The fallback gas\<close>

definition adjust_fallback_gas :: "gas \<Rightarrow> gas \<Rightarrow> gas res" where
  "adjust_fallback_gas fallback_gas used_gas =
     (case (if used_gas < fallback_gas then (fallback_gas, used_gas) else (used_gas, fallback_gas)) of
        (fallback_gas_major, fallback_gas_minor) \<Rightarrow>
          and_then (mul_or_panic (ucast fallback_gas_major :: u128) 2) (\<lambda>major.
          and_then (mul_or_panic (ucast fallback_gas_minor :: u128) 1) (\<lambda>minor.
          and_then (add_or_panic major minor) (\<lambda>sum.
          and_then (div_or_panic sum 3) (\<lambda>average.
          int_conversion (try_into average))))))"


section \<open>Decoding a contract's answer\<close>

record ('any, 'r) decoders =
  hex_decode :: "string \<Rightarrow> string res"
  package_decode :: "string \<Rightarrow> string res"
  any_decode :: "string \<Rightarrow> 'any res"
  to_msg_data :: "'any \<Rightarrow> string res"
  from_slice :: "string \<Rightarrow> 'r res"

definition decode_execute_response :: "('any, 'r) decoders \<Rightarrow> tx_response \<Rightarrow> 'r res" where
  "decode_execute_response dec response =
     and_then (with_context ''Transaction response payload should be BASE64 encoded!''
       (hex_decode dec (response_data response))) (\<lambda>protobuf.
     and_then (package_decode dec protobuf) (\<lambda>package.
     and_then (any_decode dec package) (\<lambda>any.
     and_then (to_msg_data dec any) (\<lambda>data.
     from_slice dec data))))"


section \<open>Templates\<close>

text \<open>
  Building a call leaves the template as it was, also when encoding fails, so a
  template is never sent with a stale message; a body that is built holds exactly the
  encoding of the call with the given message, and no funds are added.
\<close>

theorem apply_template_correct:
  assumes "msg_bytes template = []"
  shows "snd (apply_template to_vec any_from_msg template m) = template \<and>
    (fst (apply_template to_vec any_from_msg template m) = Ok body \<longleftrightarrow>
      (\<exists>bytes any. to_vec m = Ok bytes \<and> any_from_msg (template\<lparr>msg_bytes := bytes\<rparr>) = Ok any \<and>
        body = \<lparr>messages = [any], memo = [], timeout_height = 0,
                extension_options = [], non_critical_extension_options = []\<rparr>))"
  using assms
  by (cases "to_vec m" rule: panics.cases) (auto simp: apply_template_def apply_raw_def Let_def)

theorem apply_template_correct_witness:
  "snd (apply_template Ok (\<lambda>m. Ok (msg_bytes m)) (execute_template_new ''a'' ''b'') ''{}'')
     = execute_template_new ''a'' ''b'' \<and>
   (fst (apply_template Ok (\<lambda>m. Ok (msg_bytes m)) (execute_template_new ''a'' ''b'') ''{}'')
     = Ok \<lparr>messages = [''{}''], memo = [], timeout_height = 0,
           extension_options = [], non_critical_extension_options = []\<rparr>)"
proof -
  have "msg_bytes (execute_template_new ''a'' ''b'') = []" by (simp add: execute_template_new_def)
  from apply_template_correct [OF this, of Ok "\<lambda>m. Ok (msg_bytes m)" "''{}''"]
  show ?thesis by simp
qed


section \<open>The estimate stays between its arguments\<close>

lemma adjust_fallback_gas_eq:
  "\<exists>r. adjust_fallback_gas f g = Ok r \<and>
     unat r = (2 * max (unat f) (unat g) + min (unat f) (unat g)) div 3"
proof -
  let ?M = "if g < f then f else g" and ?m = "if g < f then g else f"
  have bounds: "unat ?M < 2 ^ 64" "unat ?m < 2 ^ 64" by simp_all
  have major: "mul_or_panic (ucast ?M :: u128) 2 = Ok (ucast ?M * 2)"
      "unat (ucast ?M * 2 :: u128) = 2 * unat ?M"
    using bounds(1) by (simp_all add: int_ops unat_mul_if_fits del: unat_u64_less)
  have minor: "mul_or_panic (ucast ?m :: u128) 1 = Ok (ucast ?m)"
    using bounds(2) by (simp add: int_ops del: unat_u64_less)
  have sum: "add_or_panic (ucast ?M * 2 :: u128) (ucast ?m) = Ok (ucast ?M * 2 + ucast ?m)"
      "unat (ucast ?M * 2 + ucast ?m :: u128) = 2 * unat ?M + unat ?m"
    using bounds major(2) by (simp_all add: int_ops unat_add_if_fits del: unat_u64_less)
  let ?a = "(ucast ?M * 2 + ucast ?m :: u128) div 3"
  have avg: "unat ?a = (2 * unat ?M + unat ?m) div 3" using sum(2) by (simp add: unat_div)
  moreover have "\<dots> < 2 ^ 64" using bounds by (simp del: unat_u64_less)
  ultimately have conv: "try_into ?a = Some (ucast ?a :: u64)" "unat (ucast ?a :: u64) = unat ?a"
    by (simp_all add: try_into_def unat_ucast_if_fits)
  have "adjust_fallback_gas f g = Ok (ucast ?a)"
    using major(1) minor sum(1) conv(1)
    by (simp add: adjust_fallback_gas_def div_or_panic_def checked_div_def split: if_splits)
  with avg conv(2) show ?thesis by (auto simp: word_less_nat_alt max_def min_def)
qed

text \<open>
  C26: the new fallback gas is always computed (no overflow, no failed conversion), is
  the average of the old value and the gas used weighted two to one for the larger, and
  so lies between the two.
\<close>

theorem adjust_fallback_gas_average:
  "\<exists>r. adjust_fallback_gas f g = Ok r \<and>
     unat r = (2 * max (unat f) (unat g) + min (unat f) (unat g)) div 3 \<and>
     min f g \<le> r \<and> r \<le> max f g"
proof -
  obtain r where "adjust_fallback_gas f g = Ok r"
    and r: "unat r = (2 * max (unat f) (unat g) + min (unat f) (unat g)) div 3"
    using adjust_fallback_gas_eq by blast
  moreover from r have "min f g \<le> r" "r \<le> max f g"
    by (auto simp: word_le_nat_alt min_def max_def)
  ultimately show ?thesis by blast
qed


section \<open>Waiting ends\<close>

text \<open>Time passes: a query takes some, a sleep takes at least its duration.\<close>

definition clock_advances :: "'s tx_env \<Rightarrow> bool" where
  "clock_advances env \<longleftrightarrow>
     (\<forall>h s. clock env s \<le> clock env (snd (query_tx env h s))) \<and>
     (\<forall>d s. clock env s + d \<le> clock env (env_sleep env d s))"

definition loop_outcome :: "'s tx_env \<Rightarrow> string \<Rightarrow> nat \<Rightarrow> tx_response option res \<times> 's \<Rightarrow> bool" where
  "loop_outcome env hash deadline out \<longleftrightarrow>
     (case out of
        (Inr None, s') \<Rightarrow> deadline < clock env s'
      | (Inl (Error ms), s') \<Rightarrow> False
      | (r, s') \<Rightarrow> clock env s' \<le> deadline \<and> (\<exists>s0. query_tx env hash s0 = (r, s')))"

lemma fetch_loop_returns:
  assumes "clock_advances env"
  shows "\<exists>out. fetch_loop env hash deadline n s = Some out \<and> loop_outcome env hash deadline out"
proof (induction "deadline - clock env s" arbitrary: n s rule: less_induct)
  case less
  obtain r s1 where q: "query_tx env hash s = (r, s1)" by (cases "query_tx env hash s")
  define s2 where "s2 = env_sleep env IDLE_SLEEP_DURATION s1"
  have le: "clock env s \<le> clock env s1"
    using assms q by (metis clock_advances_def snd_conv)
  have lt: "clock env s1 < clock env s2"
  proof -
    have "clock env s1 + IDLE_SLEEP_DURATION \<le> clock env s2"
      using assms by (simp add: clock_advances_def s2_def)
    then show ?thesis by (simp add: IDLE_SLEEP_DURATION_def)
  qed
  show ?case
  proof (cases "deadline < clock env s1")
    case True
    with q show ?thesis by (subst fetch_loop.simps) (simp add: loop_outcome_def)
  next
    case early: False
    let ?retry = "\<exists>m. fetch_loop env hash deadline n s =
      (if deadline < clock env s2 then Some (Ok None, s2) else fetch_loop env hash deadline m s2)"
    have retry: ?thesis if ?retry
    proof (cases "deadline < clock env s2")
      case True
      with that show ?thesis by (auto simp: loop_outcome_def)
    next
      case False
      with le lt early have "deadline - clock env s2 < deadline - clock env s" by linarith
      from less [OF this] that False show ?thesis by auto
    qed
    show ?thesis
    proof (cases "(\<exists>resp. r = Ok (Some resp)) \<or> (\<exists>p. r = panic p)")
      case True
      with q early show ?thesis
        by (subst fetch_loop.simps) (auto simp: loop_outcome_def)
    next
      case False
      with q early have ?retry
        by (subst fetch_loop.simps) (auto simp: s2_def Let_def split: sum.splits failure.splits option.splits)
      then show ?thesis by (rule retry)
    qed
  qed
qed

text \<open>
  C24: waiting for a transaction always ends.  A transaction that was rejected on
  broadcast is not waited for; otherwise the result is the response the node reported
  for the transaction's hash no later than five times the timeout after the start, or,
  once that time has passed, the timeout error.
\<close>

theorem fetch_delivered_returns:
  assumes "clock_advances env" and "timeout * 5 < 2 ^ 64 * 1000000000"
    and "\<And>h s. \<not> panics (fst (query_tx env h s))"
  shows "\<exists>r s'. fetch_delivered env response timeout s = Some (r, s') \<and>
    (if code response \<noteq> 0 then r = Ok None \<and> s' = s
     else (\<exists>s0 found. query_tx env (txhash response) s0 = (Ok (Some found), s') \<and>
             r = Ok (Some found) \<and> clock env s' \<le> clock env s + timeout * 5) \<or>
          (r = Err [''Timed out while fetching processed transaction!'', ''deadline has elapsed''] \<and>
             clock env s + timeout * 5 < clock env s'))"
proof (cases "code response = 0")
  case False
  then show ?thesis by (simp add: fetch_delivered_def tx_code_from_def)
next
  case True
  let ?D = "clock env s + timeout * 5"
  obtain r s' where run: "fetch_loop env (txhash response) ?D 0 s = Some (r, s')"
    and out: "loop_outcome env (txhash response) ?D (r, s')"
    using fetch_loop_returns [OF assms(1)] by (metis prod.exhaust)
  show ?thesis
  proof (cases "\<exists>found. r = Ok (Some found)")
    case some: True
    with True run out assms(2) show ?thesis
      by (auto simp: fetch_delivered_def tx_code_from_def duration_mul_def PRINT_ON_NTH_def
          loop_outcome_def)
  next
    case none: False
    have "r = Ok None"
    proof (cases r rule: panics.cases)
      case (1 p)
      then obtain s0 where "query_tx env (txhash response) s0 = (panic p, s')"
        using out by (auto simp: loop_outcome_def)
      then have "panics (fst (query_tx env (txhash response) s0))" by simp
      with assms(3) show ?thesis by blast
    next
      case (2 ms)
      with out show ?thesis by (simp add: loop_outcome_def)
    next
      case (3 x)
      with none show ?thesis by (cases x) auto
    qed
    with True run out assms(2) show ?thesis
      by (auto simp: fetch_delivered_def tx_code_from_def duration_mul_def PRINT_ON_NTH_def
          loop_outcome_def)
  qed
qed

definition example_response :: tx_response where
  "example_response =
     \<lparr>code = 0, txhash = ''AB'', raw_log = [], response_data = [], gas_used = 0, height = 0\<rparr>"

text \<open>A node that never reports the transaction; the state is the time.\<close>

definition silent_node :: "nat tx_env" where
  "silent_node = \<lparr>query_tx = \<lambda>_ s. (Ok None, s), env_sleep = \<lambda>d s. s + d, clock = \<lambda>s. s\<rparr>"

theorem fetch_delivered_returns_witness:
  "\<exists>s'. fetch_delivered silent_node example_response 1000000000 0 =
      Some (Err [''Timed out while fetching processed transaction!'', ''deadline has elapsed''], s') \<and>
     5000000000 < s'"
  using fetch_delivered_returns [of silent_node 1000000000 example_response 0]
  by (auto simp: clock_advances_def silent_node_def example_response_def)

end
