(* ===== verification/Task.thy ===== *)
theory Task
  imports BTree Tx
begin

text \<open>
  \<open>chain-ops/src/task/mod.rs\<close>: identifiers of tasks with their derived order, the state the
  supervisor keeps per running task, transaction packages and their expiration.
\<close>

section \<open>Identifiers\<close>

datatype 'a task_id = IdBalanceReporter | IdBroadcast | IdProtocolWatcher | IdApplicationDefined 'a

text \<open>The derived \<open>Ord\<close>: variants in order of declaration, then their contents.\<close>

fun task_id_rank :: "'a task_id \<Rightarrow> nat" where
  "task_id_rank IdBalanceReporter = 0"
| "task_id_rank IdBroadcast = 1"
| "task_id_rank IdProtocolWatcher = 2"
| "task_id_rank (IdApplicationDefined a) = 3"

instantiation task_id :: (linorder) linorder
begin

fun less_eq_task_id :: "'a task_id \<Rightarrow> 'a task_id \<Rightarrow> bool" where
  "less_eq_task_id (IdApplicationDefined a) (IdApplicationDefined b) = (a \<le> b)"
| "less_eq_task_id i j = (task_id_rank i \<le> task_id_rank j)"

definition less_task_id :: "'a task_id \<Rightarrow> 'a task_id \<Rightarrow> bool" where
  "less_task_id i j \<longleftrightarrow> i \<le> j \<and> \<not> j \<le> i"

instance
proof
  fix i j k :: "'a task_id"
  show "i \<le> i" by (cases i) simp_all
  show "i \<le> j \<or> j \<le> i" by (cases i; cases j) auto
  show "i < j \<longleftrightarrow> i \<le> j \<and> \<not> j \<le> i" by (rule less_task_id_def)
  show "i \<le> k" if "i \<le> j" "j \<le> k" using that by (cases i; cases j; cases k) auto
  show "i = j" if "i \<le> j" "j \<le> i" using that by (cases i; cases j) auto
qed

end

definition task_name :: "('a \<Rightarrow> string) \<Rightarrow> 'a task_id \<Rightarrow> string" where
  "task_name name i =
     (case i of
        IdBalanceReporter \<Rightarrow> ''Balance Reporter''
      | IdBroadcast \<Rightarrow> ''Broadcast''
      | IdProtocolWatcher \<Rightarrow> ''Protocol Watcher''
      | IdApplicationDefined a \<Rightarrow> name a)"


section \<open>Task state\<close>

datatype runnable_state = New | Restart

text \<open>The token identifies the spawned run; dropping it aborts that run.\<close>

record 'tok task_state =
  cancellation_token :: 'tok
  retry :: u8

definition state_new :: "'tok \<Rightarrow> 'tok task_state" where
  "state_new token = \<lparr>cancellation_token = token, retry = 0\<rparr>"

definition replace_and_increment :: "'tok task_state \<Rightarrow> 'tok \<Rightarrow> 'tok task_state" where
  "replace_and_increment st token =
     \<lparr>cancellation_token = token, retry = saturating_add (retry st) 1\<rparr>"


section \<open>Transactions on their way to the broadcaster\<close>

datatype expiration = NoExpiration | TimeBasedExpiration (expires_at: nat)

text \<open>
  \<open>timeout_at\<close> gives up on a call that has not finished by the deadline.  The calls made
  under an expiration are network calls, which are never ready at their first poll.
\<close>

fun with_expiration :: "('s \<Rightarrow> nat) \<Rightarrow> expiration \<Rightarrow> ('s, 'a) eff \<Rightarrow> 's \<Rightarrow> 'a res option \<times> 's" where
  "with_expiration now NoExpiration f s = (case f s of (r, s') \<Rightarrow> (Some r, s'))"
| "with_expiration now (TimeBasedExpiration deadline) f s =
     (case f s of (r, s') \<Rightarrow> (if now s' \<le> deadline then Some r else None, s'))"

text \<open>
  The one-shot sender through which the response is fed back is not a field: what is
  sent on it is a result of broadcasting the package.
\<close>

record 'body tx_package =
  tx_body :: 'body
  source :: string
  hard_gas_limit :: gas
  fallback_gas :: gas
  package_expiration :: expiration

end
