(* ===== verification/Digits.thy ===== *)
theory Digits
  imports Prelude
begin

text \<open>
  Decimal text: \<open>to_string\<close> and \<open>parse\<close> of the unsigned integer types, the numeric
  value of a string of ASCII digits, and how the two orders on such strings (byte-wise
  and numeric) relate.  Strings are byte sequences, as in Rust.
\<close>

section \<open>Printing and parsing\<close>

definition is_ascii_digit :: "char \<Rightarrow> bool" where
  "is_ascii_digit c \<longleftrightarrow> 48 \<le> (of_char c :: nat) \<and> (of_char c :: nat) \<le> 57"

definition digit_val :: "char \<Rightarrow> nat" where
  "digit_val c = of_char c - 48"

definition digit_char :: "nat \<Rightarrow> char" where
  "digit_char n = char_of (48 + n)"

fun dec_val :: "string \<Rightarrow> nat" where
  "dec_val [] = 0"
| "dec_val (c # s) = digit_val c * 10 ^ length s + dec_val s"

fun to_dec :: "nat \<Rightarrow> string" where
  "to_dec n = (if n < 10 then [digit_char n] else to_dec (n div 10) @ [digit_char (n mod 10)])"

declare to_dec.simps [simp del]

definition all_digits :: "string \<Rightarrow> bool" where
  "all_digits s \<longleftrightarrow> list_all is_ascii_digit s"

text \<open>A digit string without leading zeroes.\<close>

definition canonical :: "string \<Rightarrow> bool" where
  "canonical s \<longleftrightarrow> all_digits s \<and> s \<noteq> [] \<and> hd s \<noteq> CHR ''0''"

text \<open>
  The loop of \<open>from_str_radix\<close>: at each byte the digit is checked before the
  accumulated value is.
\<close>

fun parse_digits :: "'a::len word \<Rightarrow> string \<Rightarrow> 'a word res" where
  "parse_digits acc [] = Ok acc"
| "parse_digits acc (c # cs) =
     (if \<not> is_ascii_digit c then Err [''invalid digit found in string'']
      else if 10 * unat acc + digit_val c < 2 ^ LENGTH('a)
        then parse_digits (of_nat (10 * unat acc + digit_val c)) cs
        else Err [''number too large to fit in target type''])"

definition parse_unsigned :: "string \<Rightarrow> 'a::len word res" where
  "parse_unsigned s =
     (case s of
        [] \<Rightarrow> Err [''cannot parse integer from empty string'']
      | c # cs \<Rightarrow>
          if (c = CHR ''+'' \<or> c = CHR ''-'') \<and> cs = []
          then Err [''invalid digit found in string'']
          else parse_digits 0 (if c = CHR ''+'' then cs else s))"

definition parse_nonzero :: "string \<Rightarrow> 'a::len word res" where
  "parse_nonzero s =
     and_then (parse_unsigned s)
       (\<lambda>n. if n = 0 then Err [''number would be zero for non-zero type''] else Ok n)"


section \<open>Digits\<close>

lemma digit_char_simps [simp]:
  "n < 10 \<Longrightarrow> digit_val (digit_char n) = n"
  "n < 10 \<Longrightarrow> is_ascii_digit (digit_char n)"
  by (simp_all add: digit_val_def digit_char_def is_ascii_digit_def)

lemma digit_char_eval [simp]:
  "digit_char 0 = CHR ''0''" "digit_char 1 = CHR ''1''" "digit_char (Suc 0) = CHR ''1''"
  "digit_char 2 = CHR ''2''" "digit_char 3 = CHR ''3''" "digit_char 4 = CHR ''4''"
  "digit_char 5 = CHR ''5''" "digit_char 6 = CHR ''6''" "digit_char 7 = CHR ''7''"
  "digit_char 8 = CHR ''8''" "digit_char 9 = CHR ''9''"
  by (simp_all add: digit_char_def char_of_def bit_0)

lemma digit_char_val: "is_ascii_digit c \<Longrightarrow> digit_char (digit_val c) = c"
  by (simp add: digit_val_def digit_char_def is_ascii_digit_def)

lemma digit_val_less: "is_ascii_digit c \<Longrightarrow> digit_val c < 10"
  by (auto simp: digit_val_def is_ascii_digit_def)

lemma digit_val_eq_0: "is_ascii_digit c \<Longrightarrow> digit_val c = 0 \<longleftrightarrow> c = CHR ''0''"
  using digit_char_val [of c] digit_char_val [of "CHR ''0''"]
  by (auto simp: is_ascii_digit_def digit_val_def)

lemma digit_val_zero [simp]: "digit_val (CHR ''0'') = 0" "digit_val (CHR ''1'') = 1"
  by (simp_all add: digit_val_def)

lemma digit_val_mono: "is_ascii_digit c \<Longrightarrow> is_ascii_digit d \<Longrightarrow> digit_val c < digit_val d \<longleftrightarrow> c < d"
  by (auto simp: digit_val_def is_ascii_digit_def less_char_def)

lemma all_digits_simps [simp]:
  "all_digits []"
  "all_digits (c # s) \<longleftrightarrow> is_ascii_digit c \<and> all_digits s"
  "all_digits (s @ t) \<longleftrightarrow> all_digits s \<and> all_digits t"
  by (simp_all add: all_digits_def)

lemma all_digits_zeroes [simp]: "all_digits (replicate n (CHR ''0''))"
  by (induction n) (simp_all add: is_ascii_digit_def)

lemma all_digits_take [simp]: "all_digits s \<Longrightarrow> all_digits (take n s)"
  by (metis all_digits_simps(3) append_take_drop_id)


section \<open>The value of a digit string\<close>

lemma dec_val_append [simp]: "dec_val (s @ t) = dec_val s * 10 ^ length t + dec_val t"
  by (induction s) (simp_all add: algebra_simps power_add)

lemma dec_val_zeroes [simp]: "dec_val (replicate n (CHR ''0'')) = 0"
  by (induction n) simp_all

lemma dec_val_less: "all_digits s \<Longrightarrow> dec_val s < 10 ^ length s"
proof (induction s)
  case (Cons c s)
  then have "digit_val c \<le> 9" and "dec_val s < 10 ^ length s"
    using digit_val_less [of c] by auto
  moreover from this have "digit_val c * 10 ^ length s \<le> 9 * 10 ^ length s"
    by (intro mult_right_mono) simp_all
  ultimately have "digit_val c * 10 ^ length s + dec_val s < 9 * 10 ^ length s + 10 ^ length s"
    by linarith
  then show ?case by simp
qed simp

lemma dec_val_take: "all_digits s \<Longrightarrow> dec_val (take n s) = dec_val s div 10 ^ (length s - n)"
proof -
  assume "all_digits s"
  then have "all_digits (drop n s)" by (metis all_digits_simps(3) append_take_drop_id)
  from dec_val_less [OF this] have "dec_val (drop n s) < 10 ^ (length s - n)" by simp
  moreover have "dec_val s = dec_val (take n s) * 10 ^ (length s - n) + dec_val (drop n s)"
    using dec_val_append [of "take n s" "drop n s"] by simp
  ultimately show ?thesis by simp
qed

lemma canonical_ge: "canonical s \<Longrightarrow> 10 ^ (length s - 1) \<le> dec_val s"
proof (cases s)
  case (Cons c t)
  assume "canonical s"
  with Cons have "0 < digit_val c" using digit_val_eq_0 [of c] by (auto simp: canonical_def)
  then have "1 * 10 ^ length t \<le> digit_val c * 10 ^ length t" by (intro mult_right_mono) auto
  then have "10 ^ length t \<le> digit_val c * 10 ^ length t + dec_val t" by linarith
  with Cons show ?thesis by simp
qed (simp add: canonical_def)

lemma canonical_pos: "canonical s \<Longrightarrow> 0 < dec_val s"
  using canonical_ge [of s] by (meson less_le_trans zero_less_numeral zero_less_power)

lemma canonical_length_less:
  assumes "all_digits s" and "canonical t" and "length s < length t"
  shows "dec_val s < dec_val t"
proof -
  have "dec_val s < 10 ^ length s" using assms(1) by (rule dec_val_less)
  also have "(10::nat) ^ length s \<le> 10 ^ (length t - 1)" using assms(3) by simp
  also have "\<dots> \<le> dec_val t" using assms(2) by (rule canonical_ge)
  finally show ?thesis .
qed

text \<open>On digit strings of one length the byte-wise order is the numeric one.\<close>

lemma dec_val_less_iff:
  assumes "length s = length t" and "all_digits s" and "all_digits t"
  shows "s < t \<longleftrightarrow> dec_val s < dec_val t"
  using assms
proof (induction s t rule: list_induct2)
  case (Cons c s d t)
  then have bounds: "dec_val s < 10 ^ length t" "dec_val t < 10 ^ length t"
    using dec_val_less [of s] dec_val_less [of t] by auto
  have c: "is_ascii_digit c" and d: "is_ascii_digit d" using Cons.prems by simp_all
  have step: "a * 10 ^ length t + u < b * 10 ^ length t + v"
    if "a < b" "u < 10 ^ length t" for a b u v :: nat
  proof -
    from that have "a * 10 ^ length t + u < Suc a * 10 ^ length t" by simp
    also have "\<dots> \<le> b * 10 ^ length t" using that(1) by (intro mult_right_mono) auto
    finally show ?thesis by simp
  qed
  consider "c < d" | "c = d" | "d < c" by (rule linorder_cases)
  then show ?case
  proof cases
    case 1
    then have "digit_val c < digit_val d" using c d by (simp add: digit_val_mono)
    with 1 Cons.hyps bounds show ?thesis by (auto intro: step)
  next
    case 2
    with Cons show ?thesis by auto
  next
    case 3
    then have "digit_val d < digit_val c" using c d by (simp add: digit_val_mono)
    then have "dec_val (d # t) < dec_val (c # s)" using Cons.hyps bounds by (auto intro: step)
    with 3 show ?thesis by auto
  qed
qed simp

lemma dec_val_inject:
  assumes "length s = length t" and "all_digits s" and "all_digits t" and "dec_val s = dec_val t"
  shows "s = t"
  using assms dec_val_less_iff [of s t] dec_val_less_iff [of t s] by (metis less_irrefl linorder_neqE)


section \<open>Round trips\<close>

lemma to_dec_digits: "all_digits (to_dec n)"
proof (induction n rule: to_dec.induct)
  case (1 n)
  then show ?case by (subst to_dec.simps) simp
qed

lemma dec_val_to_dec [simp]: "dec_val (to_dec n) = n"
proof (induction n rule: to_dec.induct)
  case (1 n)
  then show ?case by (subst to_dec.simps) simp
qed

lemma to_dec_nonempty [simp]: "to_dec n \<noteq> []"
  by (subst to_dec.simps) simp

lemma canonical_snoc: "canonical s \<Longrightarrow> is_ascii_digit c \<Longrightarrow> canonical (s @ [c])"
  by (cases s) (auto simp: canonical_def)

lemma canonical_to_dec: "0 < n \<Longrightarrow> canonical (to_dec n)"
proof (induction n rule: to_dec.induct)
  case (1 n)
  show ?case
  proof (cases "n < 10")
    case True
    with "1.prems" have "digit_val (digit_char n) \<noteq> 0" by simp
    with True have "digit_char n \<noteq> CHR ''0''" using digit_val_zero(1) by metis
    with True show ?thesis by (subst to_dec.simps) (simp add: canonical_def)
  next
    case False
    then have "canonical (to_dec (n div 10))" by (intro "1.IH") simp_all
    with False show ?thesis by (subst to_dec.simps) (simp add: canonical_snoc)
  qed
qed

text \<open>Canonical strings are determined by their value.\<close>

lemma to_dec_dec_val: "canonical s \<Longrightarrow> to_dec (dec_val s) = s"
proof -
  assume s: "canonical s"
  then have t: "canonical (to_dec (dec_val s))" by (intro canonical_to_dec canonical_pos)
  have len: "length (to_dec (dec_val s)) = length s"
    using canonical_length_less [of s "to_dec (dec_val s)"]
      canonical_length_less [of "to_dec (dec_val s)" s] s t
    by (metis canonical_def dec_val_to_dec less_irrefl linorder_neqE_nat)
  show ?thesis
    using dec_val_inject [OF len] s t by (simp add: canonical_def)
qed

lemma to_dec_power: "to_dec (10 ^ n) = CHR ''1'' # replicate n (CHR ''0'')"
proof -
  have "canonical (CHR ''1'' # replicate n (CHR ''0''))"
    by (simp add: canonical_def is_ascii_digit_def)
  from to_dec_dec_val [OF this] show ?thesis by simp
qed

lemma parse_digits_eq_Ok:
  "parse_digits acc s = Ok w \<longleftrightarrow>
     all_digits s \<and> unat acc * 10 ^ length s + dec_val s = unat w" for w :: "'a::len word"
proof (induction acc s rule: parse_digits.induct)
  case (1 acc)
  then show ?case by (auto simp: word_unat_eq_iff)
next
  case (2 acc c cs)
  have bound: "10 * unat acc + digit_val c < 2 ^ LENGTH('a)"
    if "unat acc * 10 ^ length (c # cs) + dec_val (c # cs) = unat w"
  proof -
    have "10 * unat acc + digit_val c \<le> (10 * unat acc + digit_val c) * 10 ^ length cs" by simp
    also have "\<dots> \<le> unat w" using that by (simp add: algebra_simps)
    also have "\<dots> < 2 ^ LENGTH('a)" by simp
    finally show ?thesis .
  qed
  show ?case
  proof (cases "is_ascii_digit c \<and> 10 * unat acc + digit_val c < 2 ^ LENGTH('a)")
    case True
    then have "unat (of_nat (10 * unat acc + digit_val c) :: 'a word) = 10 * unat acc + digit_val c"
      by (simp only: unat_of_nat mod_less)
    with 2 True show ?thesis by (simp only: parse_digits.simps) (simp add: algebra_simps)
  next
    case False
    with bound show ?thesis by auto
  qed
qed

lemma parse_unsigned_eq_Ok:
  "parse_unsigned s = Ok w \<longleftrightarrow>
     (let t = (case s of c # cs \<Rightarrow> if c = CHR ''+'' then cs else s | [] \<Rightarrow> []) in
        t \<noteq> [] \<and> all_digits t \<and> dec_val t = unat w)" for w :: "'a::len word"
  by (cases s) (auto simp: parse_unsigned_def parse_digits_eq_Ok Let_def is_ascii_digit_def)

lemma parse_digits_no_panic: "\<not> panics (parse_digits acc s)"
  by (induction acc s rule: parse_digits.induct) auto

lemma parse_unsigned_no_panic [simp]: "\<not> panics (parse_unsigned s)"
  by (auto simp: parse_unsigned_def parse_digits_no_panic split: list.split)

lemma hd_to_dec: "hd (to_dec n) \<noteq> CHR ''+''"
  using to_dec_digits [of n] to_dec_nonempty [of n]
  by (cases "to_dec n") (auto simp: is_ascii_digit_def)

lemma parse_to_dec: "parse_unsigned (to_dec (unat w)) = Ok w"
  using to_dec_digits [of "unat w"] hd_to_dec [of "unat w"] dec_val_to_dec [of "unat w"]
  by (auto simp: parse_unsigned_eq_Ok Let_def simp del: dec_val_to_dec split: list.split)

end
