(* ===== verification/Env.thy ===== *)
theory Env
  imports Digits
begin

text \<open>
  \<open>chain-ops/src/env.rs\<close>: reading typed values from environment variables.  The process
  environment is a parameter: what \<open>std::env::var\<close> answers for a name.
\<close>

type_synonym environment = "string \<Rightarrow> string res"

definition read_string :: "environment \<Rightarrow> string \<Rightarrow> string res" where
  "read_string env variable =
     with_context (''Failed to read environment variable \"'' @ variable @ ''\"!'') (env variable)"

text \<open>
  The instances that \<open>impl_for_parseable\<close> generates: all of them parse the text read,
  and differ in the parser (plain or non-zero) and the type's name in the message.
\<close>

definition read_parsed :: "(string \<Rightarrow> 'a res) \<Rightarrow> string \<Rightarrow> environment \<Rightarrow> string \<Rightarrow> 'a res" where
  "read_parsed parse type_name env variable =
     and_then (read_string env variable)
       (\<lambda>value. with_context (''Failed to parse \"'' @ type_name @ ''\"!'') (parse value))"

definition read_u32 :: "environment \<Rightarrow> string \<Rightarrow> u32 res" where
  "read_u32 = read_parsed parse_unsigned ''u32''"

definition read_u64 :: "environment \<Rightarrow> string \<Rightarrow> u64 res" where
  "read_u64 = read_parsed parse_unsigned ''u64''"

definition read_nonzero_u32 :: "environment \<Rightarrow> string \<Rightarrow> u32 res" where
  "read_nonzero_u32 = read_parsed parse_nonzero ''NonZeroU32''"

lemma read_string_eq_Ok [simp]: "read_string env v = Ok x \<longleftrightarrow> env v = Ok x"
  by (simp add: read_string_def)

lemma read_parsed_eq_Ok [simp]:
  "read_parsed parse t env v = Ok x \<longleftrightarrow> (\<exists>text. env v = Ok text \<and> parse text = Ok x)"
  by (simp add: read_parsed_def)

lemma parse_nonzero_eq_Ok: "parse_nonzero s = Ok n \<longleftrightarrow> parse_unsigned s = Ok n \<and> n \<noteq> 0"
  by (auto simp: parse_nonzero_def split: if_splits)

text \<open>
  A number printed in decimal is read back from the environment unchanged, at every
  width.
\<close>

lemma read_printed_number:
  assumes "env v = Ok (to_dec (unat n))"
  shows "read_parsed parse_unsigned t env v = Ok (n :: 'a::len word)"
  using assms parse_to_dec [of n] by simp

end
