(* ===== verification/Signer.thy ===== *)
theory Signer
  imports Env
begin

text \<open>
  \<open>chain-ops/src/signer.rs\<close>: the account that signs transactions, its sequence number, and
  the gas and fee arithmetic.  The document and signature construction of \<open>cosmrs\<close> and
  the node queries are parameters.
\<close>

section \<open>Gas and fees\<close>

record gas_and_fee_configuration =
  gas_adjustment_numerator :: u32
  gas_adjustment_denominator :: u32
  gas_price_numerator :: u32
  gas_price_denominator :: u32
  fee_adjustment_numerator :: u32
  fee_adjustment_denominator :: u32

text \<open>The denominators are \<open>NonZeroU32\<close>.\<close>

definition gas_conf_wf :: "gas_and_fee_configuration \<Rightarrow> bool" where
  "gas_conf_wf conf \<longleftrightarrow>
     gas_adjustment_denominator conf \<noteq> 0 \<and> gas_price_denominator conf \<noteq> 0 \<and>
     fee_adjustment_denominator conf \<noteq> 0"

definition calculate_gas :: "gas_and_fee_configuration \<Rightarrow> gas \<Rightarrow> gas res" where
  "calculate_gas conf gas_limit =
     and_then (mul_or_panic (ucast gas_limit :: u128) (ucast (gas_adjustment_numerator conf)))
       (\<lambda>product.
     and_then (div_or_panic product (ucast (gas_adjustment_denominator conf))) (\<lambda>quotient.
     with_context ''Failed to convert back to gas due to an integer overflow!''
       (int_conversion (try_into quotient))))"

definition calculate_fee :: "gas_and_fee_configuration \<Rightarrow> gas \<Rightarrow> u128 res" where
  "calculate_fee conf gas_limit =
     and_then (mul_or_panic (ucast gas_limit :: u128) (ucast (gas_price_numerator conf))) (\<lambda>x.
     and_then (mul_or_panic x (ucast (fee_adjustment_numerator conf))) (\<lambda>dividend.
     and_then (mul_or_panic (ucast (gas_price_denominator conf) :: u128)
                 (ucast (fee_adjustment_denominator conf))) (\<lambda>divisor.
     div_or_panic dividend divisor)))"

definition read_gas_and_fee_configuration_from_var ::
  "environment \<Rightarrow> string \<Rightarrow> gas_and_fee_configuration res" where
  "read_gas_and_fee_configuration_from_var env variable =
     (let variable = (if variable \<noteq> [] then variable @ ''__'' else variable) in
      and_then (with_context ''Failed to read gas adjustment numerator!''
        (read_u32 env (variable @ ''GAS_ADJUSTMENT_NUMERATOR''))) (\<lambda>gan.
      and_then (with_context ''Failed to read gas adjustment denominator!''
        (read_nonzero_u32 env (variable @ ''GAS_ADJUSTMENT_DENOMINATOR''))) (\<lambda>gad.
      and_then (with_context ''Failed to read gas price numerator!''
        (read_u32 env (variable @ ''GAS_PRICE_NUMERATOR''))) (\<lambda>gpn.
      and_then (with_context ''Failed to read gas price denominator!''
        (read_nonzero_u32 env (variable @ ''GAS_PRICE_DENOMINATOR''))) (\<lambda>gpd.
      and_then (with_context ''Failed to read fee adjustment numerator!''
        (read_u32 env (variable @ ''FEE_ADJUSTMENT_NUMERATOR''))) (\<lambda>fan.
      and_then (with_context ''Failed to read fee adjustment denominator!''
        (read_nonzero_u32 env (variable @ ''FEE_ADJUSTMENT_DENOMINATOR''))) (\<lambda>fad.
      Ok \<lparr>gas_adjustment_numerator = gan, gas_adjustment_denominator = gad,
          gas_price_numerator = gpn, gas_price_denominator = gpd,
          fee_adjustment_numerator = fan, fee_adjustment_denominator = fad\<rparr>)))))))"


section \<open>Signing\<close>

datatype coin = Coin (coin_amount: u128) (coin_denom: string)

record fee =
  fee_amount :: coin
  fee_gas_limit :: gas

record 'key auth_info =
  signer_public_key :: 'key
  signer_sequence :: u64
  signer_fee :: fee

record base_account =
  account_number :: u64
  account_sequence :: u64

text \<open>What \<open>cosmrs\<close> contributes: coins, sign documents, signatures, addresses.\<close>

record ('key, 'body, 'doc, 'raw) cosmrs =
  coin_new :: "u128 \<Rightarrow> string \<Rightarrow> coin res"
  sign_doc_new :: "'body \<Rightarrow> 'key auth_info \<Rightarrow> string \<Rightarrow> u64 \<Rightarrow> 'doc res"
  doc_sign :: "'doc \<Rightarrow> 'key \<Rightarrow> 'raw res"
  public_key_of :: "'key \<Rightarrow> 'key"
  key_account_id :: "'key \<Rightarrow> string \<Rightarrow> string res"

record 'key signer =
  sequence_number :: u64
  signing_key :: 'key
  public_key :: 'key
  account_id :: string
  signer_account_number :: u64
  fee_token :: string
  gas_and_fee_conf :: gas_and_fee_configuration
  chain_id :: string

definition signer_tx ::
  "('key, 'body, 'doc, 'raw) cosmrs \<Rightarrow> 'key signer \<Rightarrow> 'body \<Rightarrow> gas \<Rightarrow> 'raw res" where
  "signer_tx cr sg body gas_limit =
     and_then (calculate_fee (gas_and_fee_conf sg) gas_limit) (\<lambda>fee_coins.
     and_then (with_context ''Failed to construct `cosmrs`'s `Coin` structure!''
       (coin_new cr fee_coins (fee_token sg))) (\<lambda>coin.
     and_then (with_context ''Failed to construct `cosmrs`'s `SignDoc` structure!''
       (sign_doc_new cr body
         \<lparr>signer_public_key = public_key sg, signer_sequence = sequence_number sg,
          signer_fee = \<lparr>fee_amount = coin, fee_gas_limit = gas_limit\<rparr>\<rparr>
         (chain_id sg) (signer_account_number sg))) (\<lambda>doc.
     with_context ''Failed to sign transaction document!'' (doc_sign cr doc (signing_key sg)))))"

definition tx_with_gas_adjustment ::
  "('key, 'body, 'doc, 'raw) cosmrs \<Rightarrow> 'key signer \<Rightarrow> 'body \<Rightarrow> gas \<Rightarrow> gas \<Rightarrow> 'raw res" where
  "tx_with_gas_adjustment cr sg body required_gas hard_gas_limit =
     and_then (with_context ''Failed to calculate adjusted gas limit!''
       (map_res (\<lambda>gas. if gas \<le> hard_gas_limit then gas else hard_gas_limit)
         (calculate_gas (gas_and_fee_conf sg) required_gas))) (\<lambda>gas_limit.
     with_context ''Failed to construct the transaction object!'' (signer_tx cr sg body gas_limit))"

text \<open>The node is asked for the account; only the sequence number is taken over.\<close>

definition fetch_sequence_number ::
  "(string \<Rightarrow> ('s, base_account) eff) \<Rightarrow> 'key signer \<Rightarrow> 's \<Rightarrow> unit res \<times> 'key signer \<times> 's" where
  "fetch_sequence_number query_account sg s =
     (case query_account (account_id sg) s of
        (Inr account, s') \<Rightarrow> (Ok (), sg\<lparr>sequence_number := account_sequence account\<rparr>, s')
      | (Inl e, s') \<Rightarrow> (with_context ''Failed to fetch sequence number!'' (Inl e), sg, s'))"

definition increment_sequence_number :: "'key signer \<Rightarrow> 'key signer res" where
  "increment_sequence_number sg =
     map_res (\<lambda>n. sg\<lparr>sequence_number := n\<rparr>) (add_or_panic (sequence_number sg) 1)"

definition signer_new ::
  "('key, 'body, 'doc, 'raw) cosmrs \<Rightarrow> ('s, string) eff \<Rightarrow> ('s, string) eff \<Rightarrow>
     (string \<Rightarrow> ('s, base_account) eff) \<Rightarrow> 'key \<Rightarrow> string \<Rightarrow> gas_and_fee_configuration \<Rightarrow>
     ('s, 'key signer) eff" where
  "signer_new cr query_chain_id query_prefix query_account key token conf =
     bind_eff (context_eff ''Failed to fetch network's chain ID!'' query_chain_id) (\<lambda>chain.
     bind_eff (context_eff ''Failed to fetch account prefix!'' query_prefix) (\<lambda>prefix.
     bind_eff (lift_eff (with_context ''Failed to derive account ID!''
       (key_account_id cr (public_key_of cr key) prefix))) (\<lambda>account.
     bind_eff (context_eff ''Failed to query account information!'' (query_account account)) (\<lambda>info.
     ret_eff
       \<lparr>sequence_number = account_sequence info, signing_key = key,
        public_key = public_key_of cr key, account_id = account,
        signer_account_number = account_number info, fee_token = token,
        gas_and_fee_conf = conf, chain_id = chain\<rparr>))))"


section \<open>The arithmetic stays in range\<close>

lemma mult_less_pow:
  "a < 2 ^ m \<Longrightarrow> b < 2 ^ n \<Longrightarrow> a * b < (2::nat) ^ (m + n)"
  by (simp add: power_add mult_strict_mono)

lemma gas_times_u32:
  "unat (g :: u64) * unat (a :: u32) < 2 ^ 96"
  using mult_less_pow [of "unat g" 64 "unat a" 32] by simp

lemma gas_times_u32_u32:
  "unat (g :: u64) * unat (a :: u32) * unat (b :: u32) < 2 ^ 128"
  using mult_less_pow [OF gas_times_u32, of "unat b" 32 g a] by simp

lemma mul_or_panic_fits:
  "unat a * unat b < 2 ^ LENGTH('a) \<Longrightarrow>
     mul_or_panic a b = Ok (a * b) \<and> unat (a * b) = unat a * unat (b :: 'a::len word)"
  by (simp add: mul_or_panic_def checked_mul_def unat_mul_if_fits)

lemma div_or_panic_nonzero: "b \<noteq> 0 \<Longrightarrow> div_or_panic a b = Ok (a div b)"
  by (simp add: div_or_panic_def checked_div_def)

lemma calculate_gas_eq:
  assumes "gas_conf_wf conf"
  shows "calculate_gas conf g =
    (let n = unat g * unat (gas_adjustment_numerator conf) div unat (gas_adjustment_denominator conf)
     in if n < 2 ^ 64 then Ok (of_nat n)
        else Err [''Failed to convert back to gas due to an integer overflow!'',
                  ''out of range integral type conversion attempted''])"
proof -
  define p where "p = (ucast g :: u128) * ucast (gas_adjustment_numerator conf)"
  define q where "q = p div ucast (gas_adjustment_denominator conf)"
  have p: "mul_or_panic (ucast g :: u128) (ucast (gas_adjustment_numerator conf)) = Ok p"
    "unat p = unat g * unat (gas_adjustment_numerator conf)"
    using mul_or_panic_fits [of "ucast g :: u128" "ucast (gas_adjustment_numerator conf)"]
      gas_times_u32 [of g "gas_adjustment_numerator conf"] by (simp_all add: p_def)
  have "unat (ucast (gas_adjustment_denominator conf) :: u128) \<noteq> 0"
    using assms by (simp add: gas_conf_wf_def unat_eq_zero)
  then have "(ucast (gas_adjustment_denominator conf) :: u128) \<noteq> 0" by (simp only: unat_eq_zero) simp
  then have q: "div_or_panic p (ucast (gas_adjustment_denominator conf)) = Ok q"
    by (simp add: q_def div_or_panic_nonzero)
  have n: "unat q = unat g * unat (gas_adjustment_numerator conf) div unat (gas_adjustment_denominator conf)"
    by (simp add: q_def unat_div p(2))
  have "ucast q = (of_nat (unat q) :: u64)" by simp
  then show ?thesis
    by (simp add: calculate_gas_def p(1) q try_into_def Let_def flip: n)
qed

lemma calculate_fee_eq:
  assumes "gas_conf_wf conf"
  shows "\<exists>f. calculate_fee conf g = Ok f \<and>
    unat f = unat g * unat (gas_price_numerator conf) * unat (fee_adjustment_numerator conf)
      div (unat (gas_price_denominator conf) * unat (fee_adjustment_denominator conf))"
proof -
  let ?a = "ucast g * ucast (gas_price_numerator conf) :: u128"
  let ?b = "?a * ucast (fee_adjustment_numerator conf)"
  let ?d = "ucast (gas_price_denominator conf) * ucast (fee_adjustment_denominator conf) :: u128"
  have a: "mul_or_panic (ucast g :: u128) (ucast (gas_price_numerator conf)) = Ok ?a \<and>
      unat ?a = unat g * unat (gas_price_numerator conf)"
    using mul_or_panic_fits [of "ucast g :: u128" "ucast (gas_price_numerator conf)"]
      gas_times_u32 [of g "gas_price_numerator conf"] by simp
  have b: "mul_or_panic ?a (ucast (fee_adjustment_numerator conf)) = Ok ?b \<and>
      unat ?b = unat g * unat (gas_price_numerator conf) * unat (fee_adjustment_numerator conf)"
    using mul_or_panic_fits [of ?a "ucast (fee_adjustment_numerator conf)"] a
      gas_times_u32_u32 [of g "gas_price_numerator conf" "fee_adjustment_numerator conf"] by simp
  have d: "mul_or_panic (ucast (gas_price_denominator conf) :: u128)
        (ucast (fee_adjustment_denominator conf)) = Ok ?d \<and>
      unat ?d = unat (gas_price_denominator conf) * unat (fee_adjustment_denominator conf)"
    using mul_or_panic_fits [of "ucast (gas_price_denominator conf) :: u128"
        "ucast (fee_adjustment_denominator conf)"]
      mult_less_pow [of "unat (gas_price_denominator conf)" 32 "unat (fee_adjustment_denominator conf)" 32]
    by simp
  have "unat ?d \<noteq> 0" using assms d by (simp add: gas_conf_wf_def unat_eq_zero)
  then have "?d \<noteq> 0" by (metis unat_0)
  with a b d show ?thesis
    by (auto simp: calculate_fee_def div_or_panic_nonzero unat_div simp del: mult_eq_0_iff)
qed

lemma read_configuration_wf:
  "read_gas_and_fee_configuration_from_var env v = Ok conf \<Longrightarrow> gas_conf_wf conf"
  by (auto simp: read_gas_and_fee_configuration_from_var_def Let_def read_nonzero_u32_def
      parse_nonzero_eq_Ok gas_conf_wf_def)

text \<open>
  C27: with any configuration the environment can provide, the fee of any gas limit is
  computed without overflow and without a division by zero, and is the rounded-down
  product of gas limit, gas price and fee adjustment.
\<close>

theorem configured_fee_exact:
  assumes "read_gas_and_fee_configuration_from_var env v = Ok conf"
  shows "\<exists>f. calculate_fee conf g = Ok f \<and>
    unat f = unat g * unat (gas_price_numerator conf) * unat (fee_adjustment_numerator conf)
      div (unat (gas_price_denominator conf) * unat (fee_adjustment_denominator conf))"
  using read_configuration_wf [OF assms] by (rule calculate_fee_eq)

definition example_environment :: environment where
  "example_environment v =
     (if v = ''GAS_FEE_CONF__GAS_ADJUSTMENT_NUMERATOR'' then Ok ''12''
      else if v = ''GAS_FEE_CONF__GAS_ADJUSTMENT_DENOMINATOR'' then Ok ''10''
      else if v = ''GAS_FEE_CONF__GAS_PRICE_NUMERATOR'' then Ok ''25''
      else if v = ''GAS_FEE_CONF__GAS_PRICE_DENOMINATOR'' then Ok ''10000''
      else if v = ''GAS_FEE_CONF__FEE_ADJUSTMENT_NUMERATOR'' then Ok ''1''
      else if v = ''GAS_FEE_CONF__FEE_ADJUSTMENT_DENOMINATOR'' then Ok ''1''
      else Err [''environment variable not found''])"

definition example_conf :: gas_and_fee_configuration where
  "example_conf =
     \<lparr>gas_adjustment_numerator = 12, gas_adjustment_denominator = 10,
      gas_price_numerator = 25, gas_price_denominator = 10000,
      fee_adjustment_numerator = 1, fee_adjustment_denominator = 1\<rparr>"

lemma example_conf_read:
  "read_gas_and_fee_configuration_from_var example_environment ''GAS_FEE_CONF'' = Ok example_conf"
  by (simp add: read_gas_and_fee_configuration_from_var_def read_u32_def read_nonzero_u32_def
      read_parsed_def read_string_def example_environment_def parse_unsigned_def parse_nonzero_def
      is_ascii_digit_def digit_val_def example_conf_def)

theorem configured_fee_exact_witness:
  "\<exists>f. calculate_fee example_conf 500000 = Ok f \<and> unat f = 1250"
  using configured_fee_exact [OF example_conf_read, of 500000] by (simp add: example_conf_def)

lemma tx_with_gas_adjustment_eq:
  assumes "calculate_gas (gas_and_fee_conf sg) required = Ok adjusted"
  shows "tx_with_gas_adjustment cr sg body required hard =
    with_context ''Failed to construct the transaction object!''
      (signer_tx cr sg body (min adjusted hard))"
  using assms by (simp add: tx_with_gas_adjustment_def min_def)

text \<open>
  A transaction whose gas was estimated is signed with the estimate times the
  configured adjustment, rounded down and clamped to the hard gas limit: the limit is
  never exceeded, and it is never lowered below the smaller of the two.
\<close>

theorem adjusted_gas_clamped:
  assumes "gas_conf_wf (gas_and_fee_conf sg)"
    and "tx_with_gas_adjustment cr sg body required hard = Ok raw"
  shows "\<exists>limit. signer_tx cr sg body limit = Ok raw \<and>
    unat limit = min (unat required * unat (gas_adjustment_numerator (gas_and_fee_conf sg))
                        div unat (gas_adjustment_denominator (gas_and_fee_conf sg)))
                     (unat hard)"
proof -
  from assms(2) obtain adjusted where adj: "calculate_gas (gas_and_fee_conf sg) required = Ok adjusted"
    by (auto simp: tx_with_gas_adjustment_def)
  then have "unat adjusted = unat required * unat (gas_adjustment_numerator (gas_and_fee_conf sg))
      div unat (gas_adjustment_denominator (gas_and_fee_conf sg))"
    by (auto simp: calculate_gas_eq [OF assms(1)] Let_def unat_of_nat split: if_splits)
  moreover have "signer_tx cr sg body (min adjusted hard) = Ok raw"
    using assms(2) by (simp add: tx_with_gas_adjustment_eq [OF adj])
  ultimately show ?thesis
    by (intro exI [of _ "min adjusted hard"]) (auto simp: min_def word_le_nat_alt)
qed

text \<open>A stand-in for \<open>cosmrs\<close> whose "signature" shows the gas limit and the sequence.\<close>

definition example_cosmrs :: "(unit, unit, gas \<times> u64, gas \<times> u64) cosmrs" where
  "example_cosmrs =
     \<lparr>coin_new = \<lambda>a d. Ok (Coin a d),
      sign_doc_new = \<lambda>_ info _ _. Ok (fee_gas_limit (signer_fee info), signer_sequence info),
      doc_sign = \<lambda>doc _. Ok doc, public_key_of = \<lambda>k. k, key_account_id = \<lambda>_ p. Ok p\<rparr>"

definition example_signer :: "unit signer" where
  "example_signer =
     \<lparr>sequence_number = 3, signing_key = (), public_key = (), account_id = ''nolus1'',
      signer_account_number = 7, fee_token = ''unls'', gas_and_fee_conf = example_conf,
      chain_id = ''nolus''\<rparr>"

lemmas signer_eval = example_signer_def example_cosmrs_def example_conf_def signer_tx_def
  calculate_fee_def calculate_gas_def int_ops

theorem adjusted_gas_clamped_witness:
  "\<exists>limit. signer_tx example_cosmrs example_signer () limit = Ok (120, 3) \<and> unat limit = 120"
proof -
  have "gas_conf_wf (gas_and_fee_conf example_signer)"
    by (simp add: example_signer_def example_conf_def gas_conf_wf_def)
  moreover have "tx_with_gas_adjustment example_cosmrs example_signer () 100 500 = Ok (120, 3)"
    by (simp add: tx_with_gas_adjustment_def signer_eval)
  ultimately show ?thesis
    using adjusted_gas_clamped [of example_signer example_cosmrs "()" 100 500 "(120, 3)"]
    by (simp add: example_signer_def example_conf_def)
qed

end
