(* ===== verification/Broadcast.thy ===== *)
theory Broadcast
  imports Task Signer
begin

text \<open>
  \<open>chain-ops/src/task/broadcast.rs\<close>: the only task that signs and sends transactions.  It
  keeps the signer (with the account's sequence number) and a count of consecutive
  errors.  The calls to the node, the clock and the sleeps are parameters over a state
  \<open>'s\<close>.
\<close>

section \<open>State and environment\<close>

record 'key broadcast =
  signer :: "'key signer"
  delay_duration :: nat
  retry_delay_duration :: nat
  consecutive_errors :: u8

record ('raw, 's) broadcast_env =
  simulate :: "'raw \<Rightarrow> ('s, gas) eff"
  sync :: "'raw \<Rightarrow> ('s, tx_response) eff"
  query_account :: "string \<Rightarrow> ('s, base_account) eff"
  sleep :: "nat \<Rightarrow> 's \<Rightarrow> 's"
  now :: "'s \<Rightarrow> nat"

definition broadcast_new :: "'key signer \<Rightarrow> nat \<Rightarrow> nat \<Rightarrow> 'key broadcast" where
  "broadcast_new sg delay retry_delay =
     \<lparr>signer = sg, delay_duration = delay, retry_delay_duration = retry_delay,
      consecutive_errors = 0\<rparr>"

definition SIGNATURE_VERIFICATION_ERROR_CODE :: u32 where
  "SIGNATURE_VERIFICATION_ERROR_CODE = 32"


section \<open>Operations\<close>

definition simulate_and_sign_tx ::
  "('key, 'body, 'doc, 'raw) cosmrs \<Rightarrow> ('raw, 's) broadcast_env \<Rightarrow> 'key broadcast \<Rightarrow>
     'body \<Rightarrow> gas \<Rightarrow> gas \<Rightarrow> ('s, 'raw) eff" where
  "simulate_and_sign_tx cr env b tx hard fallback s =
     (case with_context ''Failed to sign simulation transaction!'' (signer_tx cr (signer b) tx hard) of
        Inl e \<Rightarrow> (Inl e, s)
      | Inr raw \<Rightarrow>
          (case simulate env raw s of
             (Inr gas, s') \<Rightarrow>
               (with_context ''Failed to sign transaction intended for broadcasting!''
                  (tx_with_gas_adjustment cr (signer b) tx gas hard), s')
           | (Inl (Error ms), s') \<Rightarrow>
               (with_context ''Failed to sign transaction intended for broadcasting!''
                  (signer_tx cr (signer b) tx fallback), s')
           | (Inl (Panic p), s') \<Rightarrow> (Inl (Panic p), s')))"

definition broadcast_with_expiration ::
  "('raw, 's) broadcast_env \<Rightarrow> expiration \<Rightarrow> 'raw \<Rightarrow> 's \<Rightarrow> tx_response res option \<times> 's" where
  "broadcast_with_expiration env expiration raw_tx s =
     with_expiration (now env) expiration (sync env raw_tx) s"

text \<open>
  The block labelled \<open>'process\<close> after a response has come: the sequence number moves on
  for an accepted transaction and for one whose signature did not verify, every fifth
  consecutive error fetches it anew.  The result says whether the package is done.
\<close>

definition process_response ::
  "('raw, 's) broadcast_env \<Rightarrow> tx_response \<Rightarrow> 'key broadcast \<Rightarrow> 's \<Rightarrow> bool res \<times> 'key broadcast \<times> 's"
where
  "process_response env response b s =
     (let tx_code = tx_code_from (code response) in
      case (if tx_code_is_ok tx_code \<or> tx_code_value tx_code = SIGNATURE_VERIFICATION_ERROR_CODE
            then increment_sequence_number (signer b) else Ok (signer b)) of
        Inl e \<Rightarrow> (Inl e, b, s)
      | Inr sg \<Rightarrow>
          (let b = b\<lparr>signer := sg\<rparr>;
               finished = (tx_code_value tx_code \<noteq> SIGNATURE_VERIFICATION_ERROR_CODE) in
           if tx_code_is_ok tx_code
           then (Ok finished, b\<lparr>consecutive_errors := 0\<rparr>, s)
           else (case add_or_panic (consecutive_errors b) 1 of
               Inl e \<Rightarrow> (Inl e, b, s)
             | Inr n \<Rightarrow>
                 (let b = b\<lparr>consecutive_errors := n mod 5\<rparr> in
                  if consecutive_errors b = 0
                  then (case fetch_sequence_number (query_account env) (signer b) s of
                      (Inl e, sg', s') \<Rightarrow>
                        (with_context ''Failed to fetch sequence number!'' (Inl e), b\<lparr>signer := sg'\<rparr>, s')
                    | (Inr _, sg', s') \<Rightarrow> (Ok finished, b\<lparr>signer := sg'\<rparr>, s'))
                  else (Ok finished, b, s)))))"

text \<open>
  \<open>broadcast_tx\<close>: the second component is the response fed back to the sender of the
  package, if any.
\<close>

partial_function (option) broadcast_tx ::
  "('key, 'body, 'doc, 'raw) cosmrs \<Rightarrow> ('raw, 's) broadcast_env \<Rightarrow> 'body tx_package \<Rightarrow>
     'key broadcast \<Rightarrow> 's \<Rightarrow> (unit res \<times> tx_response option \<times> 'key broadcast \<times> 's) option" where
  "broadcast_tx cr env pkg b s =
     (case simulate_and_sign_tx cr env b (tx_body pkg) (hard_gas_limit pkg) (fallback_gas pkg) s of
        (Inl e, s1) \<Rightarrow>
          Some (with_context ''Failed to simulate and sign transaction!'' (Inl e), None, b, s1)
      | (Inr raw_tx, s1) \<Rightarrow>
          (case broadcast_with_expiration env (package_expiration pkg) raw_tx s1 of
             (None, s2) \<Rightarrow> Some (Ok (), None, b, s2)
           | (Some (Inl (Panic p)), s2) \<Rightarrow> Some (panic p, None, b, s2)
           | (Some (Inl (Error ms)), s2) \<Rightarrow>
               broadcast_tx cr env pkg b (sleep env (retry_delay_duration b) s2)
           | (Some (Inr response), s2) \<Rightarrow>
               (case process_response env response b s2 of
                  (Inl e, b', s3) \<Rightarrow> Some (Inl e, None, b', s3)
                | (Inr finished, b', s3) \<Rightarrow>
                    if finished then Some (Ok (), Some response, b', s3)
                    else broadcast_tx cr env pkg b' (sleep env (retry_delay_duration b') s3))))"

text \<open>
  The task's loop over the packages it receives until the channel is closed: the
  responses fed back, one entry per package that was taken from the channel.
\<close>

fun broadcast_run ::
  "('key, 'body, 'doc, 'raw) cosmrs \<Rightarrow> ('raw, 's) broadcast_env \<Rightarrow> 'body tx_package list \<Rightarrow>
     'key broadcast \<Rightarrow> 's \<Rightarrow> (unit res \<times> tx_response option list \<times> 'key broadcast \<times> 's) option" where
  "broadcast_run cr env [] b s =
     Some (Err [''Transaction receiving channel closed!''], [], b, s)"
| "broadcast_run cr env (pkg # pkgs) b s =
     (case broadcast_tx cr env pkg b s of
        None \<Rightarrow> None
      | Some (Inl e, fb, b', s') \<Rightarrow>
          Some (with_context ''Failed to broadcast transaction!'' (Inl e), [fb], b', s')
      | Some (Inr _, fb, b', s') \<Rightarrow>
          map_option (\<lambda>(r, fbs, b'', s''). (r, fb # fbs, b'', s''))
            (broadcast_run cr env pkgs b' (sleep env (delay_duration b') s')))"


section \<open>Handling one response\<close>

definition broadcast_wf :: "'key broadcast \<Rightarrow> bool" where
  "broadcast_wf b \<longleftrightarrow> consecutive_errors b < 5"

lemma broadcast_wf_new: "broadcast_wf (broadcast_new sg d r)"
  by (simp add: broadcast_wf_def broadcast_new_def)

lemma u8_less_5: "(n :: u8) < 5 \<Longrightarrow> unat n < 5"
  by (simp add: word_less_nat_alt)

lemma mod_5_less: "(n :: u8) mod 5 < 5"
  by (rule word_mod_less_divisor) simp

lemma next_error_count:
  assumes "(n :: u8) < 5"
  shows "add_or_panic n 1 = Ok (n + 1)" and "(n + 1) mod 5 = (if n = 4 then 0 else n + 1)"
proof -
  have "unat n < 5" using assms by (rule u8_less_5)
  then show "add_or_panic n 1 = Ok (n + 1)" by (simp add: int_ops)
  from \<open>unat n < 5\<close> have "n = 0 \<or> n = 1 \<or> n = 2 \<or> n = 3 \<or> n = 4"
    by (simp add: word_unat_eq_iff) linarith
  then show "(n + 1) mod 5 = (if n = 4 then 0 else n + 1)" by auto
qed

lemma increment_sequence_number_eq:
  "unat (sequence_number sg) + 1 < 2 ^ 64 \<Longrightarrow>
     increment_sequence_number sg = Ok (sg\<lparr>sequence_number := sequence_number sg + 1\<rparr>)"
  by (simp add: increment_sequence_number_def int_ops)

lemma process_response_wf:
  assumes "process_response env response b s = (r, b', s')" and "broadcast_wf b"
  shows "broadcast_wf b'"
proof -
  have "consecutive_errors b < 5" using assms(2) by (simp add: broadcast_wf_def)
  with assms(1) show ?thesis
    by (auto simp: process_response_def broadcast_wf_def Let_def next_error_count(1) mod_5_less
        split: if_splits sum.splits prod.splits)
qed

lemma process_response_done:
  "process_response env response b s = (Ok d, b', s') \<Longrightarrow> d \<longleftrightarrow> code response \<noteq> 32"
  by (auto simp: process_response_def Let_def SIGNATURE_VERIFICATION_ERROR_CODE_def
      tx_code_from_def split: if_splits sum.splits prod.splits)


section \<open>Broadcasting one package\<close>

lemma broadcast_tx_outcome:
  assumes "broadcast_tx cr env pkg b s = Some (r, fb, b', s')" and "broadcast_wf b"
  shows "broadcast_wf b' \<and> (\<forall>response. fb = Some response \<longrightarrow> r = Ok () \<and> code response \<noteq> 32)"
proof -
  let ?P = "\<lambda>cr env pkg b s out. broadcast_wf b \<longrightarrow> (case out of (r, fb, b', s') \<Rightarrow>
    broadcast_wf b' \<and> (\<forall>response. fb = Some response \<longrightarrow> r = Ok () \<and> code response \<noteq> 32))"
  have "?P cr env pkg b s (r, fb, b', s')"
  proof (rule broadcast_tx.raw_induct [of ?P, OF _ assms(1)], goal_cases)
    case (1 f cr env pkg b s out)
    then show ?case
      by (auto split: prod.splits sum.splits failure.splits option.splits if_splits
          dest: process_response_wf process_response_done)
  qed
  with assms(2) show ?thesis by simp
qed

text \<open>
  The broadcaster counts consecutive errors below five whatever happens to a
  package; a response is fed back only together with success, and never one that
  reports a failed signature verification, which is retried instead.
\<close>

theorem broadcast_tx_feedback:
  assumes "broadcast_tx cr env pkg b s = Some (r, fb, b', s')" and "consecutive_errors b < 5"
  shows "consecutive_errors b' < 5 \<and>
    (\<forall>response. fb = Some response \<longrightarrow> r = Ok () \<and> code response \<noteq> SIGNATURE_VERIFICATION_ERROR_CODE)"
  using broadcast_tx_outcome [OF assms(1)] assms(2)
  by (auto simp: broadcast_wf_def SIGNATURE_VERIFICATION_ERROR_CODE_def)


section \<open>The gas limit that is signed\<close>

lemma signed_gas_within_limit:
  assumes "simulate_and_sign_tx cr env b tx hard fallback s = (Ok raw, s')" and "fallback \<le> hard"
  shows "\<exists>limit. signer_tx cr (signer b) tx limit = Ok raw \<and> limit \<le> hard"
proof -
  from assms(1) obtain raw0 where sim: "signer_tx cr (signer b) tx hard = Ok raw0"
    by (auto simp: simulate_and_sign_tx_def split: sum.splits)
  obtain r s1 where r: "simulate env raw0 s = (r, s1)" by fastforce
  show ?thesis
  proof (cases r rule: panics.cases)
    case (2 ms)
    with assms sim r show ?thesis by (auto simp: simulate_and_sign_tx_def)
  next
    case (3 gas)
    with assms(1) sim r have "tx_with_gas_adjustment cr (signer b) tx gas hard = Ok raw"
      by (simp add: simulate_and_sign_tx_def)
    then obtain adjusted where "calculate_gas (gas_and_fee_conf (signer b)) gas = Ok adjusted"
      "signer_tx cr (signer b) tx (if adjusted \<le> hard then adjusted else hard) = Ok raw"
      by (auto simp: tx_with_gas_adjustment_def)
    then show ?thesis by (intro exI [of _ "if adjusted \<le> hard then adjusted else hard"]) simp
  qed (use assms(1) sim r in \<open>simp add: simulate_and_sign_tx_def\<close>)
qed


section \<open>A package reaches a node that checks sequence numbers\<close>

text \<open>
  The documented behaviour of a node that the broadcaster relies on: signing works, a
  transaction is answered with code 32 exactly when it was not signed with the
  account's current sequence number, rejected transactions leave that number alone, and
  the account query reports it.  \<open>attempts\<close> counts the transactions sent.
\<close>

definition sequence_checking_node ::
  "('key, 'body, 'doc, 'raw) cosmrs \<Rightarrow> ('raw, 's) broadcast_env \<Rightarrow> ('raw \<Rightarrow> u64) \<Rightarrow> ('s \<Rightarrow> u64) \<Rightarrow>
     ('s \<Rightarrow> nat) \<Rightarrow> 'key signer \<Rightarrow> 'body tx_package \<Rightarrow> bool" where
  "sequence_checking_node cr env raw_sequence chain_sequence attempts sg pkg \<longleftrightarrow>
     (\<forall>n gas. \<exists>raw. signer_tx cr (sg\<lparr>sequence_number := n\<rparr>) (tx_body pkg) gas = Ok raw \<and>
        raw_sequence raw = n) \<and>
     (\<forall>raw s r s'. simulate env raw s = (r, s') \<longrightarrow>
        chain_sequence s' = chain_sequence s \<and> attempts s' = attempts s \<and> \<not> panics r \<and>
        (\<forall>gas. r = Ok gas \<longrightarrow> is_ok (calculate_gas (gas_and_fee_conf sg) gas))) \<and>
     (\<forall>raw s. \<exists>response s'. sync env raw s = (Ok response, s') \<and> attempts s' = Suc (attempts s) \<and>
        (code response = 32 \<longleftrightarrow> raw_sequence raw \<noteq> chain_sequence s) \<and>
        (code response = 32 \<longrightarrow> chain_sequence s' = chain_sequence s)) \<and>
     (\<forall>s. \<exists>account s'. query_account env (account_id sg) s = (Ok account, s') \<and>
        account_sequence account = chain_sequence s \<and> chain_sequence s' = chain_sequence s \<and>
        attempts s' = attempts s) \<and>
     (\<forall>d s. chain_sequence (sleep env d s) = chain_sequence s \<and> attempts (sleep env d s) = attempts s)"

lemma simulate_and_sign_returns:
  assumes node: "sequence_checking_node cr env raw_sequence chain_sequence attempts sg pkg"
    and sg: "signer b = sg\<lparr>sequence_number := n\<rparr>"
  shows "\<exists>raw s'. simulate_and_sign_tx cr env b (tx_body pkg) hard fallback s = (Ok raw, s') \<and>
    raw_sequence raw = n \<and> chain_sequence s' = chain_sequence s \<and> attempts s' = attempts s"
proof -
  have sign: "\<exists>raw. signer_tx cr (signer b) (tx_body pkg) gas = Ok raw \<and> raw_sequence raw = n" for gas
    using node sg by (simp add: sequence_checking_node_def)
  then obtain raw0 where raw0: "signer_tx cr (signer b) (tx_body pkg) hard = Ok raw0" by blast
  obtain r s' where sim: "simulate env raw0 s = (r, s')" by (cases "simulate env raw0 s")
  then have keep: "chain_sequence s' = chain_sequence s" "attempts s' = attempts s" "\<not> panics r"
    and gas: "\<And>gas. r = Ok gas \<Longrightarrow> is_ok (calculate_gas (gas_and_fee_conf sg) gas)"
    using node unfolding sequence_checking_node_def by blast+
  show ?thesis
  proof (cases r rule: panics.cases)
    case (2 ms)
    from sign [of fallback] obtain raw where "signer_tx cr (signer b) (tx_body pkg) fallback = Ok raw"
      "raw_sequence raw = n" by blast
    with 2 raw0 sim keep show ?thesis by (simp add: simulate_and_sign_tx_def)
  next
    case (3 gas)
    then obtain adjusted where adj: "calculate_gas (gas_and_fee_conf (signer b)) gas = Ok adjusted"
      using gas sg by (auto simp: is_ok_iff)
    from sign [of "min adjusted hard"] obtain raw
      where "signer_tx cr (signer b) (tx_body pkg) (min adjusted hard) = Ok raw"
        "raw_sequence raw = n" by blast
    with 3 raw0 sim keep show ?thesis
      by (simp add: simulate_and_sign_tx_def tx_with_gas_adjustment_eq [OF adj])
  qed (use keep in simp)
qed

lemma broadcast_attempt:
  assumes node: "sequence_checking_node cr env raw_sequence chain_sequence attempts sg pkg"
    and sg: "signer b = sg\<lparr>sequence_number := n\<rparr>" and exp: "package_expiration pkg = NoExpiration"
  obtains response s2 where
    "broadcast_tx cr env pkg b s =
       (case process_response env response b s2 of
          (Inl e, b', s3) \<Rightarrow> Some (Inl e, None, b', s3)
        | (Inr finished, b', s3) \<Rightarrow>
            if finished then Some (Ok (), Some response, b', s3)
            else broadcast_tx cr env pkg b' (sleep env (retry_delay_duration b') s3))"
    and "code response = 32 \<longleftrightarrow> n \<noteq> chain_sequence s"
    and "code response = 32 \<Longrightarrow> chain_sequence s2 = chain_sequence s"
    and "attempts s2 = Suc (attempts s)"
proof -
  obtain raw s1 where sign: "simulate_and_sign_tx cr env b (tx_body pkg) (hard_gas_limit pkg)
      (fallback_gas pkg) s = (Ok raw, s1)" "raw_sequence raw = n" "chain_sequence s1 = chain_sequence s"
      "attempts s1 = attempts s"
    using simulate_and_sign_returns [OF node sg] by blast
  obtain response s2 where sync: "sync env raw s1 = (Ok response, s2)" "attempts s2 = Suc (attempts s1)"
      "code response = 32 \<longleftrightarrow> raw_sequence raw \<noteq> chain_sequence s1"
      "code response = 32 \<Longrightarrow> chain_sequence s2 = chain_sequence s1"
    using node unfolding sequence_checking_node_def by blast
  show thesis
  proof (rule that)
    show "broadcast_tx cr env pkg b s =
       (case process_response env response b s2 of
          (Inl e, b', s3) \<Rightarrow> Some (Inl e, None, b', s3)
        | (Inr finished, b', s3) \<Rightarrow>
            if finished then Some (Ok (), Some response, b', s3)
            else broadcast_tx cr env pkg b' (sleep env (retry_delay_duration b') s3))"
      using sign(1) sync(1) exp by (subst broadcast_tx.simps) (simp add: broadcast_with_expiration_def)
  qed (use sign sync in simp_all)
qed

lemma query_account_returns:
  assumes "sequence_checking_node cr env raw_sequence chain_sequence attempts sg pkg"
    and "account_id sg' = account_id sg"
  obtains s' where
    "fetch_sequence_number (query_account env) sg' s =
       (Ok (), sg'\<lparr>sequence_number := chain_sequence s\<rparr>, s')"
    and "chain_sequence s' = chain_sequence s" and "attempts s' = attempts s"
proof -
  obtain account s' where "query_account env (account_id sg) s = (Ok account, s')"
      "account_sequence account = chain_sequence s" "chain_sequence s' = chain_sequence s"
      "attempts s' = attempts s"
    using assms(1) unfolding sequence_checking_node_def by blast
  with assms(2) show thesis by (intro that [of s']) (simp_all add: fetch_sequence_number_def)
qed

lemma process_response_accepts:
  assumes node: "sequence_checking_node cr env raw_sequence chain_sequence attempts sg pkg"
    and sg: "signer b = sg\<lparr>sequence_number := n\<rparr>" and "unat n + 1 < 2 ^ 64"
    and "consecutive_errors b < 5" and "code response \<noteq> 32"
  shows "\<exists>b' s'. process_response env response b s = (Ok True, b', s') \<and> attempts s' = attempts s"
proof -
  have inc: "increment_sequence_number (signer b) = Ok (sg\<lparr>sequence_number := n + 1\<rparr>)"
    using assms(3) sg by (simp add: increment_sequence_number_eq)
  obtain s' where fetch: "fetch_sequence_number (query_account env) (signer b) s =
       (Ok (), (signer b)\<lparr>sequence_number := chain_sequence s\<rparr>, s')" "attempts s' = attempts s"
    by (rule query_account_returns [OF node, of "signer b" s]) (use sg in simp_all)
  show ?thesis
    using assms(4,5) inc fetch next_error_count(1) [OF assms(4)]
    by (auto simp: process_response_def Let_def tx_code_from_def SIGNATURE_VERIFICATION_ERROR_CODE_def)
qed

lemma process_response_mismatch:
  assumes node: "sequence_checking_node cr env raw_sequence chain_sequence attempts sg pkg"
    and sg: "signer b = sg\<lparr>sequence_number := n\<rparr>" and "unat n + 1 < 2 ^ 64"
    and "consecutive_errors b < 5" and "code response = 32"
  shows "\<exists>b' s' m. process_response env response b s = (Ok False, b', s') \<and> attempts s' = attempts s \<and>
    chain_sequence s' = chain_sequence s \<and> signer b' = sg\<lparr>sequence_number := m\<rparr> \<and>
    consecutive_errors b' = (if consecutive_errors b = 4 then 0 else consecutive_errors b + 1) \<and>
    m = (if consecutive_errors b = 4 then chain_sequence s else n + 1)"
proof -
  have inc: "increment_sequence_number (signer b) = Ok (sg\<lparr>sequence_number := n + 1\<rparr>)"
    using assms(3) sg by (simp add: increment_sequence_number_eq)
  obtain s' where fetch: "fetch_sequence_number (query_account env) (sg\<lparr>sequence_number := n + 1\<rparr>) s =
       (Ok (), sg\<lparr>sequence_number := chain_sequence s\<rparr>, s')" "attempts s' = attempts s"
       "chain_sequence s' = chain_sequence s"
    by (rule query_account_returns [OF node, of "sg\<lparr>sequence_number := n + 1\<rparr>" s]) simp_all
  have "consecutive_errors b + 1 \<noteq> 0" if "consecutive_errors b \<noteq> 4"
    using u8_less_5 [OF assms(4)] by (simp add: word_unat_eq_iff unat_word_ariths)
  then show ?thesis
    using assms(4,5) inc fetch next_error_count [OF assms(4)]
    by (auto simp: process_response_def Let_def tx_code_from_def SIGNATURE_VERIFICATION_ERROR_CODE_def)
qed

lemma broadcast_tx_reaches_matching:
  assumes node: "sequence_checking_node cr env raw_sequence chain_sequence attempts sg pkg"
    and sg: "signer b = sg\<lparr>sequence_number := chain_sequence s\<rparr>"
    and exp: "package_expiration pkg = NoExpiration"
    and "consecutive_errors b < 5" and "unat (chain_sequence s) + 1 < 2 ^ 64"
  shows "\<exists>response b' s'. broadcast_tx cr env pkg b s = Some (Ok (), Some response, b', s') \<and>
    code response \<noteq> 32 \<and> attempts s' = Suc (attempts s)"
proof (rule broadcast_attempt [OF node sg exp, of s], goal_cases)
  case (1 response s2)
  then have "code response \<noteq> 32" by simp
  from process_response_accepts [OF node sg assms(5,4) this, of s2]
  obtain b' s' where "process_response env response b s2 = (Ok True, b', s')" "attempts s' = attempts s2"
    by blast
  with 1 \<open>code response \<noteq> 32\<close> show ?case by simp
qed

lemma broadcast_tx_reaches_node:
  assumes node: "sequence_checking_node cr env raw_sequence chain_sequence attempts sg pkg"
    and exp: "package_expiration pkg = NoExpiration"
  shows "signer b = sg\<lparr>sequence_number := n\<rparr> \<Longrightarrow> consecutive_errors b < 5 \<Longrightarrow>
    unat n + (5 - unat (consecutive_errors b)) < 2 ^ 64 \<Longrightarrow> unat (chain_sequence s) + 1 < 2 ^ 64 \<Longrightarrow>
    \<exists>response b' s'. broadcast_tx cr env pkg b s = Some (Ok (), Some response, b', s') \<and>
      code response \<noteq> 32 \<and> attempts s' \<le> attempts s + (6 - unat (consecutive_errors b))"
proof (induction "5 - unat (consecutive_errors b)" arbitrary: b n s)
  case 0
  then show ?case using u8_less_5 [of "consecutive_errors b"] by simp
next
  case (Suc k)
  note less5 = u8_less_5 [OF Suc.prems(2)]
  show ?case
  proof (cases "n = chain_sequence s")
    case True
    then show ?thesis
      using broadcast_tx_reaches_matching [OF node _ exp, of b s] Suc.prems less5 by fastforce
  next
    case mismatch: False
    show ?thesis
    proof (rule broadcast_attempt [OF node Suc.prems(1) exp, of s], goal_cases)
      case (1 response s2)
      with mismatch have code: "code response = 32" by simp
      have "unat n + 1 < 2 ^ 64" using Suc.prems(3) less5 by linarith
      from process_response_mismatch [OF node Suc.prems(1) this Suc.prems(2) code, of s2]
      obtain b1 s3 m where pr: "process_response env response b s2 = (Ok False, b1, s3)"
          "attempts s3 = attempts s2" "chain_sequence s3 = chain_sequence s2"
          "signer b1 = sg\<lparr>sequence_number := m\<rparr>"
          "consecutive_errors b1 = (if consecutive_errors b = 4 then 0 else consecutive_errors b + 1)"
          "m = (if consecutive_errors b = 4 then chain_sequence s2 else n + 1)" by blast
      define s4 where "s4 = sleep env (retry_delay_duration b1) s3"
      have s4: "chain_sequence s4 = chain_sequence s" "attempts s4 = Suc (attempts s)"
        using node pr(2,3) 1(3)[OF code] 1(4) by (simp_all add: s4_def sequence_checking_node_def)
      have step: "broadcast_tx cr env pkg b s = broadcast_tx cr env pkg b1 s4"
        using 1(1) pr(1) by (simp add: s4_def)
      show ?case
      proof (cases "consecutive_errors b = 4")
        case True
        with pr s4 1(3)[OF code] have "signer b1 = sg\<lparr>sequence_number := chain_sequence s4\<rparr>"
          "consecutive_errors b1 = 0" by simp_all
        with broadcast_tx_reaches_matching [OF node _ exp, of b1 s4] Suc.prems(4) s4 True step
        show ?thesis by fastforce
      next
        case False
        then have "unat (consecutive_errors b) < 4" using less5 by (simp add: word_unat_eq_iff)
        then have errors: "unat (consecutive_errors b1) = Suc (unat (consecutive_errors b))"
            "consecutive_errors b1 < 5"
          using pr(5) False by (simp_all add: word_less_nat_alt unat_word_ariths)
        have "unat (n + 1) = unat n + 1" using \<open>unat n + 1 < 2 ^ 64\<close> by (simp add: unat_word_ariths)
        then have "unat m + (5 - unat (consecutive_errors b1)) < 2 ^ 64"
          using Suc.prems(3) less5 errors pr(6) False by simp
        moreover have "k = 5 - unat (consecutive_errors b1)" using Suc.hyps(2) errors(1) by linarith
        ultimately
        obtain r b' s' where "broadcast_tx cr env pkg b1 s4 = Some (Ok (), Some r, b', s')"
            "code r \<noteq> 32" "attempts s' \<le> attempts s4 + (6 - unat (consecutive_errors b1))"
          using Suc.hyps(1) [of b1 m s4] errors(2) pr(4) s4(1) Suc.prems(4) by auto
        with step s4(2) errors less5 show ?thesis by auto
      qed
    qed
  qed
qed

text \<open>
  C4: on a node that checks sequence numbers, a package without expiration is delivered
  after at most six attempts, however far the broadcaster's sequence number is from the
  account's: the loop ends, with success, and the response fed back is not a signature
  failure.
\<close>

theorem broadcast_tx_delivers:
  assumes "sequence_checking_node cr env raw_sequence chain_sequence attempts (signer b) pkg"
    and "package_expiration pkg = NoExpiration" and "consecutive_errors b < 5"
    and "unat (sequence_number (signer b)) + 5 < 2 ^ 64" and "unat (chain_sequence s) + 1 < 2 ^ 64"
  shows "\<exists>response b' s'. broadcast_tx cr env pkg b s = Some (Ok (), Some response, b', s') \<and>
    code response \<noteq> SIGNATURE_VERIFICATION_ERROR_CODE \<and> attempts s' \<le> attempts s + 6"
proof -
  have "unat (sequence_number (signer b)) + (5 - unat (consecutive_errors b)) < 2 ^ 64"
    using assms(4) by linarith
  then obtain response b' s' where
      "broadcast_tx cr env pkg b s = Some (Ok (), Some response, b', s')"
      "code response \<noteq> 32" "attempts s' \<le> attempts s + (6 - unat (consecutive_errors b))"
    using broadcast_tx_reaches_node [OF assms(1,2), of b "sequence_number (signer b)" s] assms(3,5)
    by auto
  then show ?thesis by (auto simp: SIGNATURE_VERIFICATION_ERROR_CODE_def)
qed

text \<open>A node with an account at sequence 9; the second component counts transactions.\<close>

definition example_node :: "(gas \<times> u64, u64 \<times> nat) broadcast_env" where
  "example_node =
     \<lparr>simulate = \<lambda>raw s. (Ok 100, s),
      sync = \<lambda>raw (q, k).
        if snd raw = q then (Ok (example_response\<lparr>code := 0\<rparr>), (q + 1, Suc k))
        else (Ok (example_response\<lparr>code := 32\<rparr>), (q, Suc k)),
      query_account = \<lambda>_ (q, k). (Ok \<lparr>account_number = 7, account_sequence = q\<rparr>, (q, k)),
      sleep = \<lambda>_ s. s, now = \<lambda>_. 0\<rparr>"

definition example_package :: "unit tx_package" where
  "example_package =
     \<lparr>tx_body = (), source = ''example'', hard_gas_limit = 500, fallback_gas = 300,
      package_expiration = NoExpiration\<rparr>"

lemma example_signs:
  "\<exists>raw. signer_tx example_cosmrs (example_signer\<lparr>sequence_number := n\<rparr>) () gas = Ok raw \<and> snd raw = n"
proof -
  have "gas_conf_wf example_conf" by (simp add: example_conf_def gas_conf_wf_def)
  then obtain f where "calculate_fee example_conf gas = Ok f" using calculate_fee_eq by blast
  then show ?thesis by (simp add: signer_tx_def example_signer_def example_cosmrs_def)
qed

lemma example_node_checks:
  "sequence_checking_node example_cosmrs example_node snd fst snd example_signer example_package"
  using example_signs
  by (auto simp: sequence_checking_node_def example_node_def example_package_def
      example_signer_def example_conf_def calculate_gas_def int_ops)

theorem broadcast_tx_delivers_witness:
  "\<exists>response b' s'. broadcast_tx example_cosmrs example_node example_package
      (broadcast_new example_signer 0 0) (9, 0) = Some (Ok (), Some response, b', s') \<and>
    code response \<noteq> SIGNATURE_VERIFICATION_ERROR_CODE \<and> snd s' \<le> 6"
  using broadcast_tx_delivers [of example_cosmrs example_node snd fst snd
      "broadcast_new example_signer 0 0" example_package "(9, 0)"] example_node_checks
  by (simp add: broadcast_new_def example_package_def example_signer_def)

lemma example_broadcast:
  "broadcast_tx example_cosmrs example_node example_package (broadcast_new example_signer 0 0) (3, 0) =
     Some (Ok (), Some example_response,
       broadcast_new (example_signer\<lparr>sequence_number := 4\<rparr>) 0 0, (4, 1))"
  by (subst broadcast_tx.simps)
    (simp add: simulate_and_sign_tx_def tx_with_gas_adjustment_def signer_eval example_node_def
      example_package_def broadcast_new_def broadcast_with_expiration_def process_response_def
      tx_code_from_def increment_sequence_number_def SIGNATURE_VERIFICATION_ERROR_CODE_def
      example_response_def)

theorem broadcast_tx_feedback_witness:
  "consecutive_errors (broadcast_new (example_signer\<lparr>sequence_number := 4\<rparr>) 0 0) < 5 \<and>
    code example_response \<noteq> SIGNATURE_VERIFICATION_ERROR_CODE"
  using broadcast_tx_feedback [OF example_broadcast] by (simp add: broadcast_new_def)

end
