(* ===== verification/Balance_Reporter.thy ===== *)
theory Balance_Reporter
  imports Digits
begin

text \<open>
  \<open>chain-ops/src/task/balance_reporter.rs\<close>: the periodic report of the signer's balance, with
  the amount's digits grouped by three.  The bank query, the log and the sleep are
  parameters.
\<close>

section \<open>Formatting\<close>

text \<open>\<open>String::insert\<close> of an ASCII character into an ASCII string.\<close>

definition string_insert :: "nat \<Rightarrow> char \<Rightarrow> string \<Rightarrow> string res" where
  "string_insert index c s =
     (if index \<le> length s then Ok (take index s @ c # drop index s)
      else panic ''assertion failed: self.is_char_boundary(idx)'')"

fun insert_spaces :: "nat list \<Rightarrow> string \<Rightarrow> string res" where
  "insert_spaces [] amount = Ok amount"
| "insert_spaces (index # indices) amount =
     and_then (string_insert index CHR '' '' amount) (insert_spaces indices)"

definition format_amount :: "string \<Rightarrow> string res" where
  "format_amount amount =
     (if length amount > 3
      then (let offset = length amount mod 3 in
        insert_spaces
          (filter (\<lambda>index. index \<noteq> 0)
            (map (\<lambda>index. index + offset)
              (map (\<lambda>triplet. triplet * 3) (rev [0..<length amount div 3]))))
          amount)
      else Ok amount)"


section \<open>The task\<close>

record balance_reporter =
  reporter_address :: string
  reporter_fee_token :: string
  reporter_idle_duration :: nat

text \<open>One round: the line that reports the amount is logged between the others.\<close>

definition report_round ::
  "(string \<Rightarrow> string \<Rightarrow> ('s, u128) eff) \<Rightarrow> (string list \<Rightarrow> 's \<Rightarrow> 's) \<Rightarrow> balance_reporter \<Rightarrow> ('s, unit) eff"
where
  "report_round balance log_lines br s =
     (case balance (reporter_address br) (reporter_fee_token br) s of
        (Inl e, s') \<Rightarrow> (Inl e, s')
      | (Inr n, s') \<Rightarrow>
          (case format_amount (to_dec (unat n)) of
             Inl e \<Rightarrow> (Inl e, s')
           | Inr amount \<Rightarrow>
               (Ok (), log_lines
                  ['''', ''Account address: '' @ reporter_address br,
                   ''Amount available: '' @ amount @ '' '' @ reporter_fee_token br, ''''] s')))"

partial_function (option) balance_reporter_run ::
  "(string \<Rightarrow> string \<Rightarrow> ('s, u128) eff) \<Rightarrow> (string list \<Rightarrow> 's \<Rightarrow> 's) \<Rightarrow> (nat \<Rightarrow> 's \<Rightarrow> 's) \<Rightarrow>
     balance_reporter \<Rightarrow> 's \<Rightarrow> (failure \<times> 's) option" where
  "balance_reporter_run balance log_lines sleep_for br s =
     (case report_round balance log_lines br s of
        (Inl e, s') \<Rightarrow> Some (e, s')
      | (Inr _, s') \<Rightarrow>
          balance_reporter_run balance log_lines sleep_for br (sleep_for (reporter_idle_duration br) s'))"


section \<open>Grouping by three\<close>

text \<open>The reference: groups of three from the right, separated by spaces.\<close>

function group_by_three :: "string \<Rightarrow> string" where
  "group_by_three s =
     (if length s \<le> 3 then s
      else group_by_three (take (length s - 3) s) @ CHR '' '' # drop (length s - 3) s)"
  by auto
termination by (relation "measure length") auto

declare group_by_three.simps [simp del]

lemma insert_spaces_append:
  assumes "\<forall>i \<in> set is. i \<le> length p" and "sorted_wrt (\<ge>) is"
  shows "insert_spaces is (p @ q) = map_res (\<lambda>r. r @ q) (insert_spaces is p)"
  using assms
proof (induction "is" arbitrary: p q)
  case (Cons i "is")
  define p1 where "p1 = take i p"
  define p2 where "p2 = CHR '' '' # drop i p"
  have "insert_spaces is (p1 @ p2 @ q) = map_res (\<lambda>r. r @ p2 @ q) (insert_spaces is p1)"
    and "insert_spaces is (p1 @ p2) = map_res (\<lambda>r. r @ p2) (insert_spaces is p1)"
    using Cons.IH [of p1] Cons.prems by (auto simp: p1_def)
  then have "insert_spaces is ((p1 @ p2) @ q) = map_res (\<lambda>r. r @ q) (insert_spaces is (p1 @ p2))"
    by (cases "insert_spaces is p1") simp_all
  with Cons.prems show ?case by (simp add: string_insert_def p1_def p2_def)
qed simp

lemma insert_spaces_groups:
  "length s = 3 * k + r \<Longrightarrow> r < 3 \<Longrightarrow>
     insert_spaces (filter (\<lambda>i. i \<noteq> 0) (map (\<lambda>i. i + r) (map (\<lambda>t. t * 3) (rev [0..<k])))) s =
       Ok (group_by_three s)"
proof (induction k arbitrary: s)
  case (Suc k)
  let ?is = "filter (\<lambda>i. i \<noteq> 0) (map (\<lambda>i. i + r) (map (\<lambda>t. t * 3) (rev [0..<k])))"
  define p where "p = take (3 * k + r) s"
  define q where "q = CHR '' '' # drop (3 * k + r) s"
  have IH: "insert_spaces ?is p = Ok (group_by_three p)" using Suc by (simp add: p_def)
  have "sorted_wrt (\<ge>) ?is"
    by (simp add: sorted_wrt_filter sorted_wrt_map sorted_wrt_rev)
  moreover have "\<forall>i \<in> set ?is. i \<le> length p" using Suc.prems by (auto simp: p_def)
  ultimately have "insert_spaces ?is (p @ q) = map_res (\<lambda>r. r @ q) (insert_spaces ?is p)"
    by (intro insert_spaces_append)
  then have "insert_spaces ?is (p @ q) = Ok (group_by_three p @ q)" unfolding IH by simp
  moreover have "group_by_three s = group_by_three p @ q" if "3 * k + r \<noteq> 0"
    using that Suc.prems by (subst group_by_three.simps) (simp add: p_def q_def)
  moreover have "k = 0 \<and> group_by_three s = s" if "3 * k + r = 0"
    using that Suc.prems by (simp add: group_by_three.simps)
  ultimately show ?case
    using Suc.prems by (cases "3 * k + r = 0") (auto simp: string_insert_def p_def q_def mult.commute)
qed (simp add: group_by_three.simps)

lemma format_amount_groups: "format_amount s = Ok (group_by_three s)"
proof (cases "length s > 3")
  case True
  then show ?thesis
    using insert_spaces_groups [of s "length s div 3" "length s mod 3"]
    by (simp add: format_amount_def Let_def)
qed (simp add: format_amount_def group_by_three.simps)

lemma group_by_three_digits:
  "filter (\<lambda>c. c \<noteq> CHR '' '') (group_by_three s) = filter (\<lambda>c. c \<noteq> CHR '' '') s"
proof (induction s rule: group_by_three.induct)
  case (1 s)
  show ?case
  proof (cases "length s \<le> 3")
    case False
    have "filter P s = filter P (take (length s - 3) s) @ filter P (drop (length s - 3) s)" for P
      by (metis append_take_drop_id filter_append)
    with False 1 show ?thesis by (subst group_by_three.simps) simp
  qed (simp add: group_by_three.simps)
qed

text \<open>
  C37: formatting an amount never inserts out of bounds; it is grouping by three from the
  right, and dropping the spaces gives back the digits of the amount.
\<close>

theorem format_amount_correct:
  "\<exists>out. format_amount (to_dec (unat n)) = Ok out \<and> out = group_by_three (to_dec (unat n)) \<and>
    parse_unsigned (filter (\<lambda>c. c \<noteq> CHR '' '') out) = Ok (n :: u128)"
proof -
  have "\<not> is_ascii_digit (CHR '' '')" by (simp add: is_ascii_digit_def)
  then have "CHR '' '' \<notin> set (to_dec (unat n))"
    using to_dec_digits [of "unat n"] by (auto simp: all_digits_def list_all_iff)
  then have "filter (\<lambda>c. c \<noteq> CHR '' '') (to_dec (unat n)) = to_dec (unat n)"
    by (auto simp: filter_id_conv)
  then show ?thesis by (simp add: format_amount_groups group_by_three_digits parse_to_dec)
qed

end
