(* ===== verification/Contract.thy ===== *)
theory Contract
  imports Prelude
begin

text \<open>
  \<open>chain-ops/src/contract\<close>: the semantic version a contract reports
  (\<open>SemVer\<close>, with the derived lexicographic order), the test whether a client written
  against one version may talk to a contract of another (\<open>check_compatibility\<close>), and
  the answers of the admin contract.
\<close>

section \<open>Versions\<close>

type_synonym version_segment = u16

datatype semver = SemVer (major: version_segment) (minor: version_segment) (patch: version_segment)

datatype compatibility = Compatible | Incompatible

definition check_compatibility :: "semver \<Rightarrow> semver \<Rightarrow> compatibility" where
  "check_compatibility self compatible_version =
     (if major self = major compatible_version \<and>
         (minor self = minor compatible_version \<and> patch self \<ge> patch compatible_version \<or>
          major compatible_version \<noteq> 0 \<and> minor self > minor compatible_version)
      then Compatible else Incompatible)"

text \<open>The derived \<open>Ord\<close>: fields in order of declaration.\<close>

instantiation semver :: linorder
begin

definition less_eq_semver :: "semver \<Rightarrow> semver \<Rightarrow> bool" where
  "less_eq_semver a b \<longleftrightarrow> (major a, minor a, patch a) \<le> (major b, minor b, patch b)"

definition less_semver :: "semver \<Rightarrow> semver \<Rightarrow> bool" where
  "less_semver a b \<longleftrightarrow> (major a, minor a, patch a) < (major b, minor b, patch b)"

instance
  by standard
    (auto simp: less_eq_semver_def less_semver_def intro: semver.expand)

end


section \<open>Answers of the admin contract\<close>

record platform =
  time_alarms :: string

record protocol_contracts =
  oracle_contract :: string

record base_protocol =
  base_contracts :: protocol_contracts

datatype dex = DexAstroport (dex_router: string) | DexOsmosis

record protocol =
  network :: string
  protocol_dex :: dex
  contracts :: protocol_contracts

text \<open>
  The queries of \<open>Admin\<close>; \<open>smart\<close> is the typed contract query, \<open>to_vec\<close> the JSON encoder
  of the message \<open>Protocol(name)\<close>.
\<close>

definition admin_platform ::
  "(string \<Rightarrow> string \<Rightarrow> ('s, platform) eff) \<Rightarrow> string \<Rightarrow> ('s, platform) eff" where
  "admin_platform smart address = smart address ''{\"platform\":{}}''"

definition admin_protocols ::
  "(string \<Rightarrow> string \<Rightarrow> ('s, string list) eff) \<Rightarrow> string \<Rightarrow> ('s, string list) eff" where
  "admin_protocols smart address = smart address ''{\"protocols\":{}}''"

definition admin_protocol_internal ::
  "(string \<Rightarrow> string res) \<Rightarrow> (string \<Rightarrow> string \<Rightarrow> ('s, 't) eff) \<Rightarrow> string \<Rightarrow> string \<Rightarrow> ('s, 't) eff" where
  "admin_protocol_internal to_vec smart address name =
     bind_eff (lift_eff (to_vec name)) (\<lambda>msg. smart address msg)"


section \<open>Compatibility\<close>

lemma compatible_cases:
  "check_compatibility v c = Compatible \<longleftrightarrow>
     major v = major c \<and>
     (if major c = 0 then minor v = minor c \<and> patch v \<ge> patch c
      else (minor v, patch v) \<ge> (minor c, patch c))"
  by (auto simp: check_compatibility_def)

lemma compatible_trans:
  "check_compatibility a b = Compatible \<Longrightarrow> check_compatibility b c = Compatible \<Longrightarrow>
     check_compatibility a c = Compatible"
  by (auto simp: compatible_cases split: if_splits)

text \<open>
  A contract of version \<open>v\<close> is accepted by a client of version \<open>c\<close> exactly when
  \<open>v\<close> is not older than \<open>c\<close> and both lie in the same compatibility range: the same
  major version, and for major version 0 the same minor version.
\<close>

theorem check_compatibility_iff:
  "check_compatibility v c = Compatible \<longleftrightarrow>
     c \<le> v \<and> major v = major c \<and> (minor v = minor c \<or> 0 < major c)"
  by (auto simp: compatible_cases less_eq_semver_def word_gt_0)

end
