(* ===== verification/Configuration.thy ===== *)
theory Configuration
  imports Signer Contract
begin

text \<open>
  \<open>chain-ops/src/supervisor/configuration.rs\<close> and \<open>chain-ops/src/key.rs\<close>: what a service reads from
  its environment at start, in the order it is read.  The environment, the connection to
  the node and the key derivation are parameters.  Durations are in nanoseconds.
\<close>

section \<open>Signing key\<close>

record ('path, 'seed, 'key) key_derivation =
  parse_path :: "string \<Rightarrow> 'path res"
  mnemonic_seed :: "string \<Rightarrow> string \<Rightarrow> 'seed res"
  derive_from_path :: "'seed \<Rightarrow> 'path \<Rightarrow> 'key res"

definition DEFAULT_COSMOS_DERIVATION_PATH :: string where
  "DEFAULT_COSMOS_DERIVATION_PATH = ''m/44'/118'/0'/0/0''"

definition derive_from_mnemonic ::
  "('path, 'seed, 'key) key_derivation \<Rightarrow> string \<Rightarrow> string \<Rightarrow> 'key res" where
  "derive_from_mnemonic kd phrase password =
     and_then (with_context ''Failed to parse key derivation path!''
       (parse_path kd DEFAULT_COSMOS_DERIVATION_PATH)) (\<lambda>derivation_path.
     and_then (with_context ''Failed to parse mnemonic!'' (mnemonic_seed kd phrase password)) (\<lambda>seed.
     with_context ''Failed to derive signing key!'' (derive_from_path kd seed derivation_path)))"


section \<open>Service configuration\<close>

record 'key service_configuration =
  configured_signer :: "'key signer"
  admin_address :: string
  idle_duration :: nat
  timeout_duration :: nat
  balance_reporter_idle_duration :: nat
  broadcast_delay_duration :: nat
  broadcast_retry_delay_duration :: nat

definition from_secs :: "u64 \<Rightarrow> nat" where
  "from_secs n = unat n * 10 ^ 9"

definition from_millis :: "u64 \<Rightarrow> nat" where
  "from_millis n = unat n * 10 ^ 6"

definition read_duration ::
  "(u64 \<Rightarrow> nat) \<Rightarrow> string \<Rightarrow> environment \<Rightarrow> string \<Rightarrow> nat res" where
  "read_duration unit message env variable =
     with_context message (map_res unit (read_u64 env variable))"

definition read_node_grpc_uri :: "environment \<Rightarrow> string res" where
  "read_node_grpc_uri env =
     with_context ''Failed to read node's gRPC URI!'' (read_string env ''NODE_GRPC_URI'')"

definition derive_signing_key ::
  "('path, 'seed, 'key) key_derivation \<Rightarrow> environment \<Rightarrow> 'key res" where
  "derive_signing_key kd env =
     and_then (with_context ''Failed to read signing key's mnemonic!''
       (read_string env ''SIGNING_KEY_MNEMONIC'')) (\<lambda>mnemonic.
     with_context ''Failed to derive signing key from mnemonic!'' (derive_from_mnemonic kd mnemonic []))"

definition read_fee_token_denominator :: "environment \<Rightarrow> string res" where
  "read_fee_token_denominator env =
     with_context ''Failed to read fee token's denominator!'' (read_string env ''FEE_TOKEN_DENOM'')"

definition read_gas_and_fee_configuration :: "environment \<Rightarrow> gas_and_fee_configuration res" where
  "read_gas_and_fee_configuration env =
     with_context ''Failed to read gas and fee configuration!''
       (read_gas_and_fee_configuration_from_var env ''GAS_FEE_CONF'')"

definition read_admin_contract_address :: "environment \<Rightarrow> string res" where
  "read_admin_contract_address env =
     with_context ''Failed to read admin contract's address'' (read_string env ''ADMIN_CONTRACT_ADDRESS'')"

definition read_idle_duration :: "environment \<Rightarrow> nat res" where
  "read_idle_duration env =
     read_duration from_secs ''Failed to read idle period duration!'' env ''IDLE_DURATION_SECONDS''"

definition read_timeout_duration :: "environment \<Rightarrow> nat res" where
  "read_timeout_duration env =
     read_duration from_secs ''Failed to read timeout period duration!'' env ''TIMEOUT_DURATION_SECONDS''"

definition read_balance_reporter_idle_duration :: "environment \<Rightarrow> nat res" where
  "read_balance_reporter_idle_duration env =
     read_duration from_secs ''Failed to read between balance reporter idle delay period duration!''
       env ''BALANCE_REPORTER_IDLE_DURATION_SECONDS''"

definition read_broadcast_delay_duration :: "environment \<Rightarrow> nat res" where
  "read_broadcast_delay_duration env =
     read_duration from_secs ''Failed to read between broadcast delay period duration!''
       env ''BROADCAST_DELAY_DURATION_SECONDS''"

definition read_broadcast_retry_delay_duration :: "environment \<Rightarrow> nat res" where
  "read_broadcast_retry_delay_duration env =
     read_duration from_millis ''Failed to read between broadcast retries delay period duration!''
       env ''BROADCAST_RETRY_DELAY_DURATION_MILLISECONDS''"

text \<open>The node's part: connecting, and the three queries of \<open>Signer::new\<close>.\<close>

record 's node_setup =
  node_connect :: "string \<Rightarrow> ('s, unit) eff"
  node_chain_id :: "('s, string) eff"
  node_prefix :: "('s, string) eff"
  node_account :: "string \<Rightarrow> ('s, base_account) eff"

definition read_from_env ::
  "('key, 'body, 'doc, 'raw) cosmrs \<Rightarrow> ('path, 'seed, 'key) key_derivation \<Rightarrow> 's node_setup \<Rightarrow>
     environment \<Rightarrow> ('s, 'key service_configuration) eff" where
  "read_from_env cr kd node env =
     bind_eff (lift_eff (read_node_grpc_uri env)) (\<lambda>uri.
     bind_eff (context_eff ''Failed to connect to node's gRPC!'' (node_connect node uri)) (\<lambda>_.
     bind_eff (lift_eff (derive_signing_key kd env)) (\<lambda>key.
     bind_eff (lift_eff (read_fee_token_denominator env)) (\<lambda>denom.
     bind_eff (lift_eff (read_gas_and_fee_configuration env)) (\<lambda>conf.
     bind_eff (signer_new cr (node_chain_id node) (node_prefix node) (node_account node) key denom conf) (\<lambda>sg.
     bind_eff (lift_eff (read_admin_contract_address env)) (\<lambda>admin.
     bind_eff (lift_eff (read_idle_duration env)) (\<lambda>idle.
     bind_eff (lift_eff (read_timeout_duration env)) (\<lambda>timeout.
     bind_eff (lift_eff (read_balance_reporter_idle_duration env)) (\<lambda>reporter_idle.
     bind_eff (lift_eff (read_broadcast_delay_duration env)) (\<lambda>delay.
     bind_eff (lift_eff (read_broadcast_retry_delay_duration env)) (\<lambda>retry_delay.
     ret_eff
       \<lparr>configured_signer = sg, admin_address = admin, idle_duration = idle,
        timeout_duration = timeout, balance_reporter_idle_duration = reporter_idle,
        broadcast_delay_duration = delay, broadcast_retry_delay_duration = retry_delay\<rparr>))))))))))))"


section \<open>A configured service can pay\<close>

lemma lift_eff_eq_Ok [simp]: "lift_eff r s = (Ok x, s') \<longleftrightarrow> r = Ok x \<and> s' = s"
  by (auto simp: lift_eff_def)

lemma ret_eff_eq_Ok [simp]: "ret_eff x s = (Ok y, s') \<longleftrightarrow> y = x \<and> s' = s"
  by (auto simp: ret_eff_def)

lemma bind_eff_eq_Ok:
  "bind_eff f g s = (Ok y, s'') \<longleftrightarrow> (\<exists>x s'. f s = (Ok x, s') \<and> g x s' = (Ok y, s''))"
  by (auto simp: bind_eff_def split: prod.splits sum.splits)

lemma read_duration_eq_Ok [simp]:
  "read_duration unit m env v = Ok d \<longleftrightarrow> (\<exists>n. read_u64 env v = Ok n \<and> d = unit n)"
  by (auto simp: read_duration_def)

lemma signer_new_conf:
  "signer_new cr c p q key token conf s = (Ok sg, s') \<Longrightarrow> gas_and_fee_conf sg = conf \<and> fee_token sg = token"
  by (auto simp: signer_new_def bind_eff_eq_Ok)


definition example_settings :: environment where
  "example_settings v =
     (if v = ''NODE_GRPC_URI'' then Ok ''http://node''
      else if v = ''SIGNING_KEY_MNEMONIC'' then Ok ''words''
      else if v = ''FEE_TOKEN_DENOM'' then Ok ''unls''
      else if v = ''ADMIN_CONTRACT_ADDRESS'' then Ok ''nolus1admin''
      else if v = ''IDLE_DURATION_SECONDS'' then Ok ''6''
      else if v = ''TIMEOUT_DURATION_SECONDS'' then Ok ''60''
      else if v = ''BALANCE_REPORTER_IDLE_DURATION_SECONDS'' then Ok ''600''
      else if v = ''BROADCAST_DELAY_DURATION_SECONDS'' then Ok ''2''
      else if v = ''BROADCAST_RETRY_DELAY_DURATION_MILLISECONDS'' then Ok ''500''
      else example_environment v)"

definition example_setup :: "unit node_setup" where
  "example_setup =
     \<lparr>node_connect = \<lambda>_ s. (Ok (), s), node_chain_id = \<lambda>s. (Ok ''nolus'', s),
      node_prefix = \<lambda>s. (Ok ''nolus'', s),
      node_account = \<lambda>_ s. (Ok \<lparr>account_number = 7, account_sequence = 3\<rparr>, s)\<rparr>"

definition example_derivation :: "(unit, unit, unit) key_derivation" where
  "example_derivation =
     \<lparr>parse_path = \<lambda>_. Ok (), mnemonic_seed = \<lambda>_ _. Ok (), derive_from_path = \<lambda>_ _. Ok ()\<rparr>"

lemma example_settings_conf:
  "read_gas_and_fee_configuration example_settings = Ok example_conf"
  using example_conf_read
  by (simp add: read_gas_and_fee_configuration_def read_gas_and_fee_configuration_from_var_def
      read_u32_def read_nonzero_u32_def read_parsed_def read_string_def example_settings_def)

lemma example_settings_durations:
  "read_u64 example_settings ''IDLE_DURATION_SECONDS'' = Ok 6"
  "read_u64 example_settings ''TIMEOUT_DURATION_SECONDS'' = Ok 60"
  "read_u64 example_settings ''BALANCE_REPORTER_IDLE_DURATION_SECONDS'' = Ok 600"
  "read_u64 example_settings ''BROADCAST_DELAY_DURATION_SECONDS'' = Ok 2"
  "read_u64 example_settings ''BROADCAST_RETRY_DELAY_DURATION_MILLISECONDS'' = Ok 500"
  by (simp_all add: read_u64_def read_parsed_def read_string_def example_settings_def
      parse_unsigned_def is_ascii_digit_def digit_val_def)

lemma example_settings_strings:
  "read_string example_settings ''NODE_GRPC_URI'' = Ok ''http://node''"
  "read_string example_settings ''SIGNING_KEY_MNEMONIC'' = Ok ''words''"
  "read_string example_settings ''FEE_TOKEN_DENOM'' = Ok ''unls''"
  "read_string example_settings ''ADMIN_CONTRACT_ADDRESS'' = Ok ''nolus1admin''"
  by (simp_all add: example_settings_def)

definition example_configuration :: "unit service_configuration" where
  "example_configuration =
     \<lparr>configured_signer = example_signer\<lparr>account_id := ''nolus''\<rparr>, admin_address = ''nolus1admin'',
      idle_duration = 6000000000, timeout_duration = 60000000000,
      balance_reporter_idle_duration = 600000000000, broadcast_delay_duration = 2000000000,
      broadcast_retry_delay_duration = 500000000\<rparr>"

lemma example_configured:
  "read_from_env example_cosmrs example_derivation example_setup example_settings () =
     (Ok example_configuration, ())"
  by (simp add: read_from_env_def read_node_grpc_uri_def derive_signing_key_def
      derive_from_mnemonic_def read_fee_token_denominator_def example_settings_conf
      read_admin_contract_address_def read_idle_duration_def read_timeout_duration_def
      read_balance_reporter_idle_duration_def read_broadcast_delay_duration_def
      read_broadcast_retry_delay_duration_def read_duration_def example_settings_durations
      example_settings_strings from_secs_def from_millis_def bind_eff_def lift_eff_def context_eff_def
      ret_eff_def signer_new_def example_setup_def example_derivation_def example_cosmrs_def
      example_configuration_def example_signer_def del: read_string_eq_Ok)


end
