(* ===== verification/TaskSet.thy ===== *)
theory TaskSet
  imports Prelude "HOL-Library.Multiset"
begin

text \<open>
  \<open>chain-ops/src/task_set.rs\<close>: the set of spawned tasks that the supervisor, the services and
  the feeder wait on.  \<open>JoinNext\<close> polls the handles round robin, starting where the last
  finished task was found, and removes the first finished one with \<open>swap_remove\<close>.
  Polling a join handle is a parameter: \<open>None\<close> while the task is running.
\<close>

section \<open>State and operations\<close>

record ('t, 'h) task_set =
  tasks :: "('t \<times> 'h) list"
  next_to_poll :: nat

datatype 'a poll = Ready 'a | Pending

definition task_set_new :: "('t, 'h) task_set" where
  "task_set_new = \<lparr>tasks = [], next_to_poll = 0\<rparr>"

definition task_set_is_empty :: "('t, 'h) task_set \<Rightarrow> bool" where
  "task_set_is_empty ts \<longleftrightarrow> tasks ts = []"

definition add_handle :: "'t \<Rightarrow> 'h \<Rightarrow> ('t, 'h) task_set \<Rightarrow> ('t, 'h) task_set" where
  "add_handle data handle ts = ts\<lparr>tasks := tasks ts @ [(data, handle)]\<rparr>"

definition abort_all :: "('h \<Rightarrow> 's \<Rightarrow> 's) \<Rightarrow> ('t, 'h) task_set \<Rightarrow> 's \<Rightarrow> 's" where
  "abort_all abort ts s = fold (\<lambda>(data, handle). abort handle) (tasks ts) s"

definition task_set_default :: "('t, 'h) task_set" where
  "task_set_default = task_set_new"

text \<open>\<open>Drop\<close>: a set that goes out of scope aborts what it still holds.\<close>

definition task_set_drop :: "('h \<Rightarrow> 's \<Rightarrow> 's) \<Rightarrow> ('t, 'h) task_set \<Rightarrow> 's \<Rightarrow> 's" where
  "task_set_drop abort ts s = abort_all abort ts s"

text \<open>\<open>Vec::swap_remove\<close>: the last element takes the place of the removed one.\<close>

definition swap_remove :: "nat \<Rightarrow> 'a list \<Rightarrow> ('a \<times> 'a list) res" where
  "swap_remove i xs =
     (if i < length xs then Ok (xs ! i, butlast (xs[i := last xs]))
      else panic ''swap_remove index should be < len'')"

text \<open>The search over the indices, with the bounds check of \<open>tasks[index]\<close>.\<close>

fun find_ready ::
  "('h \<Rightarrow> 'u option) \<Rightarrow> nat list \<Rightarrow> ('t, 'h) task_set \<Rightarrow> (('t \<times> 'u) option \<times> ('t, 'h) task_set) res"
where
  "find_ready poll [] ts = Ok (None, ts)"
| "find_ready poll (index # indices) ts =
     (if index < length (tasks ts)
      then (case poll (snd (tasks ts ! index)) of
          Some result \<Rightarrow>
            map_res (\<lambda>(task, rest). (Some (fst task, result), ts\<lparr>tasks := rest, next_to_poll := index\<rparr>))
              (swap_remove index (tasks ts))
        | None \<Rightarrow> find_ready poll indices ts)
      else panic ''index out of bounds'')"

definition join_next ::
  "('h \<Rightarrow> 'u option) \<Rightarrow> ('t, 'h) task_set \<Rightarrow> (('t \<times> 'u) option poll \<times> ('t, 'h) task_set) res" where
  "join_next poll ts =
     (if tasks ts = [] then Ok (Ready None, ts)
      else map_res (\<lambda>(found, ts'). (case found of Some out \<Rightarrow> Ready (Some out) | None \<Rightarrow> Pending, ts'))
             (find_ready poll ([next_to_poll ts..<length (tasks ts)] @ [0..<next_to_poll ts]) ts))"


section \<open>Reachable sets\<close>

text \<open>\<open>poll_at t\<close> is what polling a handle gives at time \<open>t\<close>.\<close>

inductive task_set_reachable :: "(nat \<Rightarrow> 'h \<Rightarrow> 'u option) \<Rightarrow> ('t, 'h) task_set \<Rightarrow> bool"
  for poll_at :: "nat \<Rightarrow> 'h \<Rightarrow> 'u option" where
  new: "task_set_reachable poll_at task_set_new"
| add: "task_set_reachable poll_at ts \<Longrightarrow> task_set_reachable poll_at (add_handle data handle ts)"
| join: "task_set_reachable poll_at ts \<Longrightarrow> join_next (poll_at t) ts = Ok (out, ts') \<Longrightarrow>
    task_set_reachable poll_at ts'"

definition task_set_wf :: "('t, 'h) task_set \<Rightarrow> bool" where
  "task_set_wf ts \<longleftrightarrow> next_to_poll ts \<le> length (tasks ts)"


section \<open>Joining\<close>

lemma mset_swap_remove:
  assumes "swap_remove i xs = Ok (x, ys)"
  shows "mset xs = add_mset x (mset ys)" and "x = xs ! i" and "i \<le> length ys"
proof -
  from assms have i: "i < length xs" and x: "x = xs ! i" and ys: "ys = butlast (xs[i := last xs])"
    by (auto simp: swap_remove_def split: if_splits)
  show "x = xs ! i" by (rule x)
  show "i \<le> length ys" using i ys by simp
  from i have "xs \<noteq> []" by auto
  then obtain zs z where xs: "xs = zs @ [z]" by (cases xs rule: rev_cases) auto
  show "mset xs = add_mset x (mset ys)"
  proof (cases "i < length zs")
    case True
    then have "zs ! i \<in># mset zs" and "ys = zs[i := z]" and "x = zs ! i"
      using xs x ys by (simp_all add: nth_append list_update_append)
    with True xs show ?thesis by (simp add: mset_update add_mset_commute [of z])
  next
    case False
    then have "i = length zs" using i xs by simp
    with xs x ys show ?thesis by simp
  qed
qed

definition find_outcome ::
  "('h \<Rightarrow> 'u option) \<Rightarrow> nat list \<Rightarrow> ('t, 'h) task_set \<Rightarrow> ('t \<times> 'u) option \<Rightarrow> ('t, 'h) task_set \<Rightarrow> bool"
where
  "find_outcome poll indices ts found ts' \<longleftrightarrow>
     (case found of
        None \<Rightarrow> ts' = ts \<and> (\<forall>i \<in> set indices. poll (snd (tasks ts ! i)) = None)
      | Some (data, result) \<Rightarrow>
          next_to_poll ts' \<in> set indices \<and> next_to_poll ts' \<le> length (tasks ts') \<and>
          (\<exists>handle. tasks ts ! next_to_poll ts' = (data, handle) \<and> poll handle = Some result \<and>
             mset (tasks ts) = add_mset (data, handle) (mset (tasks ts'))))"

lemma find_ready_outcome:
  assumes "\<forall>i \<in> set indices. i < length (tasks ts)"
  shows "\<exists>found ts'. find_ready poll indices ts = Ok (found, ts') \<and> find_outcome poll indices ts found ts'"
  using assms
proof (induction indices)
  case (Cons i indices)
  obtain data handle where i: "tasks ts ! i = (data, handle)" by (cases "tasks ts ! i")
  show ?case
  proof (cases "poll handle")
    case None
    from Cons obtain found ts' where IH: "find_ready poll indices ts = Ok (found, ts')"
      "find_outcome poll indices ts found ts'" by auto
    then have "find_outcome poll (i # indices) ts found ts'"
      using None i by (auto simp: find_outcome_def split: option.splits)
    with IH None Cons.prems i show ?thesis by simp
  next
    case (Some result)
    obtain x ys where sr: "swap_remove i (tasks ts) = Ok (x, ys)"
      using Cons.prems by (simp add: swap_remove_def)
    note mset_swap_remove [OF sr]
    with sr Some Cons.prems i show ?thesis by (simp add: find_outcome_def)
  qed
qed (simp add: find_outcome_def)

lemma join_next_outcome:
  assumes "task_set_wf ts" and "tasks ts \<noteq> []"
  obtains found ts' where
    "join_next poll ts = Ok (case found of Some out \<Rightarrow> Ready (Some out) | None \<Rightarrow> Pending, ts')"
    and "task_set_wf ts'" and "find_outcome poll [0..<length (tasks ts)] ts found ts'"
proof -
  let ?is = "[next_to_poll ts..<length (tasks ts)] @ [0..<next_to_poll ts]"
  have indices: "set ?is = set [0..<length (tasks ts)]"
    using assms(1) by (auto simp: task_set_wf_def)
  then have "\<forall>i \<in> set ?is. i < length (tasks ts)" by simp
  from find_ready_outcome [OF this, of poll] obtain found ts' where
    fr: "find_ready poll ?is ts = Ok (found, ts')" and out: "find_outcome poll ?is ts found ts'"
    by blast
  from out indices have out': "find_outcome poll [0..<length (tasks ts)] ts found ts'"
    by (simp only: find_outcome_def)
  then have "task_set_wf ts'" using assms(1)
    by (auto simp: task_set_wf_def find_outcome_def split: option.splits)
  with fr out' assms(2) that show thesis by (simp add: join_next_def)
qed

lemma join_next_wf: "task_set_wf ts \<Longrightarrow> join_next poll ts = Ok (out, ts') \<Longrightarrow> task_set_wf ts'"
  by (cases "tasks ts = []") (auto simp: join_next_def elim: join_next_outcome [of ts poll])

text \<open>The data of the tasks in a set.\<close>

definition task_ids :: "('i, 'h) task_set \<Rightarrow> 'i multiset" where
  "task_ids ts = mset (map fst (tasks ts))"

lemma join_next_ids:
  assumes "task_set_wf ts" and "join_next poll ts = Ok (out, ts')"
  shows "task_set_wf ts'"
    and "out = Ready (Some (i, u)) \<Longrightarrow> task_ids ts = add_mset i (task_ids ts')"
    and "\<nexists>i u. out = Ready (Some (i, u)) \<Longrightarrow> ts' = ts"
proof -
  show "task_set_wf ts'" using assms by (rule join_next_wf)
  have "(out = Ready (Some (i, u)) \<longrightarrow> task_ids ts = add_mset i (task_ids ts')) \<and>
    ((\<nexists>i u. out = Ready (Some (i, u))) \<longrightarrow> ts' = ts)"
  proof (cases "tasks ts = []")
    case False
    obtain found ts2 where
      "join_next poll ts = Ok (case found of Some out \<Rightarrow> Ready (Some out) | None \<Rightarrow> Pending, ts2)"
      "find_outcome poll [0..<length (tasks ts)] ts found ts2"
      by (rule join_next_outcome [OF assms(1) False])
    with assms(2) show ?thesis by (auto simp: find_outcome_def task_ids_def split: option.splits)
  qed (use assms(2) in \<open>auto simp: join_next_def\<close>)
  then show "out = Ready (Some (i, u)) \<Longrightarrow> task_ids ts = add_mset i (task_ids ts')"
    and "\<nexists>i u. out = Ready (Some (i, u)) \<Longrightarrow> ts' = ts" by blast+
qed

lemma join_next_returns:
  assumes "task_set_wf ts"
  obtains out ts' where "join_next poll ts = Ok (out, ts')"
proof (cases "tasks ts = []")
  case False
  with assms that show thesis by (metis join_next_outcome)
qed (use that in \<open>simp add: join_next_def\<close>)

lemma reachable_wf: "task_set_reachable poll_at ts \<Longrightarrow> task_set_wf ts"
proof (induction rule: task_set_reachable.induct)
  case (join ts t out ts')
  then show ?case by (blast intro: join_next_wf)
qed (auto simp: task_set_wf_def task_set_new_def add_handle_def)

text \<open>The handles in a set, what dropping it does to them, and what polling takes out of it.\<close>

definition handles :: "('t, 'h) task_set \<Rightarrow> 'h set" where
  "handles ts = snd ` set (tasks ts)"

lemma handles_simps [simp]:
  "handles task_set_new = {}"
  "handles (add_handle data handle ts) = insert handle (handles ts)"
  by (auto simp: handles_def task_set_new_def add_handle_def)

lemma task_set_drop_aborts:
  assumes "\<And>h s. aborted (abort h s) = aborted s @ [h]"
  shows "aborted (task_set_drop abort ts s) = aborted s @ map snd (tasks ts)"
proof -
  have "aborted (fold (\<lambda>(data, handle). abort handle) ps s) = aborted s @ map snd ps" for ps
    by (induction ps arbitrary: s) (auto simp: assms)
  then show ?thesis by (simp add: task_set_drop_def abort_all_def)
qed

lemma join_next_handles:
  assumes "task_set_wf ts" and "join_next poll ts = Ok (out, ts')"
  shows "handles ts \<subseteq> handles ts' \<union> {h. poll h \<noteq> None}"
proof (cases "tasks ts = []")
  case False
  obtain found ts2 where
    "join_next poll ts = Ok (case found of Some out \<Rightarrow> Ready (Some out) | None \<Rightarrow> Pending, ts2)"
    "find_outcome poll [0..<length (tasks ts)] ts found ts2"
    by (rule join_next_outcome [OF assms(1) False])
  with assms(2) have out: "find_outcome poll [0..<length (tasks ts)] ts found ts'" by auto
  show ?thesis
  proof (cases found)
    case (Some p)
    with out obtain data handle result where "poll handle = Some result"
      "mset (tasks ts) = add_mset (data, handle) (mset (tasks ts'))"
      by (cases p) (auto simp: find_outcome_def)
    then have "set (tasks ts) = insert (data, handle) (set (tasks ts'))" "poll handle \<noteq> None"
      by (metis set_mset_add_mset_insert set_mset_mset, simp)
    then show ?thesis by (auto simp: handles_def)
  qed (use out in \<open>simp add: find_outcome_def\<close>)
qed (simp add: handles_def)

text \<open>
  C12: on every set that the operations can build, polling for the next finished task never
  indexes out of bounds; it answers at once with \<open>None\<close> only when the set is empty, stays
  pending only when no task has finished, and otherwise hands over a finished task with
  its data, removing exactly this one from the set.
\<close>

theorem join_next_correct:
  assumes "task_set_reachable poll_at ts"
  shows "\<exists>out ts'. join_next poll ts = Ok (out, ts') \<and>
    (case out of
       Pending \<Rightarrow> ts' = ts \<and> tasks ts \<noteq> [] \<and> (\<forall>(data, handle) \<in> set (tasks ts). poll handle = None)
     | Ready None \<Rightarrow> ts' = ts \<and> tasks ts = []
     | Ready (Some (data, result)) \<Rightarrow>
         \<exists>handle. poll handle = Some result \<and> mset (tasks ts) = add_mset (data, handle) (mset (tasks ts')))"
proof (cases "tasks ts = []")
  case False
  show ?thesis
  proof (rule join_next_outcome [OF reachable_wf [OF assms] False, of poll], goal_cases)
    case (1 found ts')
    then show ?case
      using False by (cases found) (force simp: find_outcome_def in_set_conv_nth)+
  qed
qed (simp add: join_next_def)

lemma example_reachable:
  "task_set_reachable (\<lambda>_ h. h) (add_handle ''b'' (Some 2) (add_handle ''a'' None task_set_new))"
  by (intro task_set_reachable.intros)

theorem join_next_correct_witness:
  "\<exists>out ts'. join_next (\<lambda>h. h) (add_handle ''b'' (Some 2) (add_handle ''a'' None task_set_new)) = Ok (out, ts') \<and>
    out = Ready (Some (''b'', 2 :: nat)) \<and> tasks ts' = [(''a'', None)]"
  using join_next_correct [OF example_reachable, of "\<lambda>h. h"]
  by (auto simp: join_next_def task_set_new_def add_handle_def swap_remove_def upt_rec)

end
