(* ===== verification/Provider_Data.thy ===== *)
theory Provider_Data
  imports BTree Digits
begin

text \<open>
  \<open>market-data-feeder/src/provider.rs\<close>: the decimal amounts in which providers report
  prices, tagged at the type level as base or quote amounts, and currency pairs with
  their derived order.
\<close>

record decimal =
  amount :: string
  decimal_places :: u8

definition decimal_new :: "string \<Rightarrow> u8 \<Rightarrow> decimal" where
  "decimal_new a d = \<lparr>amount = a, decimal_places = d\<rparr>"

text \<open>The markers only tag the type: \<open>'t amount\<close> only carries the tag.\<close>

datatype base_marker = BaseMarker
datatype quote_marker = QuoteMarker

datatype 't amount = Amount (as_inner: decimal)

type_synonym price = "base_marker amount \<times> quote_marker amount"

datatype currency_pair = CurrencyPair (base_ticker: string) (quote_ticker: string)

instantiation currency_pair :: linorder
begin

definition less_eq_currency_pair :: "currency_pair \<Rightarrow> currency_pair \<Rightarrow> bool" where
  "less_eq_currency_pair a b \<longleftrightarrow> (base_ticker a, quote_ticker a) \<le> (base_ticker b, quote_ticker b)"

definition less_currency_pair :: "currency_pair \<Rightarrow> currency_pair \<Rightarrow> bool" where
  "less_currency_pair a b \<longleftrightarrow> (base_ticker a, quote_ticker a) < (base_ticker b, quote_ticker b)"

instance
  by standard
    (auto simp: less_eq_currency_pair_def less_currency_pair_def intro: currency_pair.expand)

end

lemma decimal_new_simps [simp]:
  "amount (decimal_new a d) = a"
  "decimal_places (decimal_new a d) = d"
  by (simp_all add: decimal_new_def)

end
