(* ===== verification/Osmosis.thy ===== *)
theory Osmosis
  imports Provider_Data
begin

text \<open>
  \<open>market-data-feeder/src/providers/osmosis/sealed.rs\<close>: turning the spot price reported by
  the pool manager (an integer with 36 implied decimal places) into a pair of a base
  and a quote amount that both fit 128 bits.
\<close>

section \<open>The largest quote amount\<close>

definition WELL_KNOWN_VALUE :: string where
  "WELL_KNOWN_VALUE = ''340282366920938463463374607431768211455''"

text \<open>
  The compile-time check of the constant: the digits are compared from the last one,
  dividing \<open>u128::MAX\<close> by ten at each step.
\<close>

fun check_digits :: "u128 \<Rightarrow> string \<Rightarrow> nat \<Rightarrow> unit res" where
  "check_digits value s 0 = Ok ()"
| "check_digits value s (Suc index) =
     (if 48 + value mod 10 = of_nat (of_char (s ! index))
      then check_digits (value div 10) s index
      else panic ''Computed value differs from well-known value!'')"

fun ilog10 :: "nat \<Rightarrow> nat" where
  "ilog10 n = (if n < 10 then 0 else Suc (ilog10 (n div 10)))"

declare ilog10.simps [simp del]

definition MAX_QUOTE_VALUE_check :: "string res" where
  "MAX_QUOTE_VALUE_check =
     (let max = (- 1 :: u128) in
      if ilog10 (unat max) + (if max mod 10 = 0 then 0 else 1) = length WELL_KNOWN_VALUE
      then and_then (check_digits max WELL_KNOWN_VALUE (length WELL_KNOWN_VALUE))
             (\<lambda>_. Ok WELL_KNOWN_VALUE)
      else panic ''Computed value differs from well-known value!'')"

definition MAX_QUOTE_VALUE :: string where
  "MAX_QUOTE_VALUE = WELL_KNOWN_VALUE"

definition compare_with_max_quote_value :: "string \<Rightarrow> ordering" where
  "compare_with_max_quote_value n =
     (case cmp (length n) (length MAX_QUOTE_VALUE) of
        Equal \<Rightarrow> cmp n MAX_QUOTE_VALUE
      | ord \<Rightarrow> ord)"

definition greater_than_max_quote_value :: "string \<Rightarrow> bool" where
  "greater_than_max_quote_value n \<longleftrightarrow> compare_with_max_quote_value n = Greater"


section \<open>Normalising a spot price\<close>

definition trim_start_zeroes :: "string \<Rightarrow> string" where
  "trim_start_zeroes s = dropWhile (\<lambda>ch. ch = CHR ''0'') s"

text \<open>The quote amount's exponent before trimming: \<open>36 + quote digits - base digits\<close>.\<close>

definition initial_quote_exponent :: "u8 \<Rightarrow> u8 \<Rightarrow> u8 res" where
  "initial_quote_exponent base_decimal_digits quote_decimal_digits =
     and_then (add_or_panic (36 :: u16) (ucast quote_decimal_digits)) (\<lambda>sum.
     and_then (opt_context ''Base currency's decimal digits count exceeds the sum of the quote currency's decimal digits count plus thirty six (36)!''
       (checked_sub sum (ucast base_decimal_digits))) (\<lambda>difference.
     with_context ''Quote currency's decimal digits count exceeds the allowed possible difference between it and the base currency's decimal digits count!''
       (int_conversion (try_into difference))))"

text \<open>
  \<open>trim_end_matches\<close> with a closure that counts: the string is given reversed, so the
  last character comes first.
\<close>

fun trim_end_loop :: "u8 \<Rightarrow> u8 \<Rightarrow> string \<Rightarrow> string \<times> u8 \<times> u8" where
  "trim_end_loop base_exponent quote_exponent [] = ([], base_exponent, quote_exponent)"
| "trim_end_loop base_exponent quote_exponent (ch # chs) =
     (if ch = CHR ''0'' \<and> base_exponent \<noteq> 0 \<and> quote_exponent \<noteq> 0
      then trim_end_loop (base_exponent - 1) (quote_exponent - 1) chs
      else (ch # chs, base_exponent, quote_exponent))"

definition trim_end_zeroes :: "u8 \<Rightarrow> u8 \<Rightarrow> string \<Rightarrow> string \<times> u8 \<times> u8" where
  "trim_end_zeroes base_exponent quote_exponent s =
     (case trim_end_loop base_exponent quote_exponent (rev s) of (t, b, q) \<Rightarrow> (rev t, b, q))"

text \<open>Both exponents, reduced by the number of dropped digits, if they allow it.\<close>

definition reduce_exponents :: "nat \<Rightarrow> u8 \<Rightarrow> u8 \<Rightarrow> (u8 \<times> u8) option" where
  "reduce_exponents excess base_exponent quote_exponent =
     Option.bind (usize_try_into excess) (\<lambda>excess.
     Option.bind (checked_sub base_exponent excess) (\<lambda>base_exponent.
     map_option (\<lambda>quote_exponent. (base_exponent, quote_exponent))
       (checked_sub quote_exponent excess)))"

definition drop_excess_digits :: "string \<Rightarrow> u8 \<Rightarrow> u8 \<Rightarrow> (string \<times> u8 \<times> u8) res" where
  "drop_excess_digits spot_price base_exponent quote_exponent =
     (if greater_than_max_quote_value spot_price
      then
        and_then (usize_sub (length spot_price) (length MAX_QUOTE_VALUE)) (\<lambda>longer.
        and_then (str_prefix (length MAX_QUOTE_VALUE) spot_price) (\<lambda>prefix.
        let excess = longer + (if prefix > MAX_QUOTE_VALUE then 1 else 0) in
        and_then (usize_sub (length spot_price) excess) (\<lambda>kept.
        and_then (str_prefix kept spot_price) (\<lambda>spot_price.
        map_res (\<lambda>(base_exponent, quote_exponent). (spot_price, base_exponent, quote_exponent))
          (opt_context ''Spot price exceeds the maximum allowed value!''
            (reduce_exponents excess base_exponent quote_exponent))))))
      else Ok (spot_price, base_exponent, quote_exponent))"

text \<open>The debug assertion is kept: it panics in a build with debug assertions.\<close>

definition price_amounts :: "string \<times> u8 \<times> u8 \<Rightarrow> price res" where
  "price_amounts = (\<lambda>(spot_price, base_exponent, quote_exponent).
     and_then (assert_or_panic ''assertion failed'' (is_ok (parse_unsigned spot_price :: u128 res)))
       (\<lambda>_.
     map_res
       (\<lambda>base_amount.
         (Amount (decimal_new (to_dec (unat base_amount)) base_exponent),
          Amount (decimal_new spot_price quote_exponent)))
       (opt_context ''Failed to calculate price base amount due to an overflow during exponentiation!''
         (checked_pow (10 :: u128) (unat base_exponent)))))"

definition normalized_price :: "string \<Rightarrow> u8 \<Rightarrow> u8 \<Rightarrow> price res" where
  "normalized_price spot_price base_decimal_digits quote_decimal_digits =
     (let spot_price = trim_start_zeroes spot_price in
      if spot_price = [] then Err [''Spot price contains only zeroes!'']
      else if \<not> list_all is_ascii_digit spot_price
      then Err [''Spot price is not valid ASCII encoded number!'']
      else
        and_then (initial_quote_exponent base_decimal_digits quote_decimal_digits)
          (\<lambda>quote_exponent.
        (case trim_end_zeroes 36 quote_exponent spot_price of
           (spot_price, base_exponent, quote_exponent) \<Rightarrow>
             and_then (drop_excess_digits spot_price base_exponent quote_exponent)
               price_amounts)))"


section \<open>The constant and the comparison\<close>

abbreviation u128_max :: nat where
  "u128_max \<equiv> 340282366920938463463374607431768211455"

lemmas max_quote_defs = MAX_QUOTE_VALUE_def WELL_KNOWN_VALUE_def

lemma max_quote_value [simp]:
  "dec_val MAX_QUOTE_VALUE = u128_max"
  "length MAX_QUOTE_VALUE = 39"
  by (simp_all add: max_quote_defs digit_val_def)

lemma max_quote_canonical [simp]: "canonical MAX_QUOTE_VALUE" "all_digits MAX_QUOTE_VALUE"
  by (simp_all add: max_quote_defs canonical_def is_ascii_digit_def)

lemma cmp_refl [simp]: "cmp a a = Equal"
  by simp

lemma greater_than_max_iff:
  assumes "canonical n"
  shows "greater_than_max_quote_value n \<longleftrightarrow> u128_max < dec_val n"
proof -
  have digits: "all_digits n" using assms by (simp add: canonical_def)
  consider "length n < 39" | "length n = 39" | "39 < length n" by linarith
  then show ?thesis
  proof cases
    case 1
    then have "dec_val n < u128_max"
      using canonical_length_less [of n MAX_QUOTE_VALUE] digits by simp
    with 1 show ?thesis
      by (simp add: greater_than_max_quote_value_def compare_with_max_quote_value_def cmp_def)
  next
    case 2
    with digits show ?thesis
      using dec_val_less_iff [of MAX_QUOTE_VALUE n]
      by (simp add: greater_than_max_quote_value_def compare_with_max_quote_value_def)
  next
    case 3
    then have "u128_max < dec_val n"
      using canonical_length_less [of MAX_QUOTE_VALUE n] assms by simp
    with 3 show ?thesis
      by (simp add: greater_than_max_quote_value_def compare_with_max_quote_value_def cmp_def)
  qed
qed


section \<open>The steps of the normalisation\<close>

lemma initial_quote_exponent_eq_Ok:
  "initial_quote_exponent b q = Ok e \<longleftrightarrow>
     unat b \<le> 36 + unat q \<and> unat e = 36 + unat q - unat b"
proof -
  have sum: "add_or_panic (36 :: u16) (ucast q) = Ok (36 + ucast q)"
    "unat (36 + ucast q :: u16) = 36 + unat q"
    using unat_u8_less [of q]
    by (simp_all add: int_ops unat_add_if_fits unat_ucast_if_fits del: unat_u8_less)
  show ?thesis
  proof
    assume "initial_quote_exponent b q = Ok e"
    then obtain d :: u16 where "checked_sub (36 + ucast q) (ucast b) = Some d" "try_into d = Some e"
      by (auto simp: initial_quote_exponent_def sum(1))
    then show "unat b \<le> 36 + unat q \<and> unat e = 36 + unat q - unat b"
      using try_into_Some [of d e] by (simp add: checked_sub_Some sum(2) unat_widen)
  next
    assume e: "unat b \<le> 36 + unat q \<and> unat e = 36 + unat q - unat b"
    let ?d = "36 + ucast q - ucast b :: u16"
    have "unat ?d = unat e"
      using e by (subst unat_sub_if_le) (simp_all add: word_le_nat_alt sum(2) unat_widen)
    then have "try_into ?d = Some e" and "checked_sub (36 + ucast q) (ucast b) = Some ?d"
      using e unat_u8_less [of e]
      by (auto simp: try_into_def checked_sub_def word_le_nat_alt sum(2) unat_ucast_if_fits
          word_unat_eq_iff simp del: unat_u8_less)
    then show "initial_quote_exponent b q = Ok e"
      by (simp add: initial_quote_exponent_def sum(1))
  qed
qed

lemma initial_quote_exponent_no_panic: "\<not> panics (initial_quote_exponent b q)"
  using unat_u8_less [of q]
  by (auto simp: initial_quote_exponent_def panics_and_then int_ops unat_ucast_if_fits
      simp del: unat_u8_less)

lemma trim_end_loop_spec:
  "trim_end_loop b q s = (t, b', q') \<Longrightarrow>
     \<exists>z. s = replicate z (CHR ''0'') @ t \<and> unat b = z + unat b' \<and> unat q = z + unat q'"
proof (induction b q s rule: trim_end_loop.induct)
  case (2 b q ch chs)
  show ?case
  proof (cases "ch = CHR ''0'' \<and> b \<noteq> 0 \<and> q \<noteq> 0")
    case True
    with 2 obtain z where z: "chs = replicate z (CHR ''0'') @ t"
        "unat (b - 1) = z + unat b'" "unat (q - 1) = z + unat q'" by auto
    moreover from True have "unat b = Suc (unat (b - 1))" "unat q = Suc (unat (q - 1))"
      by (simp_all add: unat_minus_one unat_gt_0)
    ultimately show ?thesis using True by (intro exI [of _ "Suc z"]) simp
  next
    case False
    with 2 show ?thesis by (intro exI [of _ 0]) auto
  qed
qed (intro exI [of _ 0], simp)

lemma canonical_prefix: "canonical (s @ t) \<Longrightarrow> s \<noteq> [] \<Longrightarrow> canonical s"
  by (auto simp: canonical_def)

lemma canonical_take: "canonical s \<Longrightarrow> 0 < n \<Longrightarrow> canonical (take n s)"
  using canonical_prefix [of "take n s" "drop n s"] by (auto simp: canonical_def)

lemma trim_end_zeroes_spec:
  assumes "canonical s" and "trim_end_zeroes b q s = (t, b', q')"
  obtains z where "canonical t" and "dec_val s = dec_val t * 10 ^ z"
    and "unat b = z + unat b'" and "unat q = z + unat q'"
proof -
  from assms(2) obtain z where z: "rev s = replicate z (CHR ''0'') @ rev t"
      "unat b = z + unat b'" "unat q = z + unat q'"
    using trim_end_loop_spec [of b q "rev s" "rev t" b' q']
    by (auto simp: trim_end_zeroes_def split: prod.splits)
  from z(1) have "s = t @ replicate z (CHR ''0'')"
    by (metis rev_append rev_replicate rev_rev_ident)
  moreover from this assms(1) have "t \<noteq> []"
    by (cases z) (auto simp: canonical_def)
  ultimately show thesis using that [of z] canonical_prefix [of t] assms(1) z(2,3) by simp
qed

text \<open>
  The number of digits to drop: just enough for the rest to fit.
\<close>

definition excess_digits :: "string \<Rightarrow> nat" where
  "excess_digits s =
     (length s - 39) + (if take 39 s > MAX_QUOTE_VALUE then 1 else 0)"

lemma excess_digits_spec:
  assumes "canonical s" and "u128_max < dec_val s"
  shows "39 \<le> length s" and "0 < excess_digits s" and "excess_digits s < length s"
    and "dec_val s div 10 ^ excess_digits s \<le> u128_max"
    and "u128_max < dec_val s div 10 ^ (excess_digits s - 1)"
proof -
  have digits: "all_digits s" using assms(1) by (simp add: canonical_def)
  show len: "39 \<le> length s"
    using canonical_length_less [of s MAX_QUOTE_VALUE] digits assms(2) by force
  have prefix: "take 39 s > MAX_QUOTE_VALUE \<longleftrightarrow> u128_max < dec_val (take 39 s)"
    using dec_val_less_iff [of MAX_QUOTE_VALUE "take 39 s"] digits len by simp
  have pos: "0 < excess_digits s" if "\<not> u128_max < dec_val (take 39 s)"
    using that assms(2) len by (cases "length s = 39") (auto simp: excess_digits_def)
  then show "0 < excess_digits s" using prefix by (auto simp: excess_digits_def)
  show "excess_digits s < length s" using len by (simp add: excess_digits_def) linarith
  have prefix_val: "dec_val s div 10 ^ e = dec_val (take (length s - e) s)" if "e \<le> length s" for e
    using dec_val_take [OF digits, of "length s - e"] that by simp
  show "dec_val s div 10 ^ excess_digits s \<le> u128_max"
  proof (cases "u128_max < dec_val (take 39 s)")
    case True
    then have "length s - excess_digits s = 38" using prefix len by (simp add: excess_digits_def)
    moreover have "dec_val (take 38 s) < 10 ^ 38"
      using dec_val_less [of "take 38 s"] digits len by simp
    ultimately show ?thesis using prefix_val [of "excess_digits s"] \<open>excess_digits s < length s\<close> by simp
  next
    case False
    then have "length s - excess_digits s = 39" using prefix len by (simp add: excess_digits_def)
    with False show ?thesis using prefix_val [of "excess_digits s"] \<open>excess_digits s < length s\<close> by simp
  qed
  show "u128_max < dec_val s div 10 ^ (excess_digits s - 1)"
  proof (cases "u128_max < dec_val (take 39 s)")
    case True
    then have "length s - (excess_digits s - 1) = 39"
      using prefix len by (simp add: excess_digits_def)
    with True show ?thesis using prefix_val [of "excess_digits s - 1"] \<open>excess_digits s < length s\<close> by simp
  next
    case False
    then have "length s - (excess_digits s - 1) = 40" "40 \<le> length s"
      using prefix len pos by (auto simp: excess_digits_def)
    moreover from this have "u128_max < dec_val (take 40 s)"
      using canonical_length_less [of MAX_QUOTE_VALUE "take 40 s"] canonical_take [OF assms(1), of 40]
      by simp
    ultimately show ?thesis using prefix_val [of "excess_digits s - 1"] \<open>excess_digits s < length s\<close> by simp
  qed
qed

definition dropped_digits :: "string \<Rightarrow> nat" where
  "dropped_digits s = (if u128_max < dec_val s then excess_digits s else 0)"

lemma div_power_antimono: "(r::nat) \<le> x \<Longrightarrow> n div 10 ^ x \<le> n div (10::nat) ^ r"
  by (intro div_le_mono2 power_increasing) simp_all

lemma dropped_digits_le_iff:
  assumes "canonical s"
  shows "dropped_digits s \<le> r \<longleftrightarrow> dec_val s div 10 ^ r \<le> u128_max"
proof (cases "u128_max < dec_val s")
  case True
  note spec = excess_digits_spec [OF assms True]
  have "dec_val s div 10 ^ r \<le> u128_max" if "excess_digits s \<le> r"
    using div_power_antimono [OF that, of "dec_val s"] spec(4) by linarith
  moreover have "u128_max < dec_val s div 10 ^ r" if "r \<le> excess_digits s - 1"
    using div_power_antimono [OF that, of "dec_val s"] spec(5) by linarith
  ultimately show ?thesis using True spec(2) by (fastforce simp: dropped_digits_def)
next
  case False
  then show ?thesis
    using div_le_dividend [of "dec_val s" "10 ^ r"]
    by (simp add: dropped_digits_def del: div_le_dividend)
qed

lemma dropped_digits_value:
  assumes "canonical s"
  shows "take (length s - dropped_digits s) s = to_dec (dec_val s div 10 ^ dropped_digits s)"
proof (cases "u128_max < dec_val s")
  case True
  note spec = excess_digits_spec [OF assms True]
  have "canonical (take (length s - excess_digits s) s)"
    using canonical_take [OF assms] spec(3) by simp
  then have "to_dec (dec_val (take (length s - excess_digits s) s)) = take (length s - excess_digits s) s"
    by (rule to_dec_dec_val)
  then show ?thesis
    using assms spec(3) True by (simp add: dropped_digits_def dec_val_take canonical_def)
next
  case False
  then show ?thesis using to_dec_dec_val [OF assms] by (simp add: dropped_digits_def)
qed

lemma reduce_exponents_eq_Some:
  "reduce_exponents e b q = Some (b', q') \<longleftrightarrow>
     e \<le> unat b \<and> e \<le> unat q \<and> unat b' = unat b - e \<and> unat q' = unat q - e"
proof -
  have e: "(\<exists>x. usize_try_into e = Some (x :: u8) \<and> P x) \<longleftrightarrow> (\<exists>x :: u8. unat x = e \<and> P x)" for P
    by (simp add: usize_try_into_Some)
  have ex: "\<exists>x :: u8. unat x = e" if "e \<le> unat b"
    using that unat_u8_less [of b] ex_u8_iff [of e "\<lambda>_. True"] by (simp del: unat_u8_less)
  show ?thesis
    by (auto simp: reduce_exponents_def bind_eq_Some_conv e checked_sub_Some dest: ex)
qed

lemma drop_excess_digits_eq:
  assumes "canonical s"
  shows "drop_excess_digits s b q =
    map_res (\<lambda>(b', q'). (to_dec (dec_val s div 10 ^ dropped_digits s), b', q'))
      (opt_context ''Spot price exceeds the maximum allowed value!''
        (reduce_exponents (dropped_digits s) b q))"
proof (cases "u128_max < dec_val s")
  case True
  note spec = excess_digits_spec [OF assms True]
  have "drop_excess_digits s b q =
    map_res (\<lambda>(b', q'). (take (length s - excess_digits s) s, b', q'))
      (opt_context ''Spot price exceeds the maximum allowed value!''
        (reduce_exponents (excess_digits s) b q))"
    using True spec(1,3) greater_than_max_iff [OF assms]
    by (simp add: drop_excess_digits_def usize_sub_def str_prefix_def excess_digits_def Let_def)
  then show ?thesis
    using True dropped_digits_value [OF assms] by (simp add: dropped_digits_def)
next
  case False
  moreover have "reduce_exponents 0 b q = Some (b, q)" by (simp add: reduce_exponents_eq_Some)
  ultimately show ?thesis
    using greater_than_max_iff [OF assms] to_dec_dec_val [OF assms]
    by (simp add: drop_excess_digits_def dropped_digits_def)
qed

lemma price_amounts_Ok:
  assumes "n \<le> u128_max" and "unat b \<le> 36"
  shows "price_amounts (to_dec n, b, q) =
    Ok (Amount (decimal_new (to_dec (10 ^ unat b)) b), Amount (decimal_new (to_dec n) q))"
proof -
  have "unat (of_nat n :: u128) = n" using assms(1) by (simp add: unat_of_nat)
  then have "parse_unsigned (to_dec n) = Ok (of_nat n :: u128)"
    using parse_to_dec [of "of_nat n :: u128"] by simp
  moreover have "(10::nat) ^ unat b < 2 ^ 128"
    using power_increasing [OF assms(2), of "10::nat"] by simp
  moreover from this have "unat ((10 :: u128) ^ unat b) = 10 ^ unat b"
    using unat_pow_if_fits [of "10 :: u128" "unat b"] by simp
  ultimately show ?thesis
    by (simp add: price_amounts_def assert_or_panic_def checked_pow_def)
qed


section \<open>The normalised price\<close>

lemma trim_start_zeroes_spec:
  "dec_val (trim_start_zeroes s) = dec_val s"
  "all_digits (trim_start_zeroes s) \<longleftrightarrow> all_digits s"
  "trim_start_zeroes s \<noteq> [] \<Longrightarrow> hd (trim_start_zeroes s) \<noteq> CHR ''0''"
proof (induction s)
  case (Cons c s)
  {
    case 1
    from Cons(1) show ?case by (simp add: trim_start_zeroes_def)
  next
    case 2
    from Cons(2) show ?case by (auto simp: trim_start_zeroes_def is_ascii_digit_def)
  next
    case 3
    with Cons(3) show ?case by (auto simp: trim_start_zeroes_def split: if_splits)
  }
qed (simp_all add: trim_start_zeroes_def)

lemma trim_start_zeroes_canonical:
  "all_digits s \<Longrightarrow> canonical (trim_start_zeroes s) \<longleftrightarrow> trim_start_zeroes s \<noteq> []"
  using trim_start_zeroes_spec [of s] by (auto simp: canonical_def)

lemma trim_start_zeroes_Nil_iff: "all_digits s \<Longrightarrow> trim_start_zeroes s = [] \<longleftrightarrow> dec_val s = 0"
  using trim_start_zeroes_canonical [of s] canonical_pos [of "trim_start_zeroes s"]
    trim_start_zeroes_spec(1) [of s] by force

text \<open>
  The price that results when \<open>k\<close> digits of the integer \<open>n\<close>, read with \<open>e\<close> quote
  decimals, are given up: the base amount is a power of ten, the quote amount the
  integer without its last \<open>k\<close> digits.
\<close>

definition shortened_price :: "nat \<Rightarrow> nat \<Rightarrow> nat \<Rightarrow> price \<Rightarrow> bool" where
  "shortened_price n e k p \<longleftrightarrow> (case p of (base, quote) \<Rightarrow>
     amount (as_inner base) = to_dec (10 ^ (36 - k)) \<and>
     unat (decimal_places (as_inner base)) + k = 36 \<and>
     amount (as_inner quote) = to_dec (n div 10 ^ k) \<and>
     unat (decimal_places (as_inner quote)) + k = e)"

text \<open>Digits other than zeroes are given up only if one fewer would not fit.\<close>

definition least_loss :: "nat \<Rightarrow> nat \<Rightarrow> bool" where
  "least_loss n k \<longleftrightarrow>
     n div 10 ^ k \<le> u128_max \<and> (10 ^ k dvd n \<or> u128_max < n div 10 ^ (k - 1))"

lemma shorten_canonical:
  assumes s: "canonical s" and trim: "trim_end_zeroes 36 e s = (t, b1, q1)"
  defines "r \<equiv> and_then (drop_excess_digits t b1 q1) price_amounts"
  shows "is_ok r \<longleftrightarrow> dec_val s div 10 ^ min 36 (unat e) \<le> u128_max"
    and "r = Ok p \<Longrightarrow> \<exists>k. shortened_price (dec_val s) (unat e) k p \<and> least_loss (dec_val s) k"
    and "\<not> panics r"
proof -
  obtain z where t: "canonical t" and n: "dec_val s = dec_val t * 10 ^ z"
    and b1: "36 = z + unat b1" and q1: "unat e = z + unat q1"
    by (rule trim_end_zeroes_spec [OF s trim]) simp
  have shift: "dec_val s div 10 ^ (z + x) = dec_val t div 10 ^ x" for x
    by (simp add: n power_add mult.commute)
  define x where "x = dropped_digits t"
  have fits: "x \<le> y \<longleftrightarrow> dec_val s div 10 ^ (z + y) \<le> u128_max" for y
    using dropped_digits_le_iff [OF t] by (simp add: x_def shift)
  have min: "min 36 (unat e) = z + min (unat b1) (unat q1)" using b1 q1 by simp
  note drop = drop_excess_digits_eq [OF t, of b1 q1, folded x_def]
  have run: "r = Ok (Amount (decimal_new (to_dec (10 ^ unat b2)) b2),
      Amount (decimal_new (to_dec (dec_val t div 10 ^ x)) q2))"
    if "reduce_exponents x b1 q1 = Some (b2, q2)" for b2 q2
  proof -
    from that have "unat b2 \<le> 36" using b1 by (simp add: reduce_exponents_eq_Some)
    with that fits [of x] show ?thesis by (simp add: r_def drop price_amounts_Ok shift)
  qed
  have fail: "r = Err [''Spot price exceeds the maximum allowed value!'']"
    if "reduce_exponents x b1 q1 = None"
    using that by (simp add: r_def drop)
  have some: "reduce_exponents x b1 q1 \<noteq> None \<longleftrightarrow> x \<le> min (unat b1) (unat q1)"
  proof -
    have "reduce_exponents x b1 q1 = Some (b1 - of_nat x, q1 - of_nat x)"
      if "x \<le> unat b1" "x \<le> unat q1"
    proof -
      have "unat (of_nat x :: u8) = x"
        using that unat_u8_less [of b1] by (simp add: unat_of_nat del: unat_u8_less)
      with that show ?thesis
        by (simp add: reduce_exponents_eq_Some unat_sub_if_le word_le_nat_alt)
    qed
    then show ?thesis by (auto simp: reduce_exponents_eq_Some)
  qed
  show "is_ok r \<longleftrightarrow> dec_val s div 10 ^ min 36 (unat e) \<le> u128_max"
    using some run fail fits [of "min (unat b1) (unat q1)"]
    by (cases "reduce_exponents x b1 q1") (auto simp: min)
  show "\<not> panics r"
    using run fail by (cases "reduce_exponents x b1 q1") auto
  show "\<exists>k. shortened_price (dec_val s) (unat e) k p \<and> least_loss (dec_val s) k" if "r = Ok p"
  proof -
    from that fail obtain b2 q2 where eq: "reduce_exponents x b1 q1 = Some (b2, q2)"
      by (cases "reduce_exponents x b1 q1") auto
    then have le: "x \<le> unat b1" "x \<le> unat q1" and b2: "unat b2 = unat b1 - x"
      and q2: "unat q2 = unat q1 - x" by (simp_all add: reduce_exponents_eq_Some)
    have "10 ^ (z + x) dvd dec_val s \<or> u128_max < dec_val s div 10 ^ (z + x - 1)"
    proof (cases "x = 0")
      case True
      then show ?thesis by (simp add: n)
    next
      case False
      then have "\<not> x \<le> x - 1" by simp
      then show ?thesis using False fits [of "x - 1"] by simp
    qed
    then have "least_loss (dec_val s) (z + x)" using fits [of x] by (simp add: least_loss_def)
    moreover have "shortened_price (dec_val s) (unat e) (z + x) p"
    proof -
      have "36 - (z + x) = unat b2" "unat b2 + (z + x) = 36" "unat q2 + (z + x) = unat e"
        using le b1 b2 q1 q2 by simp_all
      moreover have "p = (Amount (decimal_new (to_dec (10 ^ unat b2)) b2),
          Amount (decimal_new (to_dec (dec_val t div 10 ^ x)) q2))"
        using that run [OF eq] by simp
      ultimately show ?thesis by (simp add: shortened_price_def shift)
    qed
    ultimately show ?thesis by blast
  qed
qed

lemma normalized_price_unfold:
  "normalized_price spot b q =
     (let s = trim_start_zeroes spot in
      if s = [] then Err [''Spot price contains only zeroes!'']
      else if \<not> all_digits s then Err [''Spot price is not valid ASCII encoded number!'']
      else and_then (initial_quote_exponent b q) (\<lambda>e.
        case trim_end_zeroes 36 e s of (t, b1, q1) \<Rightarrow>
          and_then (drop_excess_digits t b1 q1) price_amounts))"
  by (simp add: normalized_price_def all_digits_def Let_def)

lemma normalized_price_digits:
  assumes "all_digits spot" and "0 < dec_val spot"
  shows "is_ok (normalized_price spot b q) \<longleftrightarrow>
      (\<exists>e. initial_quote_exponent b q = Ok e \<and>
        dec_val spot div 10 ^ min 36 (unat e) \<le> u128_max)"
    and "normalized_price spot b q = Ok p \<Longrightarrow>
      \<exists>e k. initial_quote_exponent b q = Ok e \<and> shortened_price (dec_val spot) (unat e) k p \<and> least_loss (dec_val spot) k"
    and "\<not> panics (normalized_price spot b q)"
proof -
  define s where "s = trim_start_zeroes spot"
  have s: "canonical s" "dec_val s = dec_val spot"
    using assms trim_start_zeroes_canonical [of spot] trim_start_zeroes_Nil_iff [of spot]
    by (simp_all add: s_def trim_start_zeroes_spec)
  then have unfolded: "normalized_price spot b q = and_then (initial_quote_exponent b q) (\<lambda>e.
      case trim_end_zeroes 36 e s of (t, b1, q1) \<Rightarrow>
        and_then (drop_excess_digits t b1 q1) price_amounts)"
    by (simp add: normalized_price_unfold s_def canonical_def)
  show "\<not> panics (normalized_price spot b q)"
    using shorten_canonical(3) [OF s(1)] initial_quote_exponent_no_panic [of b q]
    by (auto simp: unfolded panics_and_then split: prod.splits)
  show "is_ok (normalized_price spot b q) \<longleftrightarrow> (\<exists>e. initial_quote_exponent b q = Ok e \<and>
        dec_val spot div 10 ^ min 36 (unat e) \<le> u128_max)"
    using shorten_canonical(1) [OF s(1)] s(2)
    by (cases "initial_quote_exponent b q") (auto simp: unfolded split: prod.splits)
  show "\<exists>e k. initial_quote_exponent b q = Ok e \<and> shortened_price (dec_val spot) (unat e) k p \<and> least_loss (dec_val spot) k"
    if "normalized_price spot b q = Ok p"
    using that shorten_canonical(2) [OF s(1)] s(2)
    by (cases "initial_quote_exponent b q") (auto simp: unfolded split: prod.splits)
qed

lemma normalized_price_rejects:
  assumes "\<not> (all_digits spot \<and> 0 < dec_val spot)"
  shows "\<exists>m. normalized_price spot b q = Err [m]"
  using assms trim_start_zeroes_Nil_iff [of spot] trim_start_zeroes_spec(2) [of spot]
  by (auto simp: normalized_price_unfold Let_def)

text \<open>
  C25: the normalisation never panics: no slice leaves its string, no subtraction
  underflows and the assertion that the shortened price parses as a 128-bit integer
  always holds.
\<close>

theorem normalized_price_no_panic: "\<not> panics (normalized_price spot b q)"
  using normalized_price_digits(3) [of spot b q] normalized_price_rejects [of spot b q]
  by fastforce

text \<open>
  C2: a spot price is accepted exactly when it is a positive decimal number, the quote
  amount's exponent \<open>36 + quote digits - base digits\<close> is representable, and dropping as
  many digits as both exponents allow makes it fit 128 bits.
\<close>

theorem normalized_price_accepts_iff:
  "is_ok (normalized_price spot b q) \<longleftrightarrow>
     all_digits spot \<and> 0 < dec_val spot \<and>
     unat b \<le> 36 + unat q \<and> 36 + unat q - unat b < 256 \<and>
     dec_val spot div 10 ^ min 36 (36 + unat q - unat b) \<le> 2 ^ 128 - 1"
proof (cases "all_digits spot \<and> 0 < dec_val spot")
  case True
  let ?E = "36 + unat q - unat b"
  have "(\<exists>e. initial_quote_exponent b q = Ok e \<and> P (unat e)) \<longleftrightarrow>
      unat b \<le> 36 + unat q \<and> ?E < 256 \<and> P ?E" for P
    using ex_u8_iff [of ?E "\<lambda>_. P ?E"]
    by (auto simp: initial_quote_exponent_eq_Ok simp del: ex_simps)
  from this [of "\<lambda>e. dec_val spot div 10 ^ min 36 e \<le> u128_max"] True
  show ?thesis by (simp add: normalized_price_digits(1))
next
  case False
  then show ?thesis using normalized_price_rejects [of spot b q] by auto
qed

text \<open>
  C1: an accepted spot price, read with the exponent that the two currencies' decimal
  digits give, becomes the quote amount for exactly one unit of the base currency: its
  last \<open>k\<close> digits are given up, the exponents shrink by the same \<open>k\<close>, the result fits
  128 bits, and unless only zeroes were given up one digit fewer would not have fitted.
\<close>

theorem normalized_price_value:
  assumes "normalized_price spot b q = Ok p"
  shows "\<exists>k. shortened_price (dec_val spot) (36 + unat q - unat b) k p \<and> least_loss (dec_val spot) k"
proof (cases "all_digits spot \<and> 0 < dec_val spot")
  case True
  with assms obtain e k where "initial_quote_exponent b q = Ok e"
      and k: "shortened_price (dec_val spot) (unat e) k p" "least_loss (dec_val spot) k"
    using normalized_price_digits(2) [of spot b q p] by blast
  then have "unat e = 36 + unat q - unat b" by (simp add: initial_quote_exponent_eq_Ok)
  with k show ?thesis by auto
next
  case False
  then show ?thesis using assms normalized_price_rejects [of spot b q] by auto
qed

lemmas normalized_price_eval = normalized_price_def trim_start_zeroes_def is_ascii_digit_def
  initial_quote_exponent_def int_ops trim_end_zeroes_def drop_excess_digits_def
  greater_than_max_quote_value_def compare_with_max_quote_value_def max_quote_defs cmp_def
  price_amounts_def assert_or_panic_def parse_unsigned_def digit_val_def
  decimal_new_def to_dec.simps Let_def

theorem normalized_price_value_witness:
  "\<exists>k. shortened_price (dec_val ''01200'') (36 + unat (0 :: u8) - unat (34 :: u8)) k
        (Amount (decimal_new ''10000000000000000000000000000000000'' 34),
         Amount (decimal_new ''12'' 0))
     \<and> least_loss (dec_val ''01200'') k"
proof -
  have "normalized_price ''01200'' 34 0 =
      Ok (Amount (decimal_new ''10000000000000000000000000000000000'' 34),
          Amount (decimal_new ''12'' 0))"
    by (simp add: normalized_price_eval)
  then show ?thesis by (rule normalized_price_value)
qed

text \<open>
  On digit strings without leading zeroes the comparison with \<open>MAX_QUOTE_VALUE\<close> is
  the comparison of their values with the largest 128-bit integer.
\<close>

lemma compare_with_max_quote_value_numeric:
  assumes "canonical n"
  shows "compare_with_max_quote_value n = cmp (dec_val n) (2 ^ 128 - 1)"
proof -
  have "greater_than_max_quote_value n \<longleftrightarrow> u128_max < dec_val n"
    using assms by (rule greater_than_max_iff)
  moreover have "compare_with_max_quote_value n = Equal \<longleftrightarrow> dec_val n = u128_max"
  proof
    assume "dec_val n = u128_max"
    then have "n = MAX_QUOTE_VALUE"
      using to_dec_dec_val [OF assms] to_dec_dec_val [of MAX_QUOTE_VALUE] by simp
    then show "compare_with_max_quote_value n = Equal"
      by (simp add: compare_with_max_quote_value_def)
  qed (auto simp: compare_with_max_quote_value_def cmp_def split: if_splits)
  ultimately show ?thesis
    by (cases "compare_with_max_quote_value n")
      (auto simp: greater_than_max_quote_value_def cmp_def split: if_splits)
qed

text \<open>
  The assertions that guard the constant hold when it is compiled, so the constant is
  the decimal text of the largest 128-bit integer.
\<close>

theorem max_quote_value_check:
  "MAX_QUOTE_VALUE_check = Ok MAX_QUOTE_VALUE \<and> MAX_QUOTE_VALUE = to_dec (unat (- 1 :: u128))"
proof
  show "MAX_QUOTE_VALUE_check = Ok MAX_QUOTE_VALUE"
    by (simp add: MAX_QUOTE_VALUE_check_def max_quote_defs ilog10.simps Let_def
        unsigned_minus_1_eq_mask mask_eq_exp_minus_1)
  show "MAX_QUOTE_VALUE = to_dec (unat (- 1 :: u128))"
    using to_dec_dec_val [of MAX_QUOTE_VALUE]
    by (simp add: unsigned_minus_1_eq_mask mask_eq_exp_minus_1)
qed

end
