(* ===== verification/Oracle.thy ===== *)
theory Oracle
  imports Provider_Data Contract
begin

text \<open>
  \<open>market-data-feeder/src/oracle.rs\<close>: the currencies and currency pairs a protocol's oracle
  contract is configured with, cached between updates.  The contract queries
  (\<open>QueryWasm::smart\<close> at three result types) and the clock are parameters
  over an arbitrary state \<open>'s\<close>; times are natural numbers of a fixed unit.
\<close>

section \<open>State\<close>

type_synonym pool_id = u64

record currency =
  dex_symbol :: string
  decimal_digits :: u8

record queried_currency =
  ticker :: string
  queried_dex_symbol :: string
  queried_decimal_digits :: u8

type_synonym currency_map = "(string, currency) btree_map"
type_synonym pair_map = "(string \<times> string, pool_id) btree_map"

record oracle_state =
  contract_address :: string
  last_update :: nat
  update_interval :: nat
  currencies :: currency_map
  currency_pairs :: pair_map

record 's oracle_queries =
  smart_version :: "string \<Rightarrow> string \<Rightarrow> ('s, semver) eff"
  smart_currencies :: "string \<Rightarrow> string \<Rightarrow> ('s, queried_currency list) eff"
  smart_currency_pairs :: "string \<Rightarrow> string \<Rightarrow> ('s, (string \<times> (pool_id \<times> string)) list) eff"
  instant_now :: "'s \<Rightarrow> nat"

definition CONTRACT_VERSION :: semver where
  "CONTRACT_VERSION = SemVer 0 5 15"


section \<open>Operations\<close>

definition currency_of :: "queried_currency \<Rightarrow> string \<times> currency" where
  "currency_of c =
     (ticker c, \<lparr>dex_symbol = queried_dex_symbol c, decimal_digits = queried_decimal_digits c\<rparr>)"

definition query_currencies :: "'s oracle_queries \<Rightarrow> string \<Rightarrow> ('s, currency_map) eff" where
  "query_currencies env address =
     context_eff ''Failed to query for oracle contract currencies!''
       (map_eff (\<lambda>cs. bt_collect (map currency_of cs))
         (smart_currencies env address ''{\"currencies\":{}}''))"

definition query_currency_pairs :: "'s oracle_queries \<Rightarrow> string \<Rightarrow> ('s, pair_map) eff" where
  "query_currency_pairs env address =
     context_eff ''Failed to query for oracle contract's configured currency pairs!''
       (map_eff (\<lambda>ps. bt_collect (map (\<lambda>(from, (pool_id, to)). ((from, to), pool_id)) ps))
         (smart_currency_pairs env address ''{\"supported_currency_pairs\":{}}''))"

definition oracle_new :: "'s oracle_queries \<Rightarrow> string \<Rightarrow> nat \<Rightarrow> ('s, oracle_state) eff" where
  "oracle_new env address interval =
     bind_eff (smart_version env address ''{\"contract_version\":{}}'') (\<lambda>version.
     bind_eff
       (lift_eff (case check_compatibility version CONTRACT_VERSION of
          Compatible \<Rightarrow> Ok ()
        | Incompatible \<Rightarrow> Err [''Oracle contract has an incompatible version!''])) (\<lambda>_.
     bind_eff (context_eff ''Failed to query currencies'' (query_currencies env address))
       (\<lambda>cs s. let now = instant_now env s in
          bind_eff
            (context_eff ''Failed to query currency pairs!'' (query_currency_pairs env address))
            (\<lambda>ps. ret_eff
               \<lparr>contract_address = address, last_update = now, update_interval = interval,
                currencies = cs, currency_pairs = ps\<rparr>) s)))"

text \<open>\<open>update_currencies_and_pairs\<close>: the fields are written only after both queries.\<close>

definition update_currencies_and_pairs ::
  "'s oracle_queries \<Rightarrow> oracle_state \<Rightarrow> 's \<Rightarrow> bool res \<times> oracle_state \<times> 's" where
  "update_currencies_and_pairs env orc s =
     (let update_interval_elapsed = (instant_now env s - last_update orc > update_interval orc) in
      if update_interval_elapsed
      then (case query_currencies env (contract_address orc) s of
          (Inl e, s1) \<Rightarrow> (Inl e, orc, s1)
        | (Inr cs, s1) \<Rightarrow>
            (let now = instant_now env s1 in
             case query_currency_pairs env (contract_address orc) s1 of
               (Inl e, s2) \<Rightarrow> (Inl e, orc, s2)
             | (Inr ps, s2) \<Rightarrow>
                 (Ok update_interval_elapsed,
                  orc\<lparr>last_update := now, currencies := cs, currency_pairs := ps\<rparr>, s2)))
      else (Ok update_interval_elapsed, orc, s))"

definition missing_currency_message :: "string \<Rightarrow> string" where
  "missing_currency_message currency =
     ''Currency \"'' @ currency @ ''\" which appears in the swap pairs was not'' @ [CHR 0x0A] @
     ''            reported when currencies were queried!''"

definition currencies_get :: "currency_map \<Rightarrow> string \<Rightarrow> currency res" where
  "currencies_get cs currency = opt_context (missing_currency_message currency) (bt_get cs currency)"


section \<open>The contract of price providers\<close>

text \<open>
  What the trait \<open>Provider\<close> promises about \<open>price_query_messages\<close>: one message per
  configured currency pair, built from that pair's pool and its two currencies; the
  first failure in the order of the pairs is returned.
\<close>

locale provider_messages =
  fixes message :: "oracle_state \<Rightarrow> string \<times> string \<Rightarrow> pool_id \<Rightarrow> 'm res"
    and price_query_messages :: "oracle_state \<Rightarrow> (currency_pair, 'm) btree_map res"
  assumes messages_def: "price_query_messages orc =
      map_res bt_collect
        (collect_res (map (\<lambda>(pair, pool).
           map_res (\<lambda>m. (CurrencyPair (fst pair) (snd pair), m)) (message orc pair pool))
         (currency_pairs orc)))"
    and message_needs_currencies: "message orc pair pool = Ok m \<Longrightarrow>
      bt_get (currencies orc) (fst pair) \<noteq> None \<and> bt_get (currencies orc) (snd pair) \<noteq> None"
begin

lemma messages_rel:
  assumes "price_query_messages orc = Ok ms"
  obtains ys where "ms = bt_collect ys"
    and "list_all2 (\<lambda>x y. message orc (fst x) (snd x) = Ok (snd y) \<and>
           fst y = CurrencyPair (fst (fst x)) (snd (fst x))) (currency_pairs orc) ys"
proof -
  from assms obtain ys where ms: "ms = bt_collect ys"
    and rel: "list_all2 (\<lambda>x y. (case x of (pair, pool) \<Rightarrow>
        map_res (\<lambda>m. (CurrencyPair (fst pair) (snd pair), m)) (message orc pair pool)) = Ok y)
      (currency_pairs orc) ys"
    unfolding messages_def by (auto simp: collect_res_map_eq_Ok)
  from rel have "list_all2 (\<lambda>x y. message orc (fst x) (snd x) = Ok (snd y) \<and>
      fst y = CurrencyPair (fst (fst x)) (snd (fst x))) (currency_pairs orc) ys"
    by (rule list_all2_mono) (auto split: prod.splits)
  with ms show thesis by (rule that)
qed

lemma rel_keys:
  "list_all2 (\<lambda>x y. message orc (fst x) (snd x) = Ok (snd y) \<and>
      fst y = CurrencyPair (fst (fst x)) (snd (fst x))) ps ys \<Longrightarrow>
   map fst ys = map (\<lambda>p. CurrencyPair (fst p) (snd p)) (map fst ps)"
  by (induction rule: list_all2_induct) auto

lemma rel_get:
  "list_all2 (\<lambda>x y. message orc (fst x) (snd x) = Ok (snd y) \<and>
      fst y = CurrencyPair (fst (fst x)) (snd (fst x))) ps ys \<Longrightarrow>
   map_of ys (CurrencyPair a b) =
     (case map_of ps (a, b) of
        None \<Rightarrow> None
      | Some pool \<Rightarrow> (case message orc (a, b) pool of Inl e \<Rightarrow> None | Inr m \<Rightarrow> Some m))"
proof (induction rule: list_all2_induct)
  case (Cons x xs y ys)
  obtain c d pool where x: "x = ((c, d), pool)" by (metis prod.exhaust)
  obtain k m where y: "y = (k, m)" by (cases y)
  show ?case
  proof (cases "(c, d) = (a, b)")
    case True
    with Cons x y show ?thesis by simp
  next
    case False
    with Cons x y show ?thesis by auto
  qed
qed simp

lemma messages_get:
  assumes wf: "bt_wf (currency_pairs orc)" and ok: "price_query_messages orc = Ok ms"
  shows "bt_get ms (CurrencyPair a b) =
    (case bt_get (currency_pairs orc) (a, b) of
       None \<Rightarrow> None
     | Some pool \<Rightarrow> (case message orc (a, b) pool of Inl e \<Rightarrow> None | Inr m \<Rightarrow> Some m))"
proof -
  obtain ys where ms: "ms = bt_collect ys"
    and rel: "list_all2 (\<lambda>x y. message orc (fst x) (snd x) = Ok (snd y) \<and>
      fst y = CurrencyPair (fst (fst x)) (snd (fst x))) (currency_pairs orc) ys"
    by (rule messages_rel [OF ok])
  have "inj (\<lambda>p. CurrencyPair (fst p) (snd p))" by (auto simp: inj_def prod_eq_iff)
  then have "distinct (map (\<lambda>p. CurrencyPair (fst p) (snd p)) (map fst (currency_pairs orc)))"
    using bt_wf_distinct [OF wf] by (metis distinct_map inj_on_subset subset_UNIV)
  then have "distinct (map fst ys)" by (simp only: rel_keys [OF rel])
  then have "bt_get ms = map_of ys" by (simp add: ms bt_get_collect_distinct)
  with rel_get [OF rel] show ?thesis by simp
qed

lemma messages_need_currencies:
  assumes "price_query_messages orc = Ok ms" and "(pair, pool) \<in> set (currency_pairs orc)"
  shows "bt_get (currencies orc) (fst pair) \<noteq> None \<and> bt_get (currencies orc) (snd pair) \<noteq> None"
proof -
  obtain ys where rel: "list_all2 (\<lambda>x y. message orc (fst x) (snd x) = Ok (snd y) \<and>
      fst y = CurrencyPair (fst (fst x)) (snd (fst x))) (currency_pairs orc) ys"
    by (rule messages_rel [OF assms(1)])
  from assms(2) obtain i where "i < length (currency_pairs orc)" "currency_pairs orc ! i = (pair, pool)"
    by (auto simp: in_set_conv_nth)
  with rel have "message orc pair pool = Ok (snd (ys ! i))"
    using list_all2_nthD by fastforce
  then show ?thesis by (rule message_needs_currencies)
qed

end


section \<open>Updates\<close>


definition example_queries :: "nat oracle_queries" where
  "example_queries =
     \<lparr>smart_version = \<lambda>_ _ s. (Ok (SemVer 0 5 15), s),
      smart_currencies = \<lambda>_ _ s.
        (Ok [\<lparr>ticker = ''NLS'', queried_dex_symbol = ''unls'', queried_decimal_digits = 6\<rparr>], Suc s),
      smart_currency_pairs = \<lambda>_ _ s. (Err [''unavailable''], Suc s),
      instant_now = \<lambda>s. s\<rparr>"

definition example_oracle :: oracle_state where
  "example_oracle =
     \<lparr>contract_address = ''nolus1'', last_update = 0, update_interval = 5,
      currencies = [], currency_pairs = []\<rparr>"

lemmas oracle_eval = update_currencies_and_pairs_def query_currencies_def query_currency_pairs_def
  context_eff_def map_eff_def example_queries_def example_oracle_def


end
