(* ===== verification/Providers.thy ===== *)
theory Providers
  imports Osmosis Oracle
begin

text \<open>
  The two implementations of the trait \<open>Provider\<close>
  (\<open>providers/osmosis\<close>, \<open>providers/astroport\<close>): the query messages they build for the
  configured currency pairs and how they turn an answer into a price.  The gRPC and
  contract queries, and \<open>serde_json_wasm::to_vec\<close>, are parameters.
\<close>

section \<open>Osmosis\<close>

record spot_price_request =
  request_pool_id :: u64
  base_asset_denom :: string
  quote_asset_denom :: string

record osmosis_query_message =
  request :: spot_price_request
  base_decimal_digits :: u8
  quote_decimal_digits :: u8

definition osmosis_path_and_query :: string where
  "osmosis_path_and_query = ''/osmosis.poolmanager.v2.Query/SpotPriceV2''"

definition osmosis_message ::
  "oracle_state \<Rightarrow> string \<times> string \<Rightarrow> pool_id \<Rightarrow> osmosis_query_message res" where
  "osmosis_message orc pair pool_id =
     and_then (currencies_get (currencies orc) (fst pair)) (\<lambda>base.
     map_res (\<lambda>quote.
         \<lparr>request = \<lparr>request_pool_id = pool_id, base_asset_denom = dex_symbol base,
                    quote_asset_denom = dex_symbol quote\<rparr>,
          base_decimal_digits = decimal_digits base,
          quote_decimal_digits = decimal_digits quote\<rparr>)
       (currencies_get (currencies orc) (snd pair)))"

definition osmosis_price_query_messages ::
  "oracle_state \<Rightarrow> (currency_pair, osmosis_query_message) btree_map res" where
  "osmosis_price_query_messages orc =
     map_res bt_collect
       (collect_res (map (\<lambda>(pair, pool_id).
          map_res (\<lambda>m. (CurrencyPair (fst pair) (snd pair), m)) (osmosis_message orc pair pool_id))
        (currency_pairs orc)))"

definition osmosis_price_query ::
  "(spot_price_request \<Rightarrow> string \<Rightarrow> ('s, string) eff) \<Rightarrow> osmosis_query_message \<Rightarrow> ('s, price) eff"
where
  "osmosis_price_query raw query_message =
     bind_eff
       (context_eff ''Failed to query spot price from pool manager module!''
         (raw (request query_message) osmosis_path_and_query))
       (\<lambda>spot_price. lift_eff
         (with_context ''Failed to normalize price returned from pool manager module!''
           (normalized_price spot_price (base_decimal_digits query_message)
             (quote_decimal_digits query_message))))"


section \<open>Astroport\<close>

datatype asset_info = NativeToken string

datatype swap_operation = AstroSwap (offer_asset_info: asset_info) (ask_asset_info: asset_info)

datatype query_msg = SimulateSwapOperations (offer_amount: string) (operations: "swap_operation list")

record astroport_query_message =
  base_amount :: "base_marker amount"
  quote_decimal_places :: u8
  message_bytes :: string

text \<open>\<open>10_u128.pow\<close> panics when the power does not fit.\<close>

definition price_query_message ::
  "(query_msg \<Rightarrow> string res) \<Rightarrow> string \<Rightarrow> u8 \<Rightarrow> string \<Rightarrow> u8 \<Rightarrow> astroport_query_message res" where
  "price_query_message to_vec base base_places quote quote_places =
     and_then (pow_or_panic (10 :: u128) (unat base_places)) (\<lambda>amount.
     with_context ''Failed to serialize price query message!''
       (map_res (\<lambda>bytes.
           \<lparr>base_amount = Amount (decimal_new (to_dec (unat amount)) base_places),
            quote_decimal_places = quote_places, message_bytes = bytes\<rparr>)
         (to_vec (SimulateSwapOperations (to_dec (unat amount))
           [AstroSwap (NativeToken base) (NativeToken quote)]))))"

definition astroport_message ::
  "(query_msg \<Rightarrow> string res) \<Rightarrow> oracle_state \<Rightarrow> string \<times> string \<Rightarrow> astroport_query_message res" where
  "astroport_message to_vec orc pair =
     and_then (currencies_get (currencies orc) (fst pair)) (\<lambda>base_currency.
     and_then (currencies_get (currencies orc) (snd pair)) (\<lambda>quote_currency.
     with_context (''Failed to construct price query message! Currency pair='' @ fst pair @ ''/'' @ snd pair)
       (price_query_message to_vec (dex_symbol base_currency) (decimal_digits base_currency)
         (dex_symbol quote_currency) (decimal_digits quote_currency))))"

definition astroport_price_query_messages ::
  "(query_msg \<Rightarrow> string res) \<Rightarrow> oracle_state \<Rightarrow>
     (currency_pair, astroport_query_message) btree_map res" where
  "astroport_price_query_messages to_vec orc =
     map_res bt_collect
       (collect_res (map (\<lambda>pair.
          map_res (\<lambda>m. (CurrencyPair (fst pair) (snd pair), m)) (astroport_message to_vec orc pair))
        (map fst (currency_pairs orc))))"

definition astroport_price_query ::
  "(string \<Rightarrow> string \<Rightarrow> ('s, string) eff) \<Rightarrow> string \<Rightarrow> astroport_query_message \<Rightarrow> ('s, price) eff"
where
  "astroport_price_query smart_amount router_address m =
     context_eff ''Failed to query price from router contract!''
       (map_eff (\<lambda>amount.
           (base_amount m, Amount (decimal_new amount (quote_decimal_places m))))
         (smart_amount router_address (message_bytes m)))"


section \<open>Both implement the trait's contract\<close>

lemma currencies_get_eq_Ok: "currencies_get cs c = Ok x \<longleftrightarrow> bt_get cs c = Some x"
  by (simp add: currencies_get_def)

interpretation osmosis: provider_messages osmosis_message osmosis_price_query_messages
  by unfold_locales
    (auto simp: osmosis_price_query_messages_def osmosis_message_def currencies_get_eq_Ok)

interpretation astroport:
  provider_messages "\<lambda>orc pair pool. astroport_message to_vec orc pair"
    "astroport_price_query_messages to_vec" for to_vec
  by unfold_locales
    (auto simp: astroport_price_query_messages_def astroport_message_def currencies_get_eq_Ok
      comp_def case_prod_unfold)


section \<open>Messages and prices\<close>

text \<open>
  When Osmosis messages are built they are exactly one per configured currency pair,
  each asking the pair's pool about the exchange symbols of its two currencies and
  carrying their decimal digits.
\<close>

theorem osmosis_messages_correct:
  assumes "bt_wf (currency_pairs orc)" and "osmosis_price_query_messages orc = Ok ms"
  shows "bt_get ms (CurrencyPair a b) =
    (case bt_get (currency_pairs orc) (a, b) of
       None \<Rightarrow> None
     | Some pool \<Rightarrow>
         (case (bt_get (currencies orc) a, bt_get (currencies orc) b) of
            (Some ca, Some cb) \<Rightarrow>
              Some \<lparr>request = \<lparr>request_pool_id = pool, base_asset_denom = dex_symbol ca,
                               quote_asset_denom = dex_symbol cb\<rparr>,
                    base_decimal_digits = decimal_digits ca,
                    quote_decimal_digits = decimal_digits cb\<rparr>
          | _ \<Rightarrow> None))"
  unfolding osmosis.messages_get [OF assms]
  by (auto simp: osmosis_message_def currencies_get_def split: option.split)

definition two_currencies :: oracle_state where
  "two_currencies =
     \<lparr>contract_address = ''nolus1'', last_update = 0, update_interval = 5,
      currencies = [(''NLS'', \<lparr>dex_symbol = ''unls'', decimal_digits = 6\<rparr>),
                    (''USDC'', \<lparr>dex_symbol = ''uusdc'', decimal_digits = 6\<rparr>)],
      currency_pairs = [((''NLS'', ''USDC''), 7)]\<rparr>"

theorem osmosis_messages_correct_witness:
  "\<exists>ms. osmosis_price_query_messages two_currencies = Ok ms \<and>
     bt_get ms (CurrencyPair ''NLS'' ''USDC'') =
       Some \<lparr>request = \<lparr>request_pool_id = 7, base_asset_denom = ''unls'',
                        quote_asset_denom = ''uusdc''\<rparr>,
             base_decimal_digits = 6, quote_decimal_digits = 6\<rparr>"
proof -
  have wf: "bt_wf (currency_pairs two_currencies)" by (simp add: two_currencies_def bt_wf_def)
  obtain ms where ms: "osmosis_price_query_messages two_currencies = Ok ms"
    by (simp add: osmosis_price_query_messages_def osmosis_message_def currencies_get_def
        two_currencies_def)
  show ?thesis
    using ms osmosis_messages_correct [OF wf ms, of "''NLS''" "''USDC''"]
    by (simp add: two_currencies_def)
qed

lemma pow_ten_u128_fits_iff: "(10::nat) ^ n < 2 ^ 128 \<longleftrightarrow> n \<le> 38"
proof
  show "(10::nat) ^ n < 2 ^ 128" if "n \<le> 38"
    using power_increasing [OF that, of "10::nat"] by simp
  show "n \<le> 38" if "(10::nat) ^ n < 2 ^ 128"
  proof (rule ccontr)
    assume "\<not> n \<le> 38"
    then have "(10::nat) ^ 39 \<le> 10 ^ n" by (intro power_increasing) simp_all
    with that show False by simp
  qed
qed

text \<open>
  Building an Astroport query panics exactly when the base currency has more than
  38 decimal digits (the offered amount, one unit, does not fit 128 bits), provided the
  serialiser itself does not; up to there the offered amount is one unit of the base
  currency.
\<close>

theorem price_query_message_panics_iff:
  assumes "\<And>m. \<not> panics (to_vec m)"
  shows "panics (price_query_message to_vec base bp quote qp) \<longleftrightarrow> 38 < unat bp"
  using assms pow_ten_u128_fits_iff [of "unat bp"]
  by (auto simp: price_query_message_def pow_or_panic_def checked_pow_def panics_and_then)

theorem price_query_message_panics_witness:
  "panics (price_query_message (\<lambda>m. Ok (offer_amount m)) ''a'' 39 ''b'' 6) \<longleftrightarrow> 38 < unat (39 :: u8)"
  by (rule price_query_message_panics_iff) simp

end
