(* ===== verification/Feeder.thy ===== *)
theory Feeder
  imports TaskSet Task Providers
begin

text \<open>
  \<open>market-data-feeder/src/task/provider.rs\<close>: the task that queries a protocol's prices from a
  DEX once per new block, collects the answers of one round and sends them to the oracle
  contract in one transaction.  The loop is modelled by its turns: each turn of the
  \<open>select!\<close> sees what its futures give at that time.  The node, the clock, the spawner,
  the encoders and the broadcaster's channel are parameters over a state \<open>'s\<close>.
\<close>

section \<open>State and environment\<close>

record fed_coin =
  fed_amount :: string
  fed_ticker :: string

record fed_price =
  price_amount :: fed_coin
  price_amount_quote :: fed_coin

record feeder_base =
  feeder_protocol :: string
  feeder_source :: string
  duration_before_start :: nat
  feeder_idle_duration :: nat
  feeder_timeout_duration :: nat
  feeder_hard_gas_limit :: gas

record ('msg, 'h) feeder =
  feeder_oracle :: oracle_state
  execute_template :: msg_execute_contract
  query_messages :: "(currency_pair, 'msg) btree_map"
  queries_task_set :: "(currency_pair, 'h) task_set"
  price_collection_buffer :: "fed_price list"
  dex_block_height :: u64
  fallback_gas_estimate :: gas
  running_fetches :: nat

record ('msg, 'h, 'any, 'rx, 's) feeder_env =
  provider_messages_for :: "oracle_state \<Rightarrow> (currency_pair, 'msg) btree_map res"
  oracle_env :: "'s oracle_queries"
  dex_syncing :: "('s, bool) eff"
  dex_latest_block :: "('s, u64) eff"
  spawn_query :: "currency_pair \<Rightarrow> 'msg \<Rightarrow> 's \<Rightarrow> 'h \<times> 's"
  encode_prices :: "fed_price list \<Rightarrow> string res"
  encode_any :: "msg_execute_contract \<Rightarrow> 'any res"
  send_tx :: "'any tx_body tx_package \<Rightarrow> ('s, 'rx) eff"
  spawn_fetch :: "'rx \<Rightarrow> 's \<Rightarrow> 's"
  instant_after :: "nat \<Rightarrow> 's \<Rightarrow> nat res"

text \<open>What a spawned task gives when joined: the outer failure is a join error.\<close>

type_synonym 'a joined = "'a res res"

record 'h feeder_wakeup =
  poll_query :: "'h \<Rightarrow> price joined option"
  fetch_joined :: "tx_response option joined option"
  tick :: bool


section \<open>Operations\<close>

definition get_dex_block_height :: "('msg, 'h, 'any, 'rx, 's) feeder_env \<Rightarrow> ('s, u64) eff" where
  "get_dex_block_height env =
     bind_eff (dex_syncing env) (\<lambda>syncing.
       if syncing then lift_eff (Err [''Dex node reported in with syncing status!''])
       else dex_latest_block env)"

text \<open>A spawned query gives up when the next round is due.\<close>

definition query_task :: "('s \<Rightarrow> nat) \<Rightarrow> nat \<Rightarrow> ('s, price) eff \<Rightarrow> ('s, price) eff" where
  "query_task now duration price_query s =
     (case with_expiration now (TimeBasedExpiration (now s + duration)) price_query s of
        (Some r, s') \<Rightarrow> (r, s')
      | (None, s') \<Rightarrow>
          (Err [''Failed to query price before new querying period starts!'', ''deadline has elapsed''], s'))"

fun spawn_all ::
  "('msg, 'h, 'any, 'rx, 's) feeder_env \<Rightarrow> (currency_pair \<times> 'msg) list \<Rightarrow>
     (currency_pair, 'h) task_set \<Rightarrow> 's \<Rightarrow> (currency_pair, 'h) task_set \<times> 's" where
  "spawn_all env [] ts s = (ts, s)"
| "spawn_all env ((pair, message) # ms) ts s =
     (case spawn_query env pair message s of (handle, s') \<Rightarrow>
        spawn_all env ms (add_handle pair handle ts) s')"

definition spawn_query_tasks ::
  "('msg, 'h, 'any, 'rx, 's) feeder_env \<Rightarrow> ('msg, 'h) feeder \<Rightarrow> 's \<Rightarrow> unit res \<times> ('msg, 'h) feeder \<times> 's" where
  "spawn_query_tasks env f s =
     (case update_currencies_and_pairs (oracle_env env) (feeder_oracle f) s of
        (Inl e, orc, s1) \<Rightarrow>
          (with_context ''Failed to update currencies and currency pairs'' (Inl e),
           f\<lparr>feeder_oracle := orc\<rparr>, s1)
      | (Inr updated, orc, s1) \<Rightarrow>
          (case (if updated then provider_messages_for env orc else Ok (query_messages f)) of
             Inl e \<Rightarrow> (Inl e, f\<lparr>feeder_oracle := orc\<rparr>, s1)
           | Inr ms \<Rightarrow>
               (case spawn_all env ms (queries_task_set f) s1 of (ts, s2) \<Rightarrow>
                  (Ok (), f\<lparr>feeder_oracle := orc, query_messages := ms, queries_task_set := ts\<rparr>, s2))))"

definition fed_price_of :: "currency_pair \<Rightarrow> price \<Rightarrow> fed_price" where
  "fed_price_of pair p =
     \<lparr>price_amount = \<lparr>fed_amount = amount (as_inner (fst p)), fed_ticker = base_ticker pair\<rparr>,
      price_amount_quote = \<lparr>fed_amount = amount (as_inner (snd p)), fed_ticker = quote_ticker pair\<rparr>\<rparr>"

fun handle_price_query_result ::
  "currency_pair \<Rightarrow> price res \<Rightarrow> fed_price list \<Rightarrow> fed_price list" where
  "handle_price_query_result pair (Inr p) buffer = buffer @ [fed_price_of pair p]"
| "handle_price_query_result pair (Inl e) buffer = buffer"

definition price_package ::
  "feeder_base \<Rightarrow> 'any tx_body \<Rightarrow> gas \<Rightarrow> nat \<Rightarrow> 'any tx_body tx_package" where
  "price_package base body fallback expires =
     \<lparr>tx_body = body, source = feeder_source base, hard_gas_limit = feeder_hard_gas_limit base,
      fallback_gas = fallback, package_expiration = TimeBasedExpiration expires\<rparr>"

definition send_for_broadcast ::
  "('msg, 'h, 'any, 'rx, 's) feeder_env \<Rightarrow> feeder_base \<Rightarrow> ('msg, 'h) feeder \<Rightarrow> 's \<Rightarrow>
     'rx res \<times> ('msg, 'h) feeder \<times> 's" where
  "send_for_broadcast env base f s =
     (case apply_template (encode_prices env) (encode_any env) (execute_template f)
             (price_collection_buffer f) of
        (Inl e, template) \<Rightarrow>
          (with_context ''Failed to construct transaction's body!'' (Inl e),
           f\<lparr>execute_template := template\<rparr>, s)
      | (Inr body, template) \<Rightarrow>
          (let f = f\<lparr>execute_template := template\<rparr> in
           case instant_after env (feeder_timeout_duration base) s of
             Inl e \<Rightarrow> (Inl e, f, s)
           | Inr expires \<Rightarrow>
               (case context_eff ''Failed to send transaction for broadcasting!''
                       (send_tx env (price_package base body (fallback_gas_estimate f) expires)) s of
                  (r, s') \<Rightarrow> (r, f, s'))))"

text \<open>The future spawned for the response.\<close>

definition feeder_fetch_delivered ::
  "'s tx_env \<Rightarrow> feeder_base \<Rightarrow> ('s, tx_response) eff \<Rightarrow> 's \<Rightarrow> (tx_response option res \<times> 's) option" where
  "feeder_fetch_delivered env base feedback_response s =
     (case feedback_response s of
        (Inl e, s') \<Rightarrow> Some (Inl e, s')
      | (Inr response, s') \<Rightarrow>
          if tx_code_is_ok (tx_code_from (code response))
          then fetch_delivered env response (feeder_timeout_duration base) s'
          else Some (Ok None, s'))"

definition handle_fetch_delivered_result ::
  "feeder_base \<Rightarrow> gas \<Rightarrow> tx_response option res \<Rightarrow> gas res" where
  "handle_fetch_delivered_result base fallback result =
     (case result of
        Inr (Some response) \<Rightarrow>
          (let tx_code = tx_code_from (code response) in
           if tx_code_is_ok tx_code \<or> tx_code_value tx_code = OUT_OF_GAS_ERROR_CODE
           then map_res
             (\<lambda>adjusted. if adjusted \<le> feeder_hard_gas_limit base then adjusted else feeder_hard_gas_limit base)
             (adjust_fallback_gas fallback (unsigned_abs (gas_used response)))
           else Ok fallback)
      | _ \<Rightarrow> Ok fallback)"


section \<open>The loop\<close>

definition on_query_joined ::
  "('msg, 'h, 'any, 'rx, 's) feeder_env \<Rightarrow> feeder_base \<Rightarrow> currency_pair \<Rightarrow> price joined \<Rightarrow>
     ('msg, 'h) feeder \<Rightarrow> 's \<Rightarrow> unit res \<times> ('msg, 'h) feeder \<times> 's" where
  "on_query_joined env base pair joined f s =
     (case with_context ''Failed to join back price query task!'' joined of
        Inl e \<Rightarrow> (Inl e, f, s)
      | Inr result \<Rightarrow>
          (let f = f\<lparr>price_collection_buffer :=
                       handle_price_query_result pair result (price_collection_buffer f)\<rparr> in
           if task_set_is_empty (queries_task_set f) \<and> price_collection_buffer f \<noteq> []
           then (case send_for_broadcast env base f s of
               (Inl e, f', s') \<Rightarrow> (Inl e, f', s')
             | (Inr rx, f', s') \<Rightarrow>
                 (Ok (), f'\<lparr>price_collection_buffer := [], running_fetches := Suc (running_fetches f')\<rparr>,
                  spawn_fetch env rx s'))
           else (Ok (), f, s)))"

definition on_fetch_joined ::
  "feeder_base \<Rightarrow> tx_response option joined \<Rightarrow> ('msg, 'h) feeder \<Rightarrow> 's \<Rightarrow>
     unit res \<times> ('msg, 'h) feeder \<times> 's" where
  "on_fetch_joined base joined f s =
     (let f = f\<lparr>running_fetches := running_fetches f - 1\<rparr> in
      case with_context ''Failed to join back delivered transaction fetching task!'' joined of
        Inl e \<Rightarrow> (Inl e, f, s)
      | Inr result \<Rightarrow>
          (case handle_fetch_delivered_result base (fallback_gas_estimate f) result of
             Inl e \<Rightarrow> (Inl e, f, s)
           | Inr fallback \<Rightarrow> (Ok (), f\<lparr>fallback_gas_estimate := fallback\<rparr>, s)))"

definition on_tick ::
  "('msg, 'h, 'any, 'rx, 's) feeder_env \<Rightarrow> ('msg, 'h) feeder \<Rightarrow> 's \<Rightarrow> unit res \<times> ('msg, 'h) feeder \<times> 's" where
  "on_tick env f s =
     (case get_dex_block_height env s of
        (Inl e, s1) \<Rightarrow> (Inl e, f, s1)
      | (Inr new_block_height, s1) \<Rightarrow>
          if dex_block_height f \<ge> new_block_height then (Ok (), f, s1)
          else (case spawn_query_tasks env (f\<lparr>dex_block_height := new_block_height\<rparr>) s1 of
              (r, f', s') \<Rightarrow> (with_context ''Failed to spawn price querying tasks!'' r, f', s')))"

text \<open>One turn: finished queries first, then delivered transactions, then the interval.\<close>

definition other_branches ::
  "('msg, 'h, 'any, 'rx, 's) feeder_env \<Rightarrow> feeder_base \<Rightarrow> 'h feeder_wakeup \<Rightarrow> ('msg, 'h) feeder \<Rightarrow> 's \<Rightarrow>
     unit res \<times> ('msg, 'h) feeder \<times> 's" where
  "other_branches env base w f s =
     (case (if running_fetches f > 0 then fetch_joined w else None) of
        Some joined \<Rightarrow> on_fetch_joined base joined f s
      | None \<Rightarrow>
          if task_set_is_empty (queries_task_set f) \<and> tick w then on_tick env f s else (Ok (), f, s))"

definition feeder_turn ::
  "('msg, 'h, 'any, 'rx, 's) feeder_env \<Rightarrow> feeder_base \<Rightarrow> 'h feeder_wakeup \<Rightarrow> ('msg, 'h) feeder \<Rightarrow> 's \<Rightarrow>
     unit res \<times> ('msg, 'h) feeder \<times> 's" where
  "feeder_turn env base w f s =
     (if task_set_is_empty (queries_task_set f) then other_branches env base w f s
      else (case join_next (poll_query w) (queries_task_set f) of
          Inl e \<Rightarrow> (Inl e, f, s)
        | Inr (Ready (Some (pair, joined)), ts) \<Rightarrow>
            on_query_joined env base pair joined (f\<lparr>queries_task_set := ts\<rparr>) s
        | Inr (_, ts) \<Rightarrow> other_branches env base w (f\<lparr>queries_task_set := ts\<rparr>) s))"

text \<open>
  Before the loop: the messages are built, the block height is taken, and a fresh task
  (not a restarted one) queries every price once to print it.
\<close>

fun initial_fetch ::
  "('h \<Rightarrow> price joined option) list \<Rightarrow> (currency_pair, 'h) task_set \<Rightarrow>
     (currency_pair \<times> price res) list res option \<times> (currency_pair, 'h) task_set" where
  "initial_fetch [] ts = (None, ts)"
| "initial_fetch (poll # polls) ts =
     (case join_next poll ts of
        Inl e \<Rightarrow> (Some (Inl e), ts)
      | Inr (Ready None, ts') \<Rightarrow> (Some (Ok []), ts')
      | Inr (Pending, ts') \<Rightarrow> initial_fetch polls ts'
      | Inr (Ready (Some (pair, joined)), ts') \<Rightarrow>
          (case with_context ''Failed to join back price query task!'' joined of
             Inl e \<Rightarrow> (Some (Inl e), ts')
           | Inr result \<Rightarrow>
               (case initial_fetch polls ts' of
                  (r, ts'') \<Rightarrow> (map_option (map_res (Cons (pair, result))) r, ts''))))"

text \<open>
  The result is \<open>None\<close> while the first round of queries has not finished within the given
  wake-ups.  The feeder is what is there so far, if anything is, when the task fails or is
  stopped.
\<close>

definition feeder_start ::
  "('msg, 'h, 'any, 'rx, 's) feeder_env \<Rightarrow> feeder_base \<Rightarrow> (nat \<Rightarrow> 's \<Rightarrow> 's) \<Rightarrow> runnable_state \<Rightarrow>
     ('h \<Rightarrow> price joined option) list \<Rightarrow> oracle_state \<Rightarrow> msg_execute_contract \<Rightarrow> 's \<Rightarrow>
     unit res option \<times> ('msg, 'h) feeder option \<times> 's" where
  "feeder_start env base sleep_for state polls orc template s =
     (case provider_messages_for env orc of
        Inl e \<Rightarrow> (Some (Inl e), None, s)
      | Inr ms \<Rightarrow>
          (case get_dex_block_height env s of
             (Inl e, s1) \<Rightarrow> (Some (Inl e), None, s1)
           | (Inr block_height, s1) \<Rightarrow>
               (let f = \<lparr>feeder_oracle = orc, execute_template = template, query_messages = ms,
                         queries_task_set = task_set_new, price_collection_buffer = [],
                         dex_block_height = block_height, fallback_gas_estimate = 0, running_fetches = 0\<rparr> in
                case state of
                  Restart \<Rightarrow> (Some (Ok ()), Some f, s1)
                | New \<Rightarrow>
                    (case spawn_query_tasks env f s1 of
                       (Inl e, f', s2) \<Rightarrow>
                         (Some (with_context ''Failed to spawn price querying tasks!'' (Inl e)), Some f', s2)
                     | (Inr _, f', s2) \<Rightarrow>
                         (case initial_fetch polls (queries_task_set f') of
                            (None, ts) \<Rightarrow> (None, Some (f'\<lparr>queries_task_set := ts\<rparr>), s2)
                          | (Some (Inl e), ts) \<Rightarrow> (Some (Inl e), Some (f'\<lparr>queries_task_set := ts\<rparr>), s2)
                          | (Some (Inr results), ts) \<Rightarrow>
                              (Some (Ok ()), Some (f'\<lparr>queries_task_set := ts\<rparr>),
                               sleep_for (duration_before_start base) s2))))))"


section \<open>The invariant of the loop\<close>

definition fed_pair :: "fed_price \<Rightarrow> currency_pair" where
  "fed_pair p = CurrencyPair (fed_ticker (price_amount p)) (fed_ticker (price_amount_quote p))"

lemma fed_pair_of [simp]: "fed_pair (fed_price_of pair p) = pair"
  by (cases pair) (simp add: fed_pair_def fed_price_of_def)

text \<open>The pairs of the current round: still queried, or with their price in the buffer.\<close>

definition round_pairs :: "('msg, 'h) feeder \<Rightarrow> currency_pair multiset" where
  "round_pairs f = task_ids (queries_task_set f) + mset (map fed_pair (price_collection_buffer f))"

definition feeder_inv :: "feeder_base \<Rightarrow> ('msg, 'h) feeder \<Rightarrow> bool" where
  "feeder_inv base f \<longleftrightarrow>
     task_set_wf (queries_task_set f) \<and> bt_wf (query_messages f) \<and>
     round_pairs f \<subseteq># mset (map fst (query_messages f)) \<and>
     (tasks (queries_task_set f) = [] \<longrightarrow> price_collection_buffer f = []) \<and>
     fallback_gas_estimate f \<le> feeder_hard_gas_limit base \<and>
     msg_bytes (execute_template f) = []"

lemma spawn_all_ids:
  "spawn_all env ms ts s = (ts', s') \<Longrightarrow> task_set_wf ts \<Longrightarrow>
     task_set_wf ts' \<and> task_ids ts' = task_ids ts + mset (map fst ms)"
proof (induction env ms ts s rule: spawn_all.induct)
  case (2 env pair message ms ts s)
  obtain handle s1 where "spawn_query env pair message s = (handle, s1)" by fastforce
  with 2 show ?case by (auto simp: add_handle_def task_set_wf_def task_ids_def)
qed simp

lemma apply_template_keeps:
  "apply_template to_vec any template m = (r, template') \<Longrightarrow> msg_bytes template = [] \<Longrightarrow> template' = template"
  by (cases "to_vec m" rule: panics.cases) (auto simp: apply_template_def apply_raw_def Let_def)

lemma send_for_broadcast_keeps:
  assumes "send_for_broadcast env base f s = (r, f', s')" and "msg_bytes (execute_template f) = []"
  shows "f' = f"
proof -
  obtain b template where "apply_template (encode_prices env) (encode_any env) (execute_template f)
      (price_collection_buffer f) = (b, template)" by fastforce
  with apply_template_keeps [OF this assms(2)] assms(1) show ?thesis
    by (auto simp: send_for_broadcast_def Let_def split: sum.splits prod.splits)
qed

lemma handle_fetch_delivered_bounded:
  assumes "fallback \<le> feeder_hard_gas_limit base"
  shows "\<exists>f. handle_fetch_delivered_result base fallback result = Ok f \<and> f \<le> feeder_hard_gas_limit base"
proof -
  have "\<exists>f. map_res (\<lambda>adjusted. if adjusted \<le> l then adjusted else l) (adjust_fallback_gas fallback g) = Ok f \<and>
      f \<le> l" for g l
    using adjust_fallback_gas_eq [of fallback g] by auto
  with assms show ?thesis
    by (auto simp: handle_fetch_delivered_result_def Let_def split: sum.split option.split)
qed

text \<open>What the feeder relies on from a provider: its messages form a proper map.\<close>

locale feeding =
  fixes env :: "('msg, 'h, 'any, 'rx, 's) feeder_env"
  assumes messages_wf: "provider_messages_for env orc = Ok ms \<Longrightarrow> bt_wf ms"
begin

lemma spawn_query_tasks_inv:
  assumes "spawn_query_tasks env f s = (Ok u, f', s')" and "feeder_inv base f"
    and "tasks (queries_task_set f) = []"
  shows "feeder_inv base f'" and "round_pairs f' = mset (map fst (query_messages f'))"
    and "price_collection_buffer f' = []" and "dex_block_height f' = dex_block_height f"
proof -
  obtain r orc s1 where upd: "update_currencies_and_pairs (oracle_env env) (feeder_oracle f) s = (r, orc, s1)"
    by (cases "update_currencies_and_pairs (oracle_env env) (feeder_oracle f) s") auto
  with assms(1) obtain updated where r: "r = Ok updated"
    by (cases r) (auto simp: spawn_query_tasks_def)
  with upd assms(1) obtain ms where
    ms: "(if updated then provider_messages_for env orc else Ok (query_messages f)) = Ok ms"
    by (auto simp: spawn_query_tasks_def split: sum.splits)
  obtain ts s2 where sp: "spawn_all env ms (queries_task_set f) s1 = (ts, s2)" by fastforce
  have f': "f' = f\<lparr>feeder_oracle := orc, query_messages := ms, queries_task_set := ts\<rparr>"
    using assms(1) upd r ms sp by (auto simp: spawn_query_tasks_def split: if_splits)
  have wf: "bt_wf ms" using ms assms(2) messages_wf by (auto simp: feeder_inv_def split: if_splits)
  have "task_set_wf (queries_task_set f)" using assms(2) by (simp add: feeder_inv_def)
  from spawn_all_ids [OF sp this] assms(3)
  have ts: "task_set_wf ts" "task_ids ts = mset (map fst ms)" by (simp_all add: task_ids_def)
  show buffer: "price_collection_buffer f' = []" using assms(2,3) f' by (simp add: feeder_inv_def)
  show round: "round_pairs f' = mset (map fst (query_messages f'))"
    using buffer f' ts(2) by (simp add: round_pairs_def)
  show "feeder_inv base f'"
    using assms(2) wf ts(1) buffer round f' by (simp add: feeder_inv_def)
  show "dex_block_height f' = dex_block_height f" by (simp add: f')
qed

lemma on_tick_inv:
  assumes "on_tick env f s = (Ok u, f', s')" and "feeder_inv base f" and "tasks (queries_task_set f) = []"
  shows "feeder_inv base f' \<and>
    (f' = f \<or> dex_block_height f < dex_block_height f' \<and> task_ids (queries_task_set f') = mset (map fst (query_messages f')))"
proof -
  from assms(1) obtain h s1 where h: "get_dex_block_height env s = (Ok h, s1)"
    by (auto simp: on_tick_def split: prod.splits sum.splits)
  show ?thesis
  proof (cases "dex_block_height f \<ge> h")
    case False
    let ?f = "f\<lparr>dex_block_height := h\<rparr>"
    from False h assms(1) have "spawn_query_tasks env ?f s1 = (Ok u, f', s')"
      by (auto simp: on_tick_def split: prod.splits)
    from spawn_query_tasks_inv [OF this, of base] assms(2,3) False show ?thesis
      by (auto simp: feeder_inv_def round_pairs_def)
  qed (use h assms in \<open>auto simp: on_tick_def\<close>)
qed

lemma on_fetch_joined_inv:
  assumes "on_fetch_joined base joined f s = (Ok u, f', s')" and "feeder_inv base f"
  shows "feeder_inv base f' \<and> dex_block_height f' = dex_block_height f"
proof -
  from assms(1) obtain result fallback where
    "handle_fetch_delivered_result base (fallback_gas_estimate f) result = Ok fallback"
    "f' = f\<lparr>running_fetches := running_fetches f - 1, fallback_gas_estimate := fallback\<rparr>"
    by (auto simp: on_fetch_joined_def Let_def split: sum.splits)
  with handle_fetch_delivered_bounded [of "fallback_gas_estimate f" base result] assms(2)
  show ?thesis by (auto simp: feeder_inv_def round_pairs_def)
qed

lemma on_query_joined_inv:
  assumes "on_query_joined env base pair joined f s = (Ok u, f', s')"
    and "feeder_inv base (f\<lparr>queries_task_set := ts\<rparr>)"
    and "task_set_wf (queries_task_set f)" and "task_ids ts = add_mset pair (task_ids (queries_task_set f))"
  shows "feeder_inv base f' \<and> dex_block_height f' = dex_block_height f"
proof -
  from assms(1) obtain result where joined: "joined = Ok result"
    by (cases joined) (auto simp: on_query_joined_def Let_def split: if_splits sum.splits)
  define g where "g = f\<lparr>price_collection_buffer :=
    handle_price_query_result pair result (price_collection_buffer f)\<rparr>"
  have "round_pairs g \<subseteq># round_pairs (f\<lparr>queries_task_set := ts\<rparr>)"
    using assms(4) by (cases result) (simp_all add: g_def round_pairs_def)
  then have sub: "round_pairs g \<subseteq># mset (map fst (query_messages g))"
    using assms(2) by (auto simp: feeder_inv_def g_def intro: subset_mset.order_trans)
  have template: "msg_bytes (execute_template g) = []" using assms(2) by (simp add: feeder_inv_def g_def)
  have turn: "on_query_joined env base pair joined f s =
      (if task_set_is_empty (queries_task_set g) \<and> price_collection_buffer g \<noteq> []
       then (case send_for_broadcast env base g s of
           (Inl e, f', s') \<Rightarrow> (Inl e, f', s')
         | (Inr rx, f', s') \<Rightarrow>
             (Ok (), f'\<lparr>price_collection_buffer := [], running_fetches := Suc (running_fetches f')\<rparr>,
              spawn_fetch env rx s'))
       else (Ok (), g, s))"
    using joined by (simp add: on_query_joined_def g_def Let_def)
  show ?thesis
  proof (cases "task_set_is_empty (queries_task_set g) \<and> price_collection_buffer g \<noteq> []")
    case True
    with turn assms(1) obtain rx f1 s1 where "send_for_broadcast env base g s = (Ok rx, f1, s1)"
      and f': "f' = f1\<lparr>price_collection_buffer := [], running_fetches := Suc (running_fetches f1)\<rparr>"
      by (auto split: prod.splits sum.splits)
    from send_for_broadcast_keeps [OF this(1) template] have "f1 = g" .
    moreover have "round_pairs f' \<subseteq># round_pairs g"
      using f' \<open>f1 = g\<close> by (simp add: round_pairs_def)
    ultimately show ?thesis
      using sub assms(2,3) f' by (auto simp: feeder_inv_def g_def intro: subset_mset.order_trans)
  next
    case False
    then have "(Ok u, f', s') = (Ok (), g, s)" unfolding assms(1) [symmetric] turn by (rule if_not_P)
    then have "f' = g" by simp
    with False sub assms(2,3) show ?thesis
      by (auto simp: feeder_inv_def g_def task_set_is_empty_def)
  qed
qed

lemma other_branches_inv:
  assumes "other_branches env base w f s = (Ok u, f', s')" and "feeder_inv base f"
  shows "feeder_inv base f' \<and> dex_block_height f \<le> dex_block_height f' \<and>
    (tasks (queries_task_set f) = [] \<and> tasks (queries_task_set f') \<noteq> [] \<longrightarrow>
      dex_block_height f < dex_block_height f' \<and> task_ids (queries_task_set f') = mset (map fst (query_messages f')))"
proof (cases "if running_fetches f > 0 then fetch_joined w else None")
  case None
  then show ?thesis
    using assms on_tick_inv [of f s u f' s' base]
    by (auto simp: other_branches_def task_set_is_empty_def split: if_splits)
next
  case (Some joined)
  then have joined: "on_fetch_joined base joined f s = (Ok u, f', s')"
    using assms(1) by (simp add: other_branches_def)
  then have "queries_task_set f' = queries_task_set f"
    by (auto simp: on_fetch_joined_def Let_def split: sum.splits)
  with on_fetch_joined_inv [OF joined assms(2)] show ?thesis by simp
qed

lemma feeder_turn_inv:
  assumes "feeder_turn env base w f s = (Ok u, f', s')" and "feeder_inv base f"
  shows "feeder_inv base f' \<and> dex_block_height f \<le> dex_block_height f' \<and>
    (tasks (queries_task_set f) = [] \<and> tasks (queries_task_set f') \<noteq> [] \<longrightarrow>
      dex_block_height f < dex_block_height f' \<and> task_ids (queries_task_set f') = mset (map fst (query_messages f')))"
proof (cases "task_set_is_empty (queries_task_set f)")
  case True
  with assms(1) have "other_branches env base w f s = (Ok u, f', s')" by (simp add: feeder_turn_def)
  from other_branches_inv [OF this assms(2)] show ?thesis .
next
  case False
  have wf: "task_set_wf (queries_task_set f)" using assms(2) by (simp add: feeder_inv_def)
  obtain out ts where join: "join_next (poll_query w) (queries_task_set f) = Ok (out, ts)"
    by (rule join_next_returns [OF wf])
  note ids = join_next_ids [OF wf join]
  show ?thesis
  proof (cases "\<exists>pair joined. out = Ready (Some (pair, joined))")
    case True
    then obtain pair joined where out: "out = Ready (Some (pair, joined))" by blast
    with assms(1) False join have
      "on_query_joined env base pair joined (f\<lparr>queries_task_set := ts\<rparr>) s = (Ok u, f', s')"
      by (simp add: feeder_turn_def)
    from on_query_joined_inv [OF this, of "queries_task_set f"] ids(1,2) out assms(2) False
    show ?thesis by (simp add: task_set_is_empty_def)
  next
    case none: False
    then have "ts = queries_task_set f" by (rule ids(3))
    with none assms(1) False join have "other_branches env base w f s = (Ok u, f', s')"
      by (auto simp: feeder_turn_def split: poll.splits option.splits prod.splits)
    from other_branches_inv [OF this assms(2)] show ?thesis .
  qed
qed

lemma initial_fetch_empties:
  "initial_fetch polls ts = (Some (Ok results), ts') \<Longrightarrow> task_set_wf ts \<Longrightarrow>
     task_set_wf ts' \<and> tasks ts' = []"
proof (induction polls arbitrary: ts results)
  case (Cons poll polls)
  obtain out ts1 where join: "join_next poll ts = Ok (out, ts1)"
    by (rule join_next_returns [OF Cons.prems(2)])
  have wf1: "task_set_wf ts1" by (rule join_next_wf [OF Cons.prems(2) join])
  consider "out = Pending" | "out = Ready None" | pair joined where "out = Ready (Some (pair, joined))"
    by (metis option.exhaust poll.exhaust prod.exhaust)
  then show ?case
  proof cases
    case 1
    with Cons join wf1 show ?thesis by auto
  next
    case 2
    with join have "tasks ts = [] \<and> ts1 = ts"
      by (auto simp: join_next_def split: if_splits option.splits)
    with Cons.prems join wf1 2 show ?thesis by simp
  next
    case 3
    obtain r ts2 where rest: "initial_fetch polls ts1 = (r, ts2)" by fastforce
    with Cons.prems(1) join 3 obtain results' where "r = Some (Ok results')" "ts2 = ts'"
      by (cases joined rule: panics.cases) auto
    with Cons.IH rest wf1 show ?thesis by blast
  qed
qed simp

lemma feeder_start_inv:
  assumes "feeder_start env base sleep_for state polls orc template s = (Some (Ok u), Some f, s')"
    and "msg_bytes template = []"
  shows "feeder_inv base f \<and> tasks (queries_task_set f) = []"
proof -
  from assms(1) obtain ms h s1 where ms: "provider_messages_for env orc = Ok ms"
    and h: "get_dex_block_height env s = (Ok h, s1)"
    by (auto simp: feeder_start_def split: sum.splits prod.splits)
  define f0 :: "('msg, 'h) feeder" where "f0 = \<lparr>feeder_oracle = orc, execute_template = template, query_messages = ms,
      queries_task_set = task_set_new, price_collection_buffer = [],
      dex_block_height = h, fallback_gas_estimate = 0, running_fetches = 0\<rparr>"
  have inv0: "feeder_inv base f0" and empty0: "tasks (queries_task_set f0) = []"
    using messages_wf [OF ms] assms(2)
    by (simp_all add: f0_def feeder_inv_def round_pairs_def task_set_new_def task_set_wf_def task_ids_def)
  show ?thesis
  proof (cases state)
    case Restart
    with assms(1) ms h have "f = f0" by (simp add: feeder_start_def f0_def)
    with inv0 empty0 show ?thesis by simp
  next
    case New
    with assms(1) ms h obtain u f1 s2 where sp: "spawn_query_tasks env f0 s1 = (Ok u, f1, s2)"
      by (auto simp: feeder_start_def f0_def Let_def split: sum.splits prod.splits)
    with assms(1) ms h New obtain results ts where
      fetch: "initial_fetch polls (queries_task_set f1) = (Some (Ok results), ts)"
      and f: "f = f1\<lparr>queries_task_set := ts\<rparr>"
      by (auto simp: feeder_start_def f0_def Let_def split: sum.splits prod.splits option.splits)
    note inv1 = spawn_query_tasks_inv [OF sp inv0 empty0]
    from initial_fetch_empties [OF fetch] inv1(1,3) f show ?thesis
      by (simp add: feeder_inv_def round_pairs_def task_ids_def)
  qed
qed

end

text \<open>Both providers build their messages with \<open>collect\<close>.\<close>

definition osmosis_feeder_env ::
  "(osmosis_query_message, 'h, 'any, 'rx, 's) feeder_env \<Rightarrow> (osmosis_query_message, 'h, 'any, 'rx, 's) feeder_env"
where
  "osmosis_feeder_env base = base\<lparr>provider_messages_for := osmosis_price_query_messages\<rparr>"

definition astroport_feeder_env ::
  "(query_msg \<Rightarrow> string res) \<Rightarrow> (astroport_query_message, 'h, 'any, 'rx, 's) feeder_env \<Rightarrow>
     (astroport_query_message, 'h, 'any, 'rx, 's) feeder_env" where
  "astroport_feeder_env to_vec base = base\<lparr>provider_messages_for := astroport_price_query_messages to_vec\<rparr>"

interpretation osmosis_feeding: feeding "osmosis_feeder_env base"
  for base :: "(osmosis_query_message, 'h, 'any, 'rx, 's) feeder_env"
  by unfold_locales (auto simp: osmosis_feeder_env_def osmosis_price_query_messages_def)

interpretation astroport_feeding: feeding "astroport_feeder_env to_vec base"
  for to_vec and base :: "(astroport_query_message, 'h, 'any, 'rx, 's) feeder_env"
  by unfold_locales (auto simp: astroport_feeder_env_def astroport_price_query_messages_def)


section \<open>Rounds\<close>

inductive feeder_reachable ::
  "('msg, 'h, 'any, 'rx, 's) feeder_env \<Rightarrow> feeder_base \<Rightarrow> ('msg, 'h) feeder \<Rightarrow> bool"
  for env :: "('msg, 'h, 'any, 'rx, 's) feeder_env" and base :: feeder_base where
  started: "feeder_start env base sleep_for state polls orc template s = (Some (Ok u), Some f, s') \<Longrightarrow>
    msg_bytes template = [] \<Longrightarrow> feeder_reachable env base f"
| turn: "feeder_reachable env base f \<Longrightarrow> feeder_turn env base w f s = (Ok u, f', s') \<Longrightarrow>
    feeder_reachable env base f'"

lemma feeder_reachable_inv: "feeding env \<Longrightarrow> feeder_reachable env base f \<Longrightarrow> feeder_inv base f"
proof (rotate_tac, induction rule: feeder_reachable.induct)
  case (started sleep_for state polls orc template s u f s')
  from feeding.feeder_start_inv [OF started(3,1,2)] show ?case by simp
next
  case (turn f w s u f' s')
  from feeding.feeder_turn_inv [OF turn(4,2)] turn show ?case by simp
qed

lemma distinct_submset:
  assumes "mset xs \<subseteq># mset ys" and "distinct ys"
  shows "distinct xs"
proof -
  obtain zs where "mset ys = mset (xs @ zs)"
    using assms(1) by (metis ex_mset mset_append subset_mset.less_eqE)
  with assms(2) have "distinct (xs @ zs)" by (metis mset_eq_imp_distinct_iff)
  then show ?thesis by simp
qed

lemma inv_distinct:
  assumes "feeder_inv base f"
  shows "distinct (map fst (tasks (queries_task_set f)) @ map fed_pair (price_collection_buffer f))"
    and "set (map fst (tasks (queries_task_set f)) @ map fed_pair (price_collection_buffer f))
      \<subseteq> fst ` set (query_messages f)"
proof -
  let ?xs = "map fst (tasks (queries_task_set f)) @ map fed_pair (price_collection_buffer f)"
  let ?keys = "map fst (query_messages f)"
  have sub: "mset ?xs \<subseteq># mset ?keys" using assms by (simp add: feeder_inv_def round_pairs_def task_ids_def)
  have "distinct ?keys" using assms by (simp add: feeder_inv_def bt_wf_distinct)
  with sub show "distinct ?xs" by (rule distinct_submset)
  show "set ?xs \<subseteq> fst ` set (query_messages f)"
    using set_mset_mono [OF sub] by simp
qed

text \<open>
  C8: at every turn of the feeding loop, the pairs of the current round are distinct pairs
  the provider was configured for, each either still queried or collected; between rounds
  no price is left over; and the estimate of the fallback gas is within the hard limit.
\<close>

theorem feeder_round_invariant:
  assumes "feeding env" and "feeder_reachable env base f"
  shows "distinct (map fst (tasks (queries_task_set f)) @ map fed_pair (price_collection_buffer f)) \<and>
    set (map fst (tasks (queries_task_set f)) @ map fed_pair (price_collection_buffer f))
      \<subseteq> fst ` set (query_messages f) \<and>
    (tasks (queries_task_set f) = [] \<longrightarrow> price_collection_buffer f = []) \<and>
    fallback_gas_estimate f \<le> feeder_hard_gas_limit base"
proof -
  have inv: "feeder_inv base f" by (rule feeder_reachable_inv [OF assms])
  with inv_distinct [OF inv] show ?thesis by (simp add: feeder_inv_def)
qed

text \<open>
  C21: the block height the feeder has seen never decreases, and a new round of queries,
  one per configured pair, starts only when the DEX reported a strictly higher block.
\<close>

theorem queries_need_new_block:
  assumes "feeding env" and "feeder_reachable env base f"
    and "feeder_turn env base w f s = (Ok u, f', s')"
  shows "dex_block_height f \<le> dex_block_height f' \<and>
    (tasks (queries_task_set f) = [] \<and> tasks (queries_task_set f') \<noteq> [] \<longrightarrow>
      dex_block_height f < dex_block_height f' \<and>
      mset (map fst (tasks (queries_task_set f'))) = mset (map fst (query_messages f')))"
proof -
  note inv = feeder_reachable_inv [OF assms(1,2)]
  note turn = feeding.feeder_turn_inv [OF assms(1,3) inv]
  from turn show ?thesis by (simp add: task_ids_def)
qed


section \<open>What is sent\<close>

text \<open>\<open>sent\<close> lists the packages sent so far; no other call of the loop adds to it.\<close>

definition sends_logged ::
  "('msg, 'h, 'any, 'rx, 's) feeder_env \<Rightarrow> ('s \<Rightarrow> 'any tx_body tx_package list) \<Rightarrow> bool" where
  "sends_logged env sent \<longleftrightarrow>
     (\<forall>pkg s. sent (snd (send_tx env pkg s)) = sent s @ [pkg]) \<and>
     (\<forall>s. sent (snd (dex_syncing env s)) = sent s) \<and>
     (\<forall>s. sent (snd (dex_latest_block env s)) = sent s) \<and>
     (\<forall>pair m s. sent (snd (spawn_query env pair m s)) = sent s) \<and>
     (\<forall>rx s. sent (spawn_fetch env rx s) = sent s) \<and>
     (\<forall>a m s. sent (snd (smart_currencies (oracle_env env) a m s)) = sent s) \<and>
     (\<forall>a m s. sent (snd (smart_currency_pairs (oracle_env env) a m s)) = sent s)"

lemma spawn_all_sent:
  "sends_logged env sent \<Longrightarrow> sent (snd (spawn_all env ms ts s)) = sent s"
proof (induction env ms ts s rule: spawn_all.induct)
  case (2 env pair message ms ts s)
  then have "sent (snd (spawn_query env pair message s)) = sent s" by (simp add: sends_logged_def)
  with 2 show ?case by (auto split: prod.splits)
qed simp

text \<open>What the node's queries keep, the operations built from them keep.\<close>

lemma update_keeps:
  assumes "\<And>a m s. g (snd (smart_currencies (oracle_env env) a m s)) = g s"
    and "\<And>a m s. g (snd (smart_currency_pairs (oracle_env env) a m s)) = g s"
  shows "g (snd (snd (update_currencies_and_pairs (oracle_env env) orc s))) = g s"
proof -
  have c: "g (snd (query_currencies (oracle_env env) a s)) = g s" for a s
    using assms(1) by (simp add: query_currencies_def context_eff_def map_eff_def split: prod.split) (metis snd_conv)
  have p: "g (snd (query_currency_pairs (oracle_env env) a s)) = g s" for a s
    using assms(2) by (simp add: query_currency_pairs_def context_eff_def map_eff_def split: prod.split) (metis snd_conv)
  show ?thesis
    using c [of "contract_address orc" s] p [of "contract_address orc"]
    by (auto simp: update_currencies_and_pairs_def Let_def split: prod.split sum.split) (metis snd_conv)+
qed

lemma get_dex_block_height_keeps:
  assumes "\<And>s. g (snd (dex_syncing env s)) = g s" and "\<And>s. g (snd (dex_latest_block env s)) = g s"
  shows "g (snd (get_dex_block_height env s)) = g s"
  using assms
  by (auto simp: get_dex_block_height_def bind_eff_def lift_eff_def split: prod.split sum.split) (metis snd_conv)+

lemma on_tick_sent:
  assumes "sends_logged env sent"
  shows "sent (snd (snd (on_tick env f s))) = sent s"
proof -
  have h: "sent (snd (get_dex_block_height env s)) = sent s" for s
    using assms by (intro get_dex_block_height_keeps) (simp_all add: sends_logged_def)
  have "sent (snd (snd (update_currencies_and_pairs (oracle_env env) orc s))) = sent s" for orc s
    using assms by (intro update_keeps) (simp_all add: sends_logged_def)
  then have sp: "sent (snd (snd (spawn_query_tasks env f s))) = sent s" for f s
    using spawn_all_sent [OF assms]
    by (auto simp: spawn_query_tasks_def split: prod.split sum.split) (metis snd_conv)+
  show ?thesis
    using h [of s] sp by (auto simp: on_tick_def split: prod.split sum.split) (metis snd_conv)+
qed

definition feeds_prices ::
  "('msg, 'h, 'any, 'rx, 's) feeder_env \<Rightarrow> msg_execute_contract \<Rightarrow> fed_price list \<Rightarrow> 'any tx_body \<Rightarrow> bool"
where
  "feeds_prices env template prices body \<longleftrightarrow>
     (\<exists>bytes any. encode_prices env prices = Ok bytes \<and>
        encode_any env (template\<lparr>msg_bytes := bytes\<rparr>) = Ok any \<and> messages body = [any])"

text \<open>What a turn from \<open>f\<close> may add to the packages sent.\<close>

definition valid_sends ::
  "('msg, 'h, 'any, 'rx, 's) feeder_env \<Rightarrow> feeder_base \<Rightarrow> ('msg, 'h) feeder \<Rightarrow>
     'any tx_body tx_package list \<Rightarrow> 'any tx_body tx_package list \<Rightarrow> bool" where
  "valid_sends env base f before after \<longleftrightarrow> after = before \<or>
     (\<exists>pkg prices. after = before @ [pkg] \<and> feeds_prices env (execute_template f) prices (tx_body pkg) \<and>
        prices \<noteq> [] \<and> distinct (map fed_pair prices) \<and>
        set (map fed_pair prices) \<subseteq> fst ` set (query_messages f) \<and>
        hard_gas_limit pkg = feeder_hard_gas_limit base \<and> fallback_gas pkg \<le> hard_gas_limit pkg)"

lemma send_for_broadcast_sent:
  assumes "sends_logged env sent" and "send_for_broadcast env base f s = (r, f', s')"
  shows "sent s' = sent s \<or> (\<exists>body expires. feeds_prices env (execute_template f) (price_collection_buffer f) body \<and>
    sent s' = sent s @ [price_package base body (fallback_gas_estimate f) expires])"
proof -
  obtain b template where ap: "apply_template (encode_prices env) (encode_any env) (execute_template f)
      (price_collection_buffer f) = (b, template)" by fastforce
  show ?thesis
  proof (cases b)
    case (Inr body)
    with ap have body: "feeds_prices env (execute_template f) (price_collection_buffer f) body"
      by (auto simp: feeds_prices_def apply_template_def apply_raw_def Let_def split: sum.splits)
    have "sent (snd (context_eff m (send_tx env pkg) s)) = sent s @ [pkg]" for m pkg
      using assms(1) by (simp add: sends_logged_def context_eff_def split: prod.split) (metis snd_conv)
    with assms(2) ap Inr body show ?thesis
      by (auto simp: send_for_broadcast_def Let_def split: sum.splits prod.splits) (metis snd_conv)+
  qed (use ap assms(2) in \<open>auto simp: send_for_broadcast_def\<close>)
qed

lemma on_query_joined_sends:
  assumes logged: "sends_logged env sent" and inv: "feeder_inv base f"
    and join: "task_ids (queries_task_set f) = add_mset pair (task_ids ts)"
    and run: "on_query_joined env base pair joined (f\<lparr>queries_task_set := ts\<rparr>) s = (r, f', s')"
  shows "valid_sends env base f (sent s) (sent s')"
proof (cases joined)
  case (Inr result)
  define g where "g = f\<lparr>queries_task_set := ts, price_collection_buffer :=
    handle_price_query_result pair result (price_collection_buffer f)\<rparr>"
  have "mset (map fed_pair (price_collection_buffer g)) \<subseteq># round_pairs f"
    using join by (cases result) (simp_all add: g_def round_pairs_def)
  then have sub: "mset (map fed_pair (price_collection_buffer g)) \<subseteq># mset (map fst (query_messages f))"
    using inv by (auto simp: feeder_inv_def intro: subset_mset.order_trans)
  have "distinct (map fst (query_messages f))" using inv by (simp add: feeder_inv_def bt_wf_distinct)
  with sub have dist: "distinct (map fed_pair (price_collection_buffer g))" by (rule distinct_submset)
  have keys: "set (map fed_pair (price_collection_buffer g)) \<subseteq> fst ` set (query_messages f)"
    using set_mset_mono [OF sub] by simp
  have turn: "(r, f', s') =
      (if task_set_is_empty (queries_task_set g) \<and> price_collection_buffer g \<noteq> []
       then (case send_for_broadcast env base g s of
           (Inl e, f', s') \<Rightarrow> (Inl e, f', s')
         | (Inr rx, f', s') \<Rightarrow>
             (Ok (), f'\<lparr>price_collection_buffer := [], running_fetches := Suc (running_fetches f')\<rparr>,
              spawn_fetch env rx s'))
       else (Ok (), g, s))"
    unfolding run [symmetric] using Inr by (simp add: on_query_joined_def g_def Let_def)
  show ?thesis
  proof (cases "task_set_is_empty (queries_task_set g) \<and> price_collection_buffer g \<noteq> []")
    case True
    obtain r1 f1 s1 where send: "send_for_broadcast env base g s = (r1, f1, s1)"
      by (cases "send_for_broadcast env base g s") auto
    have "sent s' = sent s1"
      using turn True send logged by (cases r1) (simp_all add: sends_logged_def)
    moreover have "execute_template g = execute_template f" "fallback_gas_estimate g = fallback_gas_estimate f"
      by (simp_all add: g_def)
    ultimately show ?thesis
      using send_for_broadcast_sent [OF logged send] True dist keys inv
      by (auto simp: valid_sends_def price_package_def feeder_inv_def)
  next
    case False
    then have "(r, f', s') = (Ok (), g, s)" unfolding turn by (rule if_not_P)
    then show ?thesis by (simp add: valid_sends_def)
  qed
qed (use run in \<open>cases joined; auto simp: on_query_joined_def valid_sends_def split: sum.splits\<close>)

lemma other_branches_sent:
  assumes "sends_logged env sent"
  shows "sent (snd (snd (other_branches env base w f s))) = sent s"
  using on_tick_sent [OF assms]
  by (auto simp: other_branches_def on_fetch_joined_def Let_def split: option.split sum.split)

lemma feeder_turn_valid_sends:
  assumes "feeding env" and "feeder_reachable env base f" and "sends_logged env sent"
    and "feeder_turn env base w f s = (r, f', s')"
  shows "valid_sends env base f (sent s) (sent s')"
proof (cases "task_set_is_empty (queries_task_set f)")
  case True
  with assms(4) have "other_branches env base w f s = (r, f', s')" by (simp add: feeder_turn_def)
  with other_branches_sent [OF assms(3), of base w f s] show ?thesis by (simp add: valid_sends_def)
next
  case False
  have inv: "feeder_inv base f" by (rule feeder_reachable_inv [OF assms(1,2)])
  then have wf: "task_set_wf (queries_task_set f)" by (simp add: feeder_inv_def)
  obtain out ts where join: "join_next (poll_query w) (queries_task_set f) = Ok (out, ts)"
    by (rule join_next_returns [OF wf])
  show ?thesis
  proof (cases "\<exists>pair joined. out = Ready (Some (pair, joined))")
    case True
    then obtain pair joined where out: "out = Ready (Some (pair, joined))" by blast
    with assms(4) False join have
      "on_query_joined env base pair joined (f\<lparr>queries_task_set := ts\<rparr>) s = (r, f', s')"
      by (simp add: feeder_turn_def)
    from on_query_joined_sends [OF assms(3) inv _ this] join_next_ids(2) [OF wf join out]
    show ?thesis by simp
  next
    case none: False
    then have "other_branches env base w (f\<lparr>queries_task_set := ts\<rparr>) s = (r, f', s')"
      using assms(4) False join by (auto simp: feeder_turn_def split: poll.splits option.splits)
    with other_branches_sent [OF assms(3), of base w "f\<lparr>queries_task_set := ts\<rparr>" s] show ?thesis
      by (simp add: valid_sends_def)
  qed
qed



section \<open>A small market\<close>

text \<open>One pair; every query answers at once; the state is the packages sent and the block.\<close>

definition example_pair :: currency_pair where
  "example_pair = CurrencyPair ''NLS'' ''USDC''"

definition example_price :: price where
  "example_price = (Amount (decimal_new ''100'' 2), Amount (decimal_new ''7'' 2))"

type_synonym market = "string tx_body tx_package list \<times> u64"

definition example_market_queries :: "market oracle_queries" where
  "example_market_queries =
     \<lparr>smart_version = \<lambda>_ _ s. (Ok (SemVer 0 5 15), s), smart_currencies = \<lambda>_ _ s. (Ok [], s),
      smart_currency_pairs = \<lambda>_ _ s. (Ok [], s), instant_now = \<lambda>_. 0\<rparr>"

definition example_market :: "(unit, unit, string, unit, market) feeder_env" where
  "example_market =
     \<lparr>provider_messages_for = \<lambda>_. Ok [(example_pair, ())], oracle_env = example_market_queries,
      dex_syncing = \<lambda>s. (Ok False, s), dex_latest_block = \<lambda>(sent, b). (Ok b, (sent, b + 1)),
      spawn_query = \<lambda>_ _ s. ((), s), encode_prices = \<lambda>ps. Ok (concat (map (fed_amount \<circ> price_amount) ps)),
      encode_any = \<lambda>m. Ok (msg_bytes m), send_tx = \<lambda>pkg (sent, b). (Ok (), (sent @ [pkg], b)),
      spawn_fetch = \<lambda>_ s. s, instant_after = \<lambda>d _. Ok d\<rparr>"

definition example_base :: feeder_base where
  "example_base =
     \<lparr>feeder_protocol = ''P'', feeder_source = ''Osmosis; Protocol=P'', duration_before_start = 0,
      feeder_idle_duration = 5, feeder_timeout_duration = 60, feeder_hard_gas_limit = 1000\<rparr>"

definition example_wakeup :: "unit feeder_wakeup" where
  "example_wakeup = \<lparr>poll_query = \<lambda>_. Some (Ok (Ok example_price)), fetch_joined = None, tick = True\<rparr>"

definition example_feeder :: "u64 \<Rightarrow> (unit, unit) feeder" where
  "example_feeder b =
     \<lparr>feeder_oracle = example_oracle, execute_template = execute_template_new ''a'' ''b'',
      query_messages = [(example_pair, ())], queries_task_set = task_set_new,
      price_collection_buffer = [], dex_block_height = b, fallback_gas_estimate = 0, running_fetches = 0\<rparr>"

interpretation example_feeding: feeding example_market
  by unfold_locales (auto simp: example_market_def bt_wf_def)

lemma example_logged: "sends_logged example_market fst"
  by (auto simp: sends_logged_def example_market_def example_market_queries_def)

lemmas feeder_eval = example_market_def example_market_queries_def example_feeder_def example_base_def
  example_wakeup_def get_dex_block_height_def bind_eff_def task_set_is_empty_def task_set_new_def
  update_currencies_and_pairs_def example_oracle_def add_handle_def

lemma example_start:
  "feeder_start example_market example_base (\<lambda>_ s. s) Restart [] example_oracle
     (execute_template_new ''a'' ''b'') ([], 1) = (Some (Ok ()), Some (example_feeder 1), ([], 2))"
  by (simp add: feeder_start_def feeder_eval)

abbreviation example_querying :: "(unit, unit) feeder" where
  "example_querying \<equiv> (example_feeder 2)\<lparr>queries_task_set := add_handle example_pair () task_set_new\<rparr>"

lemma example_tick:
  "feeder_turn example_market example_base example_wakeup (example_feeder 1) ([], 2) =
     (Ok (), example_querying, ([], 3))"
  by (simp add: feeder_turn_def other_branches_def on_tick_def spawn_query_tasks_def feeder_eval
      word_le_nat_alt)

lemma example_market_reachable:
  "feeder_reachable example_market example_base (example_feeder 1)"
  "feeder_reachable example_market example_base example_querying"
proof -
  show "feeder_reachable example_market example_base (example_feeder 1)"
    by (rule feeder_reachable.started [OF example_start]) (simp add: execute_template_new_def)
  then show "feeder_reachable example_market example_base example_querying"
    by (rule feeder_reachable.turn [OF _ example_tick])
qed

theorem feeder_round_invariant_witness:
  "distinct (map fst (tasks (queries_task_set example_querying)) @
      map fed_pair (price_collection_buffer example_querying)) \<and>
    fallback_gas_estimate example_querying \<le> feeder_hard_gas_limit example_base"
  using feeder_round_invariant [OF example_feeding.feeding_axioms example_market_reachable(2)] by blast

theorem queries_need_new_block_witness:
  "dex_block_height (example_feeder 1) < dex_block_height example_querying"
  using queries_need_new_block [OF example_feeding.feeding_axioms example_market_reachable(1) example_tick]
  by (simp add: feeder_eval)

lemma example_send:
  "\<exists>f' pkg. feeder_turn example_market example_base example_wakeup example_querying ([], 3) =
     (Ok (), f', ([pkg], 3))"
  by (simp add: feeder_turn_def join_next_def swap_remove_def on_query_joined_def send_for_broadcast_def
      apply_template_def apply_raw_def context_eff_def fed_price_of_def example_price_def feeder_eval)


end
