(* ===== verification/Protocol_Watcher.thy ===== *)
theory Protocol_Watcher
  imports Task
begin

text \<open>
  \<open>chain-ops/src/task/protocol_watcher.rs\<close>: the task that compares the protocols the admin
  contract knows with the ones tasks run for, and sends the supervisor one command per
  difference.  The query of the contract, the channel and the sleep are parameters.
\<close>

section \<open>Data and operations\<close>

datatype command = ProtocolAdded string | ProtocolRemoved string

definition IDLE_DURATION_secs :: nat where
  "IDLE_DURATION_secs = 15"

definition protocols_diff_commands :: "string btree_set \<Rightarrow> string btree_set \<Rightarrow> command list" where
  "protocols_diff_commands protocols active_protocols =
     map ProtocolAdded (bs_difference active_protocols protocols) @
     map ProtocolRemoved (bs_difference protocols active_protocols)"

text \<open>The protocols that the application-defined tasks of the supervisor belong to.\<close>

fun id_protocol :: "('a \<Rightarrow> string option) \<Rightarrow> 'a task_id \<Rightarrow> string option" where
  "id_protocol protocol (IdApplicationDefined a) = protocol a"
| "id_protocol protocol i = None"

definition protocol_watcher_new ::
  "('a \<Rightarrow> string option) \<Rightarrow> ('a task_id, 'tok task_state) btree_map \<Rightarrow> string btree_set" where
  "protocol_watcher_new protocol task_states =
     bs_collect (List.map_filter (id_protocol protocol) (map fst task_states))"

text \<open>\<open>BTreeSet::insert\<close> with the assertion that the element was not present.\<close>

fun watch_command :: "command \<Rightarrow> string btree_set \<Rightarrow> string btree_set res" where
  "watch_command (ProtocolAdded protocol) protocol_tasks =
     map_res (\<lambda>_. bs_insert protocol protocol_tasks)
       (assert_or_panic ''assertion failed: self.protocol_tasks.insert(protocol.clone())''
          (\<not> bs_contains protocol_tasks protocol))"
| "watch_command (ProtocolRemoved protocol) protocol_tasks = Ok (bs_remove protocol protocol_tasks)"

fun send_commands ::
  "(command \<Rightarrow> ('s, unit) eff) \<Rightarrow> command list \<Rightarrow> string btree_set \<Rightarrow> 's \<Rightarrow>
     unit res \<times> string btree_set \<times> 's" where
  "send_commands send [] protocol_tasks s = (Ok (), protocol_tasks, s)"
| "send_commands send (command # commands) protocol_tasks s =
     (case watch_command command protocol_tasks of
        Inl e \<Rightarrow> (Inl e, protocol_tasks, s)
      | Inr protocol_tasks' \<Rightarrow>
          (case send command s of
             (Inl e, s') \<Rightarrow> (Inl e, protocol_tasks', s')
           | (Inr _, s') \<Rightarrow> send_commands send commands protocol_tasks' s'))"

text \<open>One round of the loop, and the loop, which only ends with a failure.\<close>

definition watch_round ::
  "('s, string list) eff \<Rightarrow> (command \<Rightarrow> ('s, unit) eff) \<Rightarrow> string btree_set \<Rightarrow> 's \<Rightarrow>
     unit res \<times> string btree_set \<times> 's" where
  "watch_round protocols send protocol_tasks s =
     (case context_eff ''Failed to fetch protocols!'' protocols s of
        (Inl e, s') \<Rightarrow> (Inl e, protocol_tasks, s')
      | (Inr active, s') \<Rightarrow>
          send_commands send (protocols_diff_commands protocol_tasks (bs_collect active))
            protocol_tasks s')"

partial_function (option) protocol_watcher_run ::
  "('s, string list) eff \<Rightarrow> (command \<Rightarrow> ('s, unit) eff) \<Rightarrow> (nat \<Rightarrow> 's \<Rightarrow> 's) \<Rightarrow> string btree_set \<Rightarrow> 's \<Rightarrow>
     (failure \<times> string btree_set \<times> 's) option" where
  "protocol_watcher_run protocols send sleep_secs protocol_tasks s =
     (case watch_round protocols send protocol_tasks s of
        (Inl e, protocol_tasks', s') \<Rightarrow> Some (e, protocol_tasks', s')
      | (Inr _, protocol_tasks', s') \<Rightarrow>
          protocol_watcher_run protocols send sleep_secs protocol_tasks' (sleep_secs IDLE_DURATION_secs s'))"


section \<open>The commands make the watched set follow the contract\<close>

lemma watch_added_Ok:
  "p \<notin> set ps \<Longrightarrow> watch_command (ProtocolAdded p) ps = Ok (bs_insert p ps)"
  by (simp add: assert_or_panic_def bs_contains_def)

text \<open>A run over commands that add new elements only, then remove.\<close>

lemma send_added:
  assumes "distinct ps" and "set ps \<inter> set tasks = {}"
    and "\<forall>c s. \<exists>s'. send c s = (Ok (), s') \<and> sent s' = sent s @ [c]" and "bs_wf tasks"
  shows "\<exists>tasks' s'. bs_wf tasks' \<and> set tasks' = set ps \<union> set tasks \<and>
    sent s' = sent s @ map ProtocolAdded ps \<and>
    send_commands send (map ProtocolAdded ps @ cs) tasks s = send_commands send cs tasks' s'"
  using assms(1,2,4)
proof (induction ps arbitrary: tasks s)
  case (Cons p ps)
  obtain s1 where s1: "send (ProtocolAdded p) s = (Ok (), s1)" "sent s1 = sent s @ [ProtocolAdded p]"
    using assms(3) by blast
  have "p \<notin> set tasks" using Cons.prems(2) by simp
  note watch_added_Ok [OF this]
  moreover obtain tasks' s' where "bs_wf tasks'" "set tasks' = set ps \<union> set (bs_insert p tasks)"
      "sent s' = sent s1 @ map ProtocolAdded ps"
      "send_commands send (map ProtocolAdded ps @ cs) (bs_insert p tasks) s1 = send_commands send cs tasks' s'"
    using Cons.IH [of "bs_insert p tasks" s1] Cons.prems by (auto simp: bs_wf_insert)
  ultimately show ?case using s1 by (auto simp del: watch_command.simps)
qed auto

lemma send_removed:
  assumes "\<forall>c s. \<exists>s'. send c s = (Ok (), s') \<and> sent s' = sent s @ [c]" and "bs_wf tasks"
  shows "\<exists>tasks' s'. bs_wf tasks' \<and> set tasks' = set tasks - set ps \<and>
    sent s' = sent s @ map ProtocolRemoved ps \<and>
    send_commands send (map ProtocolRemoved ps) tasks s = (Ok (), tasks', s')"
  using assms(2)
proof (induction ps arbitrary: tasks s)
  case (Cons p ps)
  obtain s1 where s1: "send (ProtocolRemoved p) s = (Ok (), s1)" "sent s1 = sent s @ [ProtocolRemoved p]"
    using assms(1) by blast
  with Cons.IH [of "bs_remove p tasks" s1] Cons.prems show ?case by (auto simp: bs_wf_remove)
qed auto

lemma watch_round_sends:
  assumes "bs_wf protocol_tasks" and "protocols s = (Ok active, s1)"
    and "\<forall>c s. \<exists>s'. send c s = (Ok (), s') \<and> sent s' = sent s @ [c]"
  shows "\<exists>s'. watch_round protocols send protocol_tasks s = (Ok (), bs_collect active, s') \<and>
    sent s' = sent s1 @ protocols_diff_commands protocol_tasks (bs_collect active)"
proof -
  define added where "added = bs_difference (bs_collect active) protocol_tasks"
  define removed where "removed = bs_difference protocol_tasks (bs_collect active)"
  have sets: "set added = set active - set protocol_tasks" "set removed = set protocol_tasks - set active"
    by (simp_all add: added_def removed_def)
  have dist: "distinct added" by (simp add: added_def bs_wf_distinct bs_wf_difference)
  obtain tasks1 s2 where 1: "bs_wf tasks1" "set tasks1 = set added \<union> set protocol_tasks"
      "sent s2 = sent s1 @ map ProtocolAdded added"
      "send_commands send (map ProtocolAdded added @ map ProtocolRemoved removed) protocol_tasks s1 =
         send_commands send (map ProtocolRemoved removed) tasks1 s2"
    using send_added [OF dist _ assms(3,1), where s = s1 and cs = "map ProtocolRemoved removed"] sets by blast
  obtain tasks2 s3 where 2: "bs_wf tasks2" "set tasks2 = set tasks1 - set removed"
      "sent s3 = sent s2 @ map ProtocolRemoved removed"
      "send_commands send (map ProtocolRemoved removed) tasks1 s2 = (Ok (), tasks2, s3)"
    using send_removed [OF assms(3) 1(1), of removed s2] by blast
  have "tasks2 = bs_collect active"
    by (rule bs_wf_unique) (use 1 2 sets in auto)
  moreover have "watch_round protocols send protocol_tasks s = (Ok (), tasks2, s3)"
    using assms(2) 1(4) 2(4)
    by (simp add: watch_round_def context_eff_def protocols_diff_commands_def added_def removed_def)
  ultimately show ?thesis
    using 1(3) 2(3) by (simp add: protocols_diff_commands_def added_def removed_def)
qed

text \<open>
  C28: when the contract is reachable and the channel open, one round sends exactly one
  command per protocol that appeared or disappeared, appearances first, never fails the
  assertion that an added protocol is new, and leaves the watcher with exactly the
  protocols the contract reported.
\<close>

theorem watch_round_follows_contract:
  assumes "bs_wf protocol_tasks" and "protocols s = (Ok active, s1)"
    and "\<forall>c s. \<exists>s'. send c s = (Ok (), s') \<and> sent s' = sent s @ [c]"
  shows "\<exists>s' added removed.
    watch_round protocols send protocol_tasks s = (Ok (), bs_collect active, s') \<and>
    sent s' = sent s1 @ map ProtocolAdded added @ map ProtocolRemoved removed \<and>
    distinct added \<and> set added = set active - set protocol_tasks \<and>
    distinct removed \<and> set removed = set protocol_tasks - set active"
proof -
  let ?added = "bs_difference (bs_collect active) protocol_tasks"
  let ?removed = "bs_difference protocol_tasks (bs_collect active)"
  have "distinct ?added" "distinct ?removed"
    using assms(1) by (simp_all add: bs_wf_distinct bs_wf_difference)
  moreover have "set ?added = set active - set protocol_tasks" "set ?removed = set protocol_tasks - set active"
    by simp_all
  ultimately show ?thesis
    using watch_round_sends [where protocols = protocols and send = send, OF assms] unfolding protocols_diff_commands_def by blast
qed

theorem watch_round_follows_contract_witness:
  "\<exists>s' added removed.
    watch_round (\<lambda>s. (Ok [''B'', ''C''], s)) (\<lambda>c s. (Ok (), s @ [c])) [''A'', ''B''] [] =
      (Ok (), bs_collect [''B'', ''C''], s') \<and>
    s' = map ProtocolAdded added @ map ProtocolRemoved removed \<and>
    distinct added \<and> set added = {''C''} \<and> distinct removed \<and> set removed = {''A''}"
proof -
  have "bs_wf [''A'', ''B'']" by (simp add: bs_wf_def)
  from watch_round_follows_contract [OF this, of "\<lambda>s. (Ok [''B'', ''C''], s)" "[]" "[''B'', ''C'']" "[]"
      "\<lambda>c s. (Ok (), s @ [c])" "\<lambda>s. s"]
  show ?thesis by (simp add: insert_Diff_if)
qed

end
