(* ===== verification/Supervisor.thy ===== *)
theory Supervisor
  imports Protocol_Watcher
begin

text \<open>
  \<open>chain-ops/src/supervisor/mod.rs\<close> with \<open>Task::run\<close> of \<open>chain-ops/src/task/mod.rs\<close>: starting the
  built-in and the application-defined tasks, restarting those that exit, deferring
  those that keep failing, and following the commands of the protocol watcher.

  The spawner, the clock, the channels, the application's task constructor and the
  channel of task results are parameters over a state \<open>'s\<close>.  A cancellation token is
  dropped, and the run it belongs to aborted, where the code drops the state that owns
  it.  Receiving a task result may block for ever: then an operation has the value
  \<open>None\<close>.
\<close>

section \<open>State and environment\<close>

datatype task_outcome = TaskExited "unit res" | TaskPanicked | TaskCancelled

type_synonym 'a task_report = "'a task_id \<times> task_outcome"

datatype ('chan, 'task) sup_task =
    TaskBalanceReporter
  | TaskBroadcast 'chan
  | TaskProtocolWatcher "string btree_set" 'chan
  | TaskApplicationDefined 'task

record ('a, 'chan, 'tok) supervisor =
  task_states :: "('a task_id, 'tok task_state) btree_map"
  restart_queue :: "(nat \<times> 'a task_id) list"
  transaction_tx :: 'chan
  protocol_watcher_rx :: 'chan

record ('a, 'chan, 'tok, 'task, 's) supervisor_env =
  spawn :: "'a task_id \<Rightarrow> ('chan, 'task) sup_task \<Rightarrow> runnable_state \<Rightarrow> ('s, 'tok) eff"
  drop_token :: "'tok \<Rightarrow> 's \<Rightarrow> 's"
  new_channel :: "'s \<Rightarrow> 'chan \<times> 's"
  into_task :: "'a \<Rightarrow> 'chan \<Rightarrow> ('s, 'task) eff"
  application_id :: "'task \<Rightarrow> 'a"
  application_protocol :: "'a \<Rightarrow> string option"
  protocol_task_set_ids :: "string \<Rightarrow> 'a list"
  instant_now :: "'s \<Rightarrow> nat"
  instant_checked_add :: "nat \<Rightarrow> nat \<Rightarrow> nat option"
  recv_result :: "'s \<Rightarrow> ('a task_report option \<times> 's) option"

type_synonym ('a, 'chan, 'tok, 's) sup_eff = "unit res \<times> ('a, 'chan, 'tok) supervisor \<times> 's"


section \<open>Starting tasks\<close>

definition task_identifier ::
  "('a, 'chan, 'tok, 'task, 's) supervisor_env \<Rightarrow> ('chan, 'task) sup_task \<Rightarrow> 'a task_id" where
  "task_identifier env task =
     (case task of
        TaskBalanceReporter \<Rightarrow> IdBalanceReporter
      | TaskBroadcast _ \<Rightarrow> IdBroadcast
      | TaskProtocolWatcher _ _ \<Rightarrow> IdProtocolWatcher
      | TaskApplicationDefined t \<Rightarrow> IdApplicationDefined (application_id env t))"

text \<open>\<open>Task::run\<close>: spawn, then insert a fresh state or replace the token of the old one.\<close>

definition task_run ::
  "('a::linorder, 'chan, 'tok, 'task, 's) supervisor_env \<Rightarrow> ('chan, 'task) sup_task \<Rightarrow>
     ('a, 'chan, 'tok) supervisor \<Rightarrow> 's \<Rightarrow> ('a, 'chan, 'tok, 's) sup_eff" where
  "task_run env task sv s =
     (let task_id = task_identifier env task;
          entry = bt_get (task_states sv) task_id;
          state = (if entry = None then New else Restart) in
      case spawn env task_id task state s of
        (Inl e, s') \<Rightarrow> (Inl e, sv, s')
      | (Inr token, s') \<Rightarrow>
          (case entry of
             None \<Rightarrow>
               (Ok (), sv\<lparr>task_states := bt_insert task_id (state_new token) (task_states sv)\<rparr>, s')
           | Some st \<Rightarrow>
               (Ok (),
                sv\<lparr>task_states := bt_insert task_id (replace_and_increment st token) (task_states sv)\<rparr>,
                drop_token env (cancellation_token st) s')))"

definition restart_delay :: "'a task_id \<Rightarrow> nat" where
  "restart_delay task_id =
     (case task_id of IdApplicationDefined _ \<Rightarrow> 180 * 10 ^ 9 | _ \<Rightarrow> 10 * 10 ^ 9)"

definition place_on_restart_queue ::
  "('a, 'chan, 'tok, 'task, 's) supervisor_env \<Rightarrow> 'a task_id \<Rightarrow>
     ('a, 'chan, 'tok) supervisor \<Rightarrow> 's \<Rightarrow> ('a, 'chan, 'tok, 's) sup_eff" where
  "place_on_restart_queue env task_id sv s =
     (case instant_checked_add env (instant_now env s) (restart_delay task_id) of
        None \<Rightarrow> (Err [''Failed to calculate task restart timestamp!''], sv, s)
      | Some instant \<Rightarrow> (Ok (), sv\<lparr>restart_queue := restart_queue sv @ [(instant, task_id)]\<rparr>, s))"

text \<open>
  The tasks are created anew: a broadcaster and a protocol watcher get a fresh channel,
  whose other end the supervisor keeps.
\<close>

definition create_task ::
  "('a, 'chan, 'tok, 'task, 's) supervisor_env \<Rightarrow> 'a task_id \<Rightarrow> ('a, 'chan, 'tok) supervisor \<Rightarrow> 's \<Rightarrow>
     ('chan, 'task) sup_task res \<times> ('a, 'chan, 'tok) supervisor \<times> 's" where
  "create_task env task_id sv s =
     (case task_id of
        IdBalanceReporter \<Rightarrow> (Ok TaskBalanceReporter, sv, s)
      | IdBroadcast \<Rightarrow>
          (case new_channel env s of (chan, s') \<Rightarrow>
             (Ok (TaskBroadcast chan), sv\<lparr>transaction_tx := chan\<rparr>, s'))
      | IdProtocolWatcher \<Rightarrow>
          (case new_channel env s of (chan, s') \<Rightarrow>
             (Ok (TaskProtocolWatcher
                    (protocol_watcher_new (application_protocol env) (task_states sv)) chan),
              sv\<lparr>protocol_watcher_rx := chan\<rparr>, s'))
      | IdApplicationDefined a \<Rightarrow>
          (case into_task env a (transaction_tx sv) s of (r, s') \<Rightarrow>
             (map_res TaskApplicationDefined r, sv, s')))"

definition run_task ::
  "('a::linorder, 'chan, 'tok, 'task, 's) supervisor_env \<Rightarrow> 'a task_id \<Rightarrow>
     ('a, 'chan, 'tok) supervisor \<Rightarrow> 's \<Rightarrow> ('a, 'chan, 'tok, 's) sup_eff" where
  "run_task env task_id sv s =
     (case create_task env task_id sv s of
        (Inr task, sv', s') \<Rightarrow> task_run env task sv' s'
      | (Inl (Error ms), sv', s') \<Rightarrow> place_on_restart_queue env task_id sv' s'
      | (Inl (Panic p), sv', s') \<Rightarrow> (panic p, sv', s'))"

fun run_tasks ::
  "string option \<Rightarrow> ('a::linorder, 'chan, 'tok, 'task, 's) supervisor_env \<Rightarrow> 'a list \<Rightarrow>
     ('a, 'chan, 'tok) supervisor \<Rightarrow> 's \<Rightarrow> ('a, 'chan, 'tok, 's) sup_eff" where
  "run_tasks ctx env [] sv s = (Ok (), sv, s)"
| "run_tasks ctx env (a # as) sv s =
     (case run_task env (IdApplicationDefined a) sv s of
        (Inl e, sv', s') \<Rightarrow>
          (case ctx of None \<Rightarrow> Inl e | Some m \<Rightarrow> with_context m (Inl e), sv', s')
      | (Inr _, sv', s') \<Rightarrow> run_tasks ctx env as sv' s')"

definition start_tasks ::
  "('a::linorder, 'chan, 'tok, 'task, 's) supervisor_env \<Rightarrow> 'chan \<Rightarrow> 'chan \<Rightarrow> 'a list \<Rightarrow>
     ('a, 'chan, 'tok) supervisor \<Rightarrow> 's \<Rightarrow> ('a, 'chan, 'tok, 's) sup_eff" where
  "start_tasks env transaction_chan watcher_chan as sv s =
     (case task_run env TaskBalanceReporter sv s of
        (Inl e, sv1, s1) \<Rightarrow> (with_context ''Failed to start balance reporter task!'' (Inl e), sv1, s1)
      | (Inr _, sv1, s1) \<Rightarrow>
     (case task_run env (TaskBroadcast transaction_chan) sv1 s1 of
        (Inl e, sv2, s2) \<Rightarrow> (with_context ''Failed to start broadcaster task!'' (Inl e), sv2, s2)
      | (Inr _, sv2, s2) \<Rightarrow>
     (case task_run env (TaskProtocolWatcher
             (protocol_watcher_new (application_protocol env) (task_states sv2)) watcher_chan) sv2 s2 of
        (Inl e, sv3, s3) \<Rightarrow> (with_context ''Failed to start protocol watcher task!'' (Inl e), sv3, s3)
      | (Inr _, sv3, s3) \<Rightarrow>
          run_tasks (Some ''Failed to start application-defined task!'') env as sv3 s3)))"

definition supervisor_new ::
  "('a::linorder, 'chan, 'tok, 'task, 's) supervisor_env \<Rightarrow> 'a list \<Rightarrow> 's \<Rightarrow>
     ('a, 'chan, 'tok) supervisor res \<times> 's" where
  "supervisor_new env as s =
     (case new_channel env s of (transaction_chan, s1) \<Rightarrow>
     (case new_channel env s1 of (watcher_chan, s2) \<Rightarrow>
     (case start_tasks env transaction_chan watcher_chan as
             \<lparr>task_states = [], restart_queue = [], transaction_tx = transaction_chan,
              protocol_watcher_rx = watcher_chan\<rparr> s2 of
        (Inl e, sv, s3) \<Rightarrow> (with_context ''Failed to start initial tasks!'' (Inl e), s3)
      | (Inr _, sv, s3) \<Rightarrow> (Ok sv, s3))))"


section \<open>Handling events\<close>

text \<open>\<open>BTreeMap::clear\<close> and \<open>retain\<close> drop the tokens of the states they remove.\<close>

definition drop_states ::
  "('a, 'chan, 'tok, 'task, 's) supervisor_env \<Rightarrow> ('a task_id \<times> 'tok task_state) list \<Rightarrow> 's \<Rightarrow> 's" where
  "drop_states env states s = fold (\<lambda>(i, st). drop_token env (cancellation_token st)) states s"

text \<open>Waiting for as many reports as there were states.\<close>

fun await_reports ::
  "('a, 'chan, 'tok, 'task, 's) supervisor_env \<Rightarrow> nat \<Rightarrow> 's \<Rightarrow> (unit res \<times> 's) option" where
  "await_reports env 0 s = Some (Ok (), s)"
| "await_reports env (Suc n) s =
     (case recv_result env s of
        None \<Rightarrow> None
      | Some (None, s') \<Rightarrow> Some (panic ''Task results channel closed unexpectedly!'', s')
      | Some (Some (IdBroadcast, outcome), s') \<Rightarrow>
          Some (with_context ''Broadcast task shouldn't be reported back a second time!''
            (case outcome of
               TaskExited r \<Rightarrow> r
             | TaskPanicked \<Rightarrow> Err [''task panicked'']
             | TaskCancelled \<Rightarrow> Err [''task was cancelled'']), s')
      | Some (Some (i, outcome), s') \<Rightarrow> await_reports env n s')"

definition cancel_tasks ::
  "('a, 'chan, 'tok, 'task, 's) supervisor_env \<Rightarrow> ('a, 'chan, 'tok) supervisor \<Rightarrow> 's \<Rightarrow>
     ('a, 'chan, 'tok, 's) sup_eff option" where
  "cancel_tasks env sv s =
     (let tasks_count = length (task_states sv);
          s' = drop_states env (task_states sv) s;
          sv' = sv\<lparr>task_states := []\<rparr> in
      map_option (\<lambda>(r, s''). (r, sv', s'')) (await_reports env tasks_count s'))"

definition handle_task_result ::
  "('a, 'chan, 'tok, 'task, 's) supervisor_env \<Rightarrow> 'a task_report \<Rightarrow> ('a, 'chan, 'tok) supervisor \<Rightarrow> 's \<Rightarrow>
     ('a, 'chan, 'tok, 's) sup_eff option" where
  "handle_task_result env report sv s =
     (case fst report of
        IdBroadcast \<Rightarrow>
          map_option (\<lambda>(r, sv', s'). (with_context ''Killing tasks failed!'' r, sv', s'))
            (cancel_tasks env sv s)
      | _ \<Rightarrow> Some (Ok (), sv, s))"

definition MAX_CONSEQUENT_RETRIES :: u8 where
  "MAX_CONSEQUENT_RETRIES = 2"

text \<open>What happens to the exited task, once its result has been handled.\<close>

definition restart_exited ::
  "('a::linorder, 'chan, 'tok, 'task, 's) supervisor_env \<Rightarrow> 'a task_id \<Rightarrow>
     ('a, 'chan, 'tok) supervisor \<Rightarrow> 's \<Rightarrow> ('a, 'chan, 'tok, 's) sup_eff" where
  "restart_exited env task_id sv s =
     (case bt_get (task_states sv) task_id of
        None \<Rightarrow> (Ok (), sv, s)
      | Some st \<Rightarrow>
          if retry st \<ge> MAX_CONSEQUENT_RETRIES
          then (case place_on_restart_queue env task_id
                  (sv\<lparr>task_states := bt_remove task_id (task_states sv)\<rparr>)
                  (drop_token env (cancellation_token st) s) of
              (r, sv', s') \<Rightarrow> (with_context ''Failed to put task on restart queue!'' r, sv', s'))
          else (case run_task env task_id sv s of
              (r, sv', s') \<Rightarrow> (with_context ''Failed to restart task!'' r, sv', s')))"

definition handle_task_result_and_restart ::
  "('a::linorder, 'chan, 'tok, 'task, 's) supervisor_env \<Rightarrow> 'a task_report \<Rightarrow>
     ('a, 'chan, 'tok) supervisor \<Rightarrow> 's \<Rightarrow> ('a, 'chan, 'tok, 's) sup_eff option" where
  "handle_task_result_and_restart env report sv s =
     (case handle_task_result env report sv s of
        None \<Rightarrow> None
      | Some (Inl e, sv', s') \<Rightarrow>
          Some (with_context ''Failed to handle exited task's result!'' (Inl e), sv', s')
      | Some (Inr _, sv', s') \<Rightarrow> Some (restart_exited env (fst report) sv' s'))"

definition handle_protocol_command ::
  "('a::linorder, 'chan, 'tok, 'task, 's) supervisor_env \<Rightarrow> command \<Rightarrow>
     ('a, 'chan, 'tok) supervisor \<Rightarrow> 's \<Rightarrow> ('a, 'chan, 'tok, 's) sup_eff" where
  "handle_protocol_command env command sv s =
     (case command of
        ProtocolAdded protocol \<Rightarrow> run_tasks None env (protocol_task_set_ids env protocol) sv s
      | ProtocolRemoved protocol \<Rightarrow>
          (let keep = (\<lambda>i st. id_protocol (application_protocol env) i \<noteq> Some protocol) in
           (Ok (), sv\<lparr>task_states := bt_retain keep (task_states sv)\<rparr>,
            drop_states env (bt_retain (\<lambda>i st. \<not> keep i st) (task_states sv)) s)))"

text \<open>
  \<open>next_restart_task_future\<close> sleeps until the instant of the first entry, then pops it; an
  empty queue never yields a task.
\<close>

definition next_restart_task ::
  "('a, 'chan, 'tok, 'task, 's) supervisor_env \<Rightarrow> ('a, 'chan, 'tok) supervisor \<Rightarrow> 's \<Rightarrow>
     ('a task_id \<times> ('a, 'chan, 'tok) supervisor) option" where
  "next_restart_task env sv s =
     (case restart_queue sv of
        [] \<Rightarrow> None
      | (instant, task_id) # queue \<Rightarrow>
          if instant \<le> instant_now env s then Some (task_id, sv\<lparr>restart_queue := queue\<rparr>) else None)"

text \<open>One iteration of \<open>run\<close>, by the branch of the \<open>select!\<close> that completed.\<close>

datatype 'a sup_event =
    TaskResultReceived "'a task_report"
  | TaskResultsClosed
  | CommandReceived command
  | RestartDue

definition supervisor_step ::
  "('a::linorder, 'chan, 'tok, 'task, 's) supervisor_env \<Rightarrow> 'a sup_event \<Rightarrow>
     ('a, 'chan, 'tok) supervisor \<Rightarrow> 's \<Rightarrow> ('a, 'chan, 'tok, 's) sup_eff option" where
  "supervisor_step env event sv s =
     (case event of
        TaskResultReceived report \<Rightarrow> handle_task_result_and_restart env report sv s
      | TaskResultsClosed \<Rightarrow> Some (Err [''Task results channel closed unexpectedly!''], sv, s)
      | CommandReceived command \<Rightarrow>
          (case handle_protocol_command env command sv s of
             (r, sv', s') \<Rightarrow> Some (with_context ''Failed to handle protocol command!'' r, sv', s'))
      | RestartDue \<Rightarrow>
          (case next_restart_task env sv s of
             None \<Rightarrow> None
           | Some (task_id, sv') \<Rightarrow> Some (run_task env task_id sv' s)))"

text \<open>
  The loop.  \<open>next_event\<close> stands for the \<open>select!\<close>: which of its futures completes
  first, and the state at that time; \<open>None\<close> while all of them stay pending.
\<close>

partial_function (option) supervisor_run ::
  "('a::linorder, 'chan, 'tok, 'task, 's) supervisor_env \<Rightarrow>
     (('a, 'chan, 'tok) supervisor \<Rightarrow> 's \<Rightarrow> ('a sup_event \<times> 's) option) \<Rightarrow>
     ('a, 'chan, 'tok) supervisor \<Rightarrow> 's \<Rightarrow> (failure \<times> ('a, 'chan, 'tok) supervisor \<times> 's) option" where
  "supervisor_run env next_event sv s =
     (case next_event sv s of
        None \<Rightarrow> None
      | Some (event, s1) \<Rightarrow>
          (case supervisor_step env event sv s1 of
             None \<Rightarrow> None
           | Some (Inl e, sv', s') \<Rightarrow> Some (e, sv', s')
           | Some (Inr _, sv', s') \<Rightarrow> supervisor_run env next_event sv' s'))"


section \<open>Tracked tasks\<close>

text \<open>A task the supervisor has not forgotten: it has a state or waits for its restart.\<close>

definition tracked :: "('a, 'chan, 'tok) supervisor \<Rightarrow> 'a task_id set" where
  "tracked sv = fst ` set (task_states sv) \<union> snd ` set (restart_queue sv)"

lemma tracked_insert [simp]:
  "tracked (sv\<lparr>task_states := bt_insert i st (task_states sv)\<rparr>) = insert i (tracked sv)"
  by (simp add: tracked_def fst_set_bt_insert)

lemma tracked_queue [simp]:
  "tracked (sv\<lparr>restart_queue := restart_queue sv @ [(t, i)]\<rparr>) = insert i (tracked sv)"
  by (auto simp: tracked_def)

lemma tracked_remove_queue:
  "i \<in> fst ` set (task_states sv) \<Longrightarrow>
     insert i (tracked (sv\<lparr>task_states := bt_remove i (task_states sv)\<rparr>)) = tracked sv"
  by (force simp: tracked_def bt_remove_def)

lemma task_run_cases:
  assumes "task_run env task sv s = (r, sv', s')"
  shows "restart_queue sv' = restart_queue sv"
    and "bt_wf (task_states sv) \<Longrightarrow> bt_wf (task_states sv')"
    and "is_ok r \<Longrightarrow> tracked sv' = insert (task_identifier env task) (tracked sv)"
    and "\<not> is_ok r \<Longrightarrow> sv' = sv"
  using assms by (auto simp: task_run_def Let_def bt_wf_insert
      split: prod.splits sum.splits option.splits)

lemma place_on_restart_queue_cases:
  assumes "place_on_restart_queue env i sv s = (r, sv', s')"
  shows "task_states sv' = task_states sv" and "\<not> panics r"
    and "is_ok r \<Longrightarrow> tracked sv' = insert i (tracked sv)"
    and "\<not> is_ok r \<Longrightarrow> sv' = sv"
  using assms by (auto simp: place_on_restart_queue_def split: option.splits)

lemma create_task_cases:
  assumes "create_task env i sv s = (r, sv', s')"
  shows "task_states sv' = task_states sv" and "restart_queue sv' = restart_queue sv"
  using assms by (auto simp: create_task_def split: task_id.splits prod.splits)

lemma run_task_wf:
  assumes "run_task env i sv s = (r, sv', s')" and "bt_wf (task_states sv)"
  shows "bt_wf (task_states sv')"
proof -
  obtain c sv1 s1 where c: "create_task env i sv s = (c, sv1, s1)"
    by (cases "create_task env i sv s") auto
  note keep = create_task_cases [OF c]
  show ?thesis
  proof (cases c rule: panics.cases)
    case (2 ms)
    with assms c have "place_on_restart_queue env i sv1 s1 = (r, sv', s')" by (simp add: run_task_def)
    from place_on_restart_queue_cases(1) [OF this] keep assms(2) show ?thesis by simp
  next
    case (3 task)
    with assms c have "task_run env task sv1 s1 = (r, sv', s')" by (simp add: run_task_def)
    from task_run_cases(2) [OF this] keep assms(2) show ?thesis by simp
  qed (use assms c keep in \<open>simp add: run_task_def\<close>)
qed

lemma run_tasks_wf:
  "run_tasks ctx env as sv s = (r, sv', s') \<Longrightarrow> bt_wf (task_states sv) \<Longrightarrow> bt_wf (task_states sv')"
proof (induction as arbitrary: sv s)
  case (Cons a as)
  obtain r1 sv1 s1 where run: "run_task env (IdApplicationDefined a) sv s = (r1, sv1, s1)"
    by (cases "run_task env (IdApplicationDefined a) sv s") auto
  note wf1 = run_task_wf [OF run Cons.prems(2)]
  show ?case
  proof (cases r1)
    case (Inr u)
    with Cons.prems(1) run have "run_tasks ctx env as sv1 s1 = (r, sv', s')" by simp
    from Cons.IH [OF this wf1] show ?thesis .
  qed (use Cons.prems(1) run wf1 in simp)
qed simp


section \<open>What the supervisor relies on from the application\<close>

text \<open>
  The contract of \<open>application_defined::Id::into_task\<close> and
  \<open>Task::protocol_task_set_ids\<close>: a created task carries the identifier it was created from,
  and the tasks of a protocol name that protocol.
\<close>

locale application_defined =
  fixes env :: "('a::linorder, 'chan, 'tok, 'task, 's) supervisor_env"
  assumes into_task_id: "into_task env a tx s = (Ok t, s') \<Longrightarrow> application_id env t = a"
    and protocol_ids: "a \<in> set (protocol_task_set_ids env p) \<Longrightarrow> application_protocol env a = Some p"
begin

lemma create_task_identifier:
  "create_task env i sv s = (Ok task, sv', s') \<Longrightarrow> task_identifier env task = i"
  by (auto simp: create_task_def task_identifier_def dest: into_task_id
      split: task_id.splits prod.splits)

lemma run_task_tracked:
  assumes "run_task env i sv s = (Ok u, sv', s')"
  shows "tracked sv' = insert i (tracked sv)"
proof -
  obtain c sv1 s1 where c: "create_task env i sv s = (c, sv1, s1)"
    by (cases "create_task env i sv s") auto
  then have keep: "tracked sv1 = tracked sv" by (simp add: tracked_def create_task_cases)
  show ?thesis
  proof (cases c rule: panics.cases)
    case (2 ms)
    with assms c have "place_on_restart_queue env i sv1 s1 = (Ok u, sv', s')" by (simp add: run_task_def)
    from place_on_restart_queue_cases(3) [OF this] keep show ?thesis by simp
  next
    case (3 task)
    with assms c have "task_run env task sv1 s1 = (Ok u, sv', s')" by (simp add: run_task_def)
    from task_run_cases(3) [OF this] create_task_identifier 3 c keep show ?thesis by simp
  qed (use assms c in \<open>simp add: run_task_def\<close>)
qed

lemma run_tasks_tracked:
  "run_tasks ctx env as sv s = (Ok u, sv', s') \<Longrightarrow>
     tracked sv' = IdApplicationDefined ` set as \<union> tracked sv"
proof (induction as arbitrary: sv s)
  case (Cons a as)
  obtain r1 sv1 s1 where run: "run_task env (IdApplicationDefined a) sv s = (r1, sv1, s1)"
    by (cases "run_task env (IdApplicationDefined a) sv s") auto
  with Cons.prems obtain u1 where r1: "r1 = Ok u1" by (cases r1) (auto split: option.splits)
  with Cons.prems run have "run_tasks ctx env as sv1 s1 = (Ok u, sv', s')" by simp
  from Cons.IH [OF this] run_task_tracked [OF run [unfolded r1]] show ?case by auto
qed simp

lemma restart_exited_tracked:
  assumes "restart_exited env i sv s = (Ok u, sv', s')"
  shows "tracked sv' = tracked sv"
proof (cases "bt_get (task_states sv) i")
  case (Some st)
  then have i: "i \<in> fst ` set (task_states sv)" by (metis domI dom_map_of_conv_image_fst)
  show ?thesis
  proof (cases "retry st \<ge> MAX_CONSEQUENT_RETRIES")
    case True
    let ?sv = "sv\<lparr>task_states := bt_remove i (task_states sv)\<rparr>"
    from assms Some True obtain s1 where
      "place_on_restart_queue env i ?sv s1 = (Ok u, sv', s')"
      by (auto simp: restart_exited_def split: prod.splits)
    from place_on_restart_queue_cases(3) [OF this] show ?thesis by (simp add: tracked_remove_queue [OF i])
  next
    case False
    with assms Some have "run_task env i sv s = (Ok u, sv', s')"
      by (auto simp: restart_exited_def split: prod.splits)
    from run_task_tracked [OF this] i show ?thesis by (auto simp: tracked_def)
  qed
qed (use assms in \<open>simp add: restart_exited_def\<close>)

lemma start_tasks_tracked:
  assumes "start_tasks env c d as sv s = (Ok u, sv', s')"
  shows "tracked sv' = {IdBalanceReporter, IdBroadcast, IdProtocolWatcher} \<union>
    IdApplicationDefined ` set as \<union> tracked sv"
proof -
  obtain r1 sv1 s1 where 1: "task_run env TaskBalanceReporter sv s = (r1, sv1, s1)"
    by (cases "task_run env TaskBalanceReporter sv s") auto
  obtain r2 sv2 s2 where 2: "task_run env (TaskBroadcast c) sv1 s1 = (r2, sv2, s2)"
    by (cases "task_run env (TaskBroadcast c) sv1 s1") auto
  let ?w = "TaskProtocolWatcher (protocol_watcher_new (application_protocol env) (task_states sv2)) d"
  obtain r3 sv3 s3 where 3: "task_run env ?w sv2 s2 = (r3, sv3, s3)"
    by (cases "task_run env ?w sv2 s2") auto
  have ok: "is_ok r1" "is_ok r2" "is_ok r3"
    and rest: "run_tasks (Some ''Failed to start application-defined task!'') env as sv3 s3 =
      (Ok u, sv', s')"
    using assms 1 2 3 by (auto simp: start_tasks_def split: sum.splits)
  from run_tasks_tracked [OF rest] task_run_cases(3) [OF 1 ok(1)] task_run_cases(3) [OF 2 ok(2)]
    task_run_cases(3) [OF 3 ok(3)]
  show ?thesis by (simp add: task_identifier_def insert_commute Un_commute)
qed

end


section \<open>No task is lost\<close>

lemma handle_other_result:
  assumes "i \<noteq> IdBroadcast"
  shows "handle_task_result_and_restart env (i, outcome) sv s = Some (restart_exited env i sv s)"
  using assms by (cases i) (simp_all add: handle_task_result_and_restart_def handle_task_result_def)

lemma next_restart_task_tracked:
  assumes "next_restart_task env sv s = Some (i, sv')"
  shows "insert i (tracked sv') = tracked sv" and "task_states sv' = task_states sv"
  using assms by (clarsimp simp: next_restart_task_def tracked_def split: list.splits if_splits)+

context application_defined
begin

lemma step_tracked:
  assumes "supervisor_step env event sv s = Some (Ok u, sv', s')"
  shows "case event of
      TaskResultReceived (i, outcome) \<Rightarrow> i = IdBroadcast \<or> tracked sv' = tracked sv
    | TaskResultsClosed \<Rightarrow> False
    | CommandReceived (ProtocolAdded p) \<Rightarrow>
        tracked sv' = IdApplicationDefined ` set (protocol_task_set_ids env p) \<union> tracked sv
    | CommandReceived (ProtocolRemoved p) \<Rightarrow>
        tracked sv' = tracked sv -
          {i \<in> fst ` set (task_states sv) - snd ` set (restart_queue sv).
             id_protocol (application_protocol env) i = Some p}
    | RestartDue \<Rightarrow> tracked sv' = tracked sv"
proof (cases event)
  case (TaskResultReceived report)
  obtain i outcome where [simp]: "report = (i, outcome)" by (cases report)
  show ?thesis
    using assms TaskResultReceived
    by (cases "i = IdBroadcast") (auto simp: supervisor_step_def handle_other_result restart_exited_tracked)
next
  case TaskResultsClosed
  with assms show ?thesis by (simp add: supervisor_step_def)
next
  case (CommandReceived command)
  show ?thesis
  proof (cases command)
    case (ProtocolAdded p)
    with assms CommandReceived have
      "run_tasks None env (protocol_task_set_ids env p) sv s = (Ok u, sv', s')"
      by (auto simp: supervisor_step_def handle_protocol_command_def split: prod.splits)
    from run_tasks_tracked [OF this] ProtocolAdded CommandReceived show ?thesis by simp
  next
    case (ProtocolRemoved p)
    with assms CommandReceived show ?thesis
      by (force simp: supervisor_step_def handle_protocol_command_def Let_def tracked_def bt_retain_def)
  qed
next
  case RestartDue
  with assms obtain i sv1 where due: "next_restart_task env sv s = Some (i, sv1)"
    "run_task env i sv1 s = (Ok u, sv', s')"
    by (auto simp: supervisor_step_def split: option.splits)
  from run_task_tracked [OF due(2)] next_restart_task_tracked(1) [OF due(1)] RestartDue
  show ?thesis by simp
qed

lemma step_keeps_built_in:
  assumes "supervisor_step env event sv s = Some (Ok u, sv', s')"
    and "\<forall>outcome. event \<noteq> TaskResultReceived (IdBroadcast, outcome)"
    and "i \<in> tracked sv" and "id_protocol (application_protocol env) i = None"
  shows "i \<in> tracked sv'"
  using step_tracked [OF assms(1)] assms(2-4)
  by (auto split: sup_event.splits command.splits prod.splits)

end



section \<open>Reachable supervisors\<close>

text \<open>Runs in which the broadcaster has not exited; the world moves on between events.\<close>

inductive supervisor_reachable ::
  "('a::linorder, 'chan, 'tok, 'task, 's) supervisor_env \<Rightarrow> 'a list \<Rightarrow> ('a, 'chan, 'tok) supervisor \<Rightarrow> bool"
  for env :: "('a::linorder, 'chan, 'tok, 'task, 's) supervisor_env" and as :: "'a list" where
  started: "supervisor_new env as s = (Ok sv, s') \<Longrightarrow> supervisor_reachable env as sv"
| step: "supervisor_reachable env as sv \<Longrightarrow>
    \<forall>outcome. event \<noteq> TaskResultReceived (IdBroadcast, outcome) \<Longrightarrow>
    supervisor_step env event sv s = Some (Ok u, sv', s') \<Longrightarrow> supervisor_reachable env as sv'"

lemma restart_exited_wf:
  assumes "restart_exited env i sv s = (r, sv', s')" and "bt_wf (task_states sv)"
  shows "bt_wf (task_states sv')"
  using assms
  by (auto simp: restart_exited_def bt.wf_remove split: option.splits if_splits prod.splits
      dest: run_task_wf place_on_restart_queue_cases(1))

lemma step_wf:
  assumes "supervisor_step env event sv s = Some (r, sv', s')" and "bt_wf (task_states sv)"
    and "\<forall>outcome. event \<noteq> TaskResultReceived (IdBroadcast, outcome)"
  shows "bt_wf (task_states sv')"
proof (cases event)
  case (TaskResultReceived report)
  then show ?thesis
    using assms by (cases report) (auto simp: supervisor_step_def handle_other_result dest: restart_exited_wf)
next
  case (CommandReceived command)
  then show ?thesis
    using assms
    by (cases command)
      (auto simp: supervisor_step_def handle_protocol_command_def Let_def bt.wf_retain
        split: prod.splits dest: run_tasks_wf)
qed (use assms in \<open>auto simp: supervisor_step_def next_restart_task_tracked(2) split: option.splits
      dest!: run_task_wf\<close>)

lemma supervisor_new_start:
  assumes "supervisor_new env as s = (Ok sv, s')"
  obtains c d s1 where "start_tasks env c d as
      \<lparr>task_states = [], restart_queue = [], transaction_tx = c, protocol_watcher_rx = d\<rparr> s1 =
      (Ok (), sv, s')"
  using assms by (auto simp: supervisor_new_def split: prod.splits sum.splits)

lemma start_tasks_wf:
  assumes "start_tasks env c d as sv s = (r, sv', s')" and "bt_wf (task_states sv)"
  shows "bt_wf (task_states sv')"
  using assms
  by (auto simp: start_tasks_def split: prod.splits sum.splits dest!: task_run_cases(2) run_tasks_wf)

context application_defined
begin

lemma reachable_tracks:
  assumes "supervisor_reachable env as sv"
    and "i \<in> {IdBalanceReporter, IdBroadcast, IdProtocolWatcher} \<union> IdApplicationDefined ` set as"
    and "id_protocol (application_protocol env) i = None"
  shows "bt_wf (task_states sv) \<and> i \<in> tracked sv"
  using assms(1)
proof (induction rule: supervisor_reachable.induct)
  case (started s sv s')
  then obtain c d s1 where start: "start_tasks env c d as
      \<lparr>task_states = [], restart_queue = [], transaction_tx = c, protocol_watcher_rx = d\<rparr> s1 =
      (Ok (), sv, s')" by (rule supervisor_new_start)
  from start_tasks_tracked [OF start] start_tasks_wf [OF start] assms(2)
  show ?case by (auto simp: bt.wf_empty)
next
  case (step sv event s u sv' s')
  from step.IH step_keeps_built_in [OF step.hyps(3,2) _ assms(3)]
    step_wf [OF step.hyps(3) _ step.hyps(2)]
  show ?case by simp
qed

end

text \<open>
  C29: as long as the broadcaster has not exited, whatever results and commands arrive, the
  supervisor keeps its table of tasks well formed and the balance reporter, the
  broadcaster and the protocol watcher are each running or waiting for their restart.
\<close>

theorem built_in_tasks_survive:
  assumes "application_defined env" and "supervisor_reachable env as sv"
  shows "bt_wf (task_states sv) \<and> {IdBalanceReporter, IdBroadcast, IdProtocolWatcher} \<subseteq> tracked sv"
  using application_defined.reachable_tracks [OF assms, of IdBalanceReporter]
    application_defined.reachable_tracks [OF assms, of IdBroadcast]
    application_defined.reachable_tracks [OF assms, of IdProtocolWatcher] by simp


section \<open>Following the watcher\<close>

fun handle_commands ::
  "('a::linorder, 'chan, 'tok, 'task, 's) supervisor_env \<Rightarrow> command list \<Rightarrow>
     ('a, 'chan, 'tok) supervisor \<Rightarrow> 's \<Rightarrow> ('a, 'chan, 'tok, 's) sup_eff" where
  "handle_commands env [] sv s = (Ok (), sv, s)"
| "handle_commands env (command # commands) sv s =
     (case handle_protocol_command env command sv s of
        (Inl e, sv', s') \<Rightarrow> (Inl e, sv', s')
      | (Inr _, sv', s') \<Rightarrow> handle_commands env commands sv' s')"

lemma handle_commands_append:
  "handle_commands env (cs @ ds) sv s =
     (case handle_commands env cs sv s of
        (Inl e, sv', s') \<Rightarrow> (Inl e, sv', s')
      | (Inr _, sv', s') \<Rightarrow> handle_commands env ds sv' s')"
  by (induction cs arbitrary: sv s) (auto split: prod.splits sum.splits)

lemma handle_removed:
  "\<exists>sv' s'. handle_commands env (map ProtocolRemoved ps) sv s = (Ok (), sv', s') \<and>
     restart_queue sv' = restart_queue sv \<and>
     set (task_states sv') =
       {(i, st) \<in> set (task_states sv). \<forall>p \<in> set ps. id_protocol (application_protocol env) i \<noteq> Some p}"
proof (induction ps arbitrary: sv s)
  case (Cons p ps)
  obtain sv1 s1 where step: "handle_protocol_command env (ProtocolRemoved p) sv s = (Ok (), sv1, s1)"
    "restart_queue sv1 = restart_queue sv"
    "set (task_states sv1) =
       {(i, st) \<in> set (task_states sv). id_protocol (application_protocol env) i \<noteq> Some p}"
    by (auto simp: handle_protocol_command_def Let_def bt_retain_def)
  from Cons.IH [of sv1 s1] step show ?case by auto
qed auto

lemma run_task_queue:
  assumes "run_task env i sv s = (r, sv', s')"
  shows "snd ` set (restart_queue sv') \<subseteq> insert i (snd ` set (restart_queue sv))"
proof -
  obtain c sv1 s1 where c: "create_task env i sv s = (c, sv1, s1)"
    by (cases "create_task env i sv s") auto
  note keep = create_task_cases(2) [OF c]
  show ?thesis
  proof (cases c rule: panics.cases)
    case (3 task)
    with assms c have "task_run env task sv1 s1 = (r, sv', s')" by (simp add: run_task_def)
    from task_run_cases(1) [OF this] keep show ?thesis by auto
  qed (use assms c keep in \<open>auto simp: run_task_def place_on_restart_queue_def split: option.splits\<close>)
qed

lemma run_tasks_queue:
  "run_tasks ctx env as sv s = (r, sv', s') \<Longrightarrow>
     snd ` set (restart_queue sv') \<subseteq> IdApplicationDefined ` set as \<union> snd ` set (restart_queue sv)"
proof (induction as arbitrary: sv s)
  case (Cons a as)
  obtain r1 sv1 s1 where run: "run_task env (IdApplicationDefined a) sv s = (r1, sv1, s1)"
    by (cases "run_task env (IdApplicationDefined a) sv s") auto
  note queue1 = run_task_queue [OF run]
  show ?case
  proof (cases r1)
    case (Inr u)
    with Cons.prems run have "run_tasks ctx env as sv1 s1 = (r, sv', s')" by simp
    from Cons.IH [OF this] queue1 show ?thesis by auto
  qed (use Cons.prems run queue1 in auto)
qed simp

lemma handle_added_queue:
  "handle_commands env (map ProtocolAdded ps) sv s = (r, sv', s') \<Longrightarrow>
     snd ` set (restart_queue sv') \<subseteq>
       (\<Union>p \<in> set ps. IdApplicationDefined ` set (protocol_task_set_ids env p)) \<union> snd ` set (restart_queue sv)"
proof (induction ps arbitrary: sv s)
  case (Cons p ps)
  obtain r1 sv1 s1 where run: "run_tasks None env (protocol_task_set_ids env p) sv s = (r1, sv1, s1)"
    by (cases "run_tasks None env (protocol_task_set_ids env p) sv s") auto
  note queue1 = run_tasks_queue [OF run]
  show ?case
  proof (cases r1)
    case (Inr u)
    with Cons.prems run have "handle_commands env (map ProtocolAdded ps) sv1 s1 = (r, sv', s')"
      by (simp add: handle_protocol_command_def)
    from Cons.IH [OF this] queue1 show ?thesis by auto
  qed (use Cons.prems run queue1 in \<open>auto simp: handle_protocol_command_def\<close>)
qed simp

context application_defined
begin

lemma handle_added:
  "handle_commands env (map ProtocolAdded ps) sv s = (Ok u, sv', s') \<Longrightarrow>
     tracked sv' = (\<Union>p \<in> set ps. IdApplicationDefined ` set (protocol_task_set_ids env p)) \<union> tracked sv"
proof (induction ps arbitrary: sv s)
  case (Cons p ps)
  obtain r sv1 s1 where run: "run_tasks None env (protocol_task_set_ids env p) sv s = (r, sv1, s1)"
    by (cases "run_tasks None env (protocol_task_set_ids env p) sv s") auto
  with Cons.prems obtain v where r: "r = Ok v"
    by (cases r) (auto simp: handle_protocol_command_def)
  with Cons.prems run have rest: "handle_commands env (map ProtocolAdded ps) sv1 s1 = (Ok u, sv', s')"
    by (simp add: handle_protocol_command_def)
  from Cons.IH [OF rest] run_tasks_tracked [OF run [unfolded r]] show ?case by auto
qed simp

text \<open>
  With no task of a removed protocol on the restart queue, the tracked tasks afterwards are
  exactly the earlier ones without the removed protocols' and with the added ones'.
\<close>

lemma handle_diff_exact:
  assumes run: "handle_commands env (protocols_diff_commands watched active) sv s = (Ok u, sv', s')"
    and queue: "\<And>i p. i \<in> snd ` set (restart_queue sv) \<Longrightarrow> p \<in> set watched - set active \<Longrightarrow>
      id_protocol (application_protocol env) i \<noteq> Some p"
  shows "tracked sv' =
    {i \<in> tracked sv. \<forall>p \<in> set watched - set active. id_protocol (application_protocol env) i \<noteq> Some p} \<union>
    (\<Union>p \<in> set active - set watched. IdApplicationDefined ` set (protocol_task_set_ids env p))"
    (is "_ = ?kept \<union> ?added")
proof -
  define removed where "removed = bs_difference watched active"
  define added where "added = bs_difference active watched"
  have sets: "set added = set active - set watched" "set removed = set watched - set active"
    by (simp_all add: added_def removed_def)
  obtain r sv1 s1 where add: "handle_commands env (map ProtocolAdded added) sv s = (r, sv1, s1)"
    by (cases "handle_commands env (map ProtocolAdded added) sv s") auto
  with run obtain v where r: "r = Ok v"
    by (cases r) (auto simp: protocols_diff_commands_def added_def handle_commands_append)
  from run add r have remove: "handle_commands env (map ProtocolRemoved removed) sv1 s1 = (Ok u, sv', s')"
    by (simp add: protocols_diff_commands_def added_def removed_def handle_commands_append)
  obtain sv2 s2 where rest: "handle_commands env (map ProtocolRemoved removed) sv1 s1 = (Ok (), sv2, s2)"
    "restart_queue sv2 = restart_queue sv1" "set (task_states sv2) =
        {(i, st) \<in> set (task_states sv1). \<forall>p \<in> set removed. id_protocol (application_protocol env) i \<noteq> Some p}"
    using handle_removed [of env removed sv1 s1] by (elim exE conjE)
  from remove rest(1) have "sv2 = sv'" by simp
  note sv' = rest(2,3) [unfolded this]
  have stays: "id_protocol (application_protocol env) i \<noteq> Some p" if "i \<in> ?added" "p \<in> set removed" for i p
  proof -
    from that(1) obtain q a where "q \<in> set active - set watched" "a \<in> set (protocol_task_set_ids env q)"
      "i = IdApplicationDefined a" by blast
    moreover from that(2) have "p \<notin> set active" by (simp add: sets(2))
    ultimately show ?thesis using protocol_ids [of a q] by auto
  qed
  have "id_protocol (application_protocol env) i \<noteq> Some p"
    if "i \<in> snd ` set (restart_queue sv1)" "p \<in> set removed" for i p
  proof -
    from subsetD [OF handle_added_queue [OF add] that(1)]
    have "i \<in> ?added \<or> i \<in> snd ` set (restart_queue sv)" unfolding sets by (rule UnE) simp_all
    then show ?thesis
      by (rule disjE) (use stays [of i p] queue [of i p] that(2) sets(2) in simp_all)
  qed
  then have "tracked sv' = {i \<in> tracked sv1. \<forall>p \<in> set removed. id_protocol (application_protocol env) i \<noteq> Some p}"
    using sv' by (force simp: tracked_def)
  moreover have "tracked sv1 = ?added \<union> tracked sv" using handle_added [OF add [unfolded r]] sets(1) by simp
  ultimately show ?thesis unfolding sets(2) by (auto dest: protocol_ids)
qed

end


section \<open>Immediate restarts and deferral\<close>

text \<open>Conditions under which nothing but the tasks themselves fails.\<close>

definition starts_succeed :: "('a, 'chan, 'tok, 'task, 's) supervisor_env \<Rightarrow> bool" where
  "starts_succeed env \<longleftrightarrow>
     (\<forall>i t st s. \<exists>token s'. spawn env i t st s = (Ok token, s')) \<and>
     (\<forall>a tx s. \<exists>t s'. into_task env a tx s = (Ok t, s') \<and> application_id env t = a) \<and>
     (\<forall>t d. instant_checked_add env t d = Some (t + d))"

fun handle_reports ::
  "('a::linorder, 'chan, 'tok, 'task, 's) supervisor_env \<Rightarrow> 'a task_report list \<Rightarrow>
     ('a, 'chan, 'tok) supervisor \<Rightarrow> 's \<Rightarrow> ('a, 'chan, 'tok, 's) sup_eff option" where
  "handle_reports env [] sv s = Some (Ok (), sv, s)"
| "handle_reports env (report # reports) sv s =
     (case handle_task_result_and_restart env report sv s of
        None \<Rightarrow> None
      | Some (Inl e, sv', s') \<Rightarrow> Some (Inl e, sv', s')
      | Some (Inr _, sv', s') \<Rightarrow> handle_reports env reports sv' s')"

lemma create_task_succeeds:
  assumes "starts_succeed env"
  obtains task sv' s' where "create_task env i sv s = (Ok task, sv', s')"
    and "task_identifier env task = i"
    and "task_states sv' = task_states sv" and "restart_queue sv' = restart_queue sv"
proof -
  have "\<exists>task sv' s'. create_task env i sv s = (Ok task, sv', s') \<and> task_identifier env task = i"
  proof (cases i)
    case (IdApplicationDefined a)
    from assms obtain t s' where "into_task env a (transaction_tx sv) s = (Ok t, s')"
      "application_id env t = a" unfolding starts_succeed_def by blast
    with IdApplicationDefined show ?thesis by (simp add: create_task_def task_identifier_def)
  qed (auto simp: create_task_def task_identifier_def split: prod.splits)
  then show thesis using that create_task_cases by metis
qed

lemma run_task_restarts:
  assumes "starts_succeed env" and "bt_get (task_states sv) i = Some st"
  obtains token sv' s' where "run_task env i sv s = (Ok (), sv', s')"
    and "task_states sv' = bt_insert i (replace_and_increment st token) (task_states sv)"
    and "restart_queue sv' = restart_queue sv"
proof -
  obtain task sv1 s1 where c: "create_task env i sv s = (Ok task, sv1, s1)"
      "task_identifier env task = i" "task_states sv1 = task_states sv" "restart_queue sv1 = restart_queue sv"
    by (rule create_task_succeeds [OF assms(1)])
  from assms(1) obtain token s2 where "spawn env i task Restart s1 = (Ok token, s2)"
    unfolding starts_succeed_def by blast
  with c assms(2) that show thesis by (simp add: run_task_def task_run_def Let_def)
qed

lemma exit_restarts:
  assumes "starts_succeed env" and "i \<noteq> IdBroadcast"
    and "bt_get (task_states sv) i = Some st" and "retry st < MAX_CONSEQUENT_RETRIES"
  obtains sv' s' st' where
    "handle_task_result_and_restart env (i, outcome) sv s = Some (Ok (), sv', s')"
    and "bt_get (task_states sv') = (bt_get (task_states sv))(i \<mapsto> st')"
    and "retry st' = saturating_add (retry st) 1" and "restart_queue sv' = restart_queue sv"
proof (rule run_task_restarts [OF assms(1,3), of s], goal_cases)
  case (1 token sv' s')
  show thesis
    by (rule that [of sv' s' "replace_and_increment st token"])
      (use 1 assms in \<open>auto simp: handle_other_result restart_exited_def bt_get_insert
        replace_and_increment_def\<close>)
qed

lemma exit_defers:
  assumes "starts_succeed env" and "i \<noteq> IdBroadcast"
    and "bt_get (task_states sv) i = Some st" and "MAX_CONSEQUENT_RETRIES \<le> retry st"
  obtains sv' s' t where
    "handle_task_result_and_restart env (i, outcome) sv s = Some (Ok (), sv', s')"
    and "bt_get (task_states sv') = (bt_get (task_states sv))(i := None)"
    and "restart_queue sv' = restart_queue sv @ [(t + restart_delay i, i)]"
  using assms that
  by (auto simp: handle_other_result restart_exited_def place_on_restart_queue_def starts_succeed_def
      bt_get_remove fun_eq_iff)



section \<open>The exit of the broadcaster\<close>

lemma await_reports_blocks:
  assumes recv: "\<forall>s. case reports s of
      [] \<Rightarrow> recv_result env s = None
    | r # rs \<Rightarrow> \<exists>s'. recv_result env s = Some (Some r, s') \<and> reports s' = rs"
  shows "length (reports s) < n \<Longrightarrow> IdBroadcast \<notin> fst ` set (reports s) \<Longrightarrow>
    await_reports env n s = None"
proof (induction n arbitrary: s)
  case (Suc n)
  show ?case
  proof (cases "reports s")
    case Nil
    with recv [rule_format, of s] show ?thesis by simp
  next
    case (Cons r rs)
    with recv [rule_format, of s] obtain s' where "recv_result env s = Some (Some r, s')" "reports s' = rs"
      by auto
    with Cons Suc show ?thesis by (cases r; cases "fst r") auto
  qed
qed simp

text \<open>
  C40: when the broadcaster exits, the supervisor cancels every task and waits for one
  report per task it had, the broadcaster's own included; that one has been consumed
  already, so with exactly one report from each cancelled task the wait never ends.
\<close>

theorem broadcast_exit_blocks:
  assumes "\<forall>s. case reports s of
      [] \<Rightarrow> recv_result env s = None
    | r # rs \<Rightarrow> \<exists>s'. recv_result env s = Some (Some r, s') \<and> reports s' = rs"
    and "bt_get (task_states sv) IdBroadcast \<noteq> None"
    and "map fst (reports (drop_states env (task_states sv) s)) =
      filter (\<lambda>i. i \<noteq> IdBroadcast) (map fst (task_states sv))"
  shows "handle_task_result_and_restart env (IdBroadcast, outcome) sv s = None"
proof -
  let ?s = "drop_states env (task_states sv) s"
  have "IdBroadcast \<in> set (map fst (task_states sv))"
    using assms(2) by (simp add: map_of_eq_None_iff)
  then have "length (filter (\<lambda>i. i \<noteq> IdBroadcast) (map fst (task_states sv))) < length (task_states sv)"
    using length_filter_less [of IdBroadcast "map fst (task_states sv)"] by simp
  then have "length (reports ?s) < length (task_states sv)" by (metis assms(3) length_map)
  moreover have "IdBroadcast \<notin> set (map fst (reports ?s))" unfolding assms(3) by simp
  ultimately have "await_reports env (length (task_states sv)) ?s = None"
    by (intro await_reports_blocks [OF assms(1)]) simp_all
  then show ?thesis
    by (simp add: handle_task_result_and_restart_def handle_task_result_def cancel_tasks_def Let_def)
qed


section \<open>A small world\<close>

text \<open>
  Tokens and channels are numbered, the number also serves as the time; an aborted run
  reports its cancellation once; one protocol has one task.
\<close>

definition example_sup_env ::
  "(nat, nat, nat, nat, nat \<times> (nat \<times> nat task_id) list \<times> nat task_report list) supervisor_env" where
  "example_sup_env =
     \<lparr>spawn = \<lambda>i t st (n, running, reports). (Ok n, (n + 1, (n, i) # running, reports)),
      drop_token = \<lambda>token (n, running, reports).
        (case map_of running token of
           None \<Rightarrow> (n, running, reports)
         | Some i \<Rightarrow> (n, filter (\<lambda>(k, _). k \<noteq> token) running, reports @ [(i, TaskCancelled)])),
      new_channel = \<lambda>(n, running, reports). (n, (n + 1, running, reports)),
      into_task = \<lambda>a tx s. (Ok a, s), application_id = \<lambda>t. t,
      application_protocol = \<lambda>a. if a = 1 then Some ''x'' else None,
      protocol_task_set_ids = \<lambda>p. if p = ''x'' then [1] else [],
      instant_now = \<lambda>(n, _). n, instant_checked_add = \<lambda>t d. Some (t + d),
      recv_result = \<lambda>(n, running, reports).
        (case reports of [] \<Rightarrow> None | r # rs \<Rightarrow> Some (Some r, (n, running, rs)))\<rparr>"

definition example_supervisor :: "(nat, nat, nat) supervisor" where
  "example_supervisor =
     \<lparr>task_states = [(IdBalanceReporter, state_new 2), (IdBroadcast, state_new 3),
                     (IdProtocolWatcher, state_new 4)],
      restart_queue = [], transaction_tx = 0, protocol_watcher_rx = 1\<rparr>"

interpretation example: application_defined example_sup_env
  by unfold_locales (auto simp: example_sup_env_def split: if_splits)

lemmas supervisor_eval = example_sup_env_def task_run_def task_identifier_def less_task_id_def
  state_new_def run_task_def create_task_def

lemma example_started:
  "supervisor_new example_sup_env [] (0, [], []) =
     (Ok example_supervisor,
      (5, [(4, IdProtocolWatcher), (3, IdBroadcast), (2, IdBalanceReporter)], []))"
  by (simp add: supervisor_new_def start_tasks_def supervisor_eval example_supervisor_def)

theorem built_in_tasks_survive_witness:
  "bt_wf (task_states example_supervisor) \<and>
    {IdBalanceReporter, IdBroadcast, IdProtocolWatcher} \<subseteq> tracked example_supervisor"
  using built_in_tasks_survive [OF example.application_defined_axioms
      supervisor_reachable.started [OF example_started]] .



theorem broadcast_exit_blocks_witness:
  "handle_task_result_and_restart example_sup_env (IdBroadcast, TaskPanicked) example_supervisor
     (5, [(4, IdProtocolWatcher), (2, IdBalanceReporter)], []) = None"
proof (rule broadcast_exit_blocks [where reports = "\<lambda>(n, running, reports). reports"], goal_cases)
  case 1
  show ?case by (simp add: example_sup_env_def split: list.splits)
next
  case 2
  show ?case by (simp add: example_supervisor_def)
next
  case 3
  show ?case by (simp add: example_supervisor_def drop_states_def example_sup_env_def state_new_def)
qed

end
