(* ===== verification/Feeder_Id.thy ===== *)
theory Feeder_Id
  imports Feeder Supervisor Configuration
begin

text \<open>
  \<open>market-data-feeder/src/task/id.rs\<close>, \<open>task/context.rs\<close> and \<open>task/mod.rs\<close>: the identifiers of the
  feeder's tasks, the environment variable that names a DEX network's node, and the
  creation of a task with its cache of connections.  Strings are sequences of the bytes
  of their UTF-8 encoding, as Rust indexes them.
\<close>

section \<open>The variable of a network's node\<close>

definition is_ascii_uppercase :: "char \<Rightarrow> bool" where
  "is_ascii_uppercase c \<longleftrightarrow> 65 \<le> (of_char c :: nat) \<and> (of_char c :: nat) \<le> 90"

definition is_ascii_lowercase :: "char \<Rightarrow> bool" where
  "is_ascii_lowercase c \<longleftrightarrow> 97 \<le> (of_char c :: nat) \<and> (of_char c :: nat) \<le> 122"

definition to_ascii_uppercase :: "char \<Rightarrow> char" where
  "to_ascii_uppercase c = (if is_ascii_lowercase c then char_of (of_char c - 32 :: nat) else c)"

text \<open>A byte \<open>10xxxxxx\<close> continues a character; slicing at one panics.\<close>

definition is_continuation :: "char \<Rightarrow> bool" where
  "is_continuation c \<longleftrightarrow> 128 \<le> (of_char c :: nat) \<and> (of_char c :: nat) < 192"

definition is_char_boundary :: "string \<Rightarrow> nat \<Rightarrow> bool" where
  "is_char_boundary s i \<longleftrightarrow> i = length s \<or> i < length s \<and> \<not> is_continuation (s ! i)"

fun find_uppercase :: "string \<Rightarrow> nat option" where
  "find_uppercase [] = None"
| "find_uppercase (c # s) = (if is_ascii_uppercase c then Some 0 else map_option Suc (find_uppercase s))"

definition VAR_SUFFIX :: string where
  "VAR_SUFFIX = ''__NODE_GRPC''"

lemma find_uppercase_less: "find_uppercase s = Some i \<Longrightarrow> i < length s"
  by (induction s arbitrary: i) (auto split: if_splits)

text \<open>The loop that inserts an underscore before every upper-case letter but the first character.\<close>

function insert_underscores :: "nat \<Rightarrow> string \<Rightarrow> string res" where
  "insert_underscores search_index net =
     (if \<not> is_char_boundary net search_index
      then panic ''byte index is not a char boundary''
      else (case find_uppercase (drop search_index net) of
          None \<Rightarrow> Ok net
        | Some offset \<Rightarrow>
            (let index = search_index + offset in
             insert_underscores (index + 2) (take index net @ CHR ''_'' # drop index net))))"
  by auto
termination
proof (relation "measure (\<lambda>(i, s). length s - i)", goal_cases)
  case (2 search_index net offset index)
  then have "offset < length net - search_index" using find_uppercase_less by fastforce
  with 2 show ?case by auto
qed simp

declare insert_underscores.simps [simp del]

definition replace_dash :: "char \<Rightarrow> char" where
  "replace_dash c = (if c = CHR ''-'' then CHR ''_'' else c)"

definition dex_node_grpc_var :: "string \<Rightarrow> string res" where
  "dex_node_grpc_var net =
     (if net = [] then Err [''Protocol's network identifier is zero-length!'']
      else map_res (\<lambda>s. map replace_dash (map to_ascii_uppercase s) @ VAR_SUFFIX)
        (insert_underscores 1 net))"


section \<open>The loop computes a character-wise translation\<close>

definition separated :: "string \<Rightarrow> string" where
  "separated s = concat (map (\<lambda>c. if is_ascii_uppercase c then [CHR ''_'', c] else [c]) s)"

lemma find_uppercase_None: "find_uppercase s = None \<Longrightarrow> separated s = s"
  by (induction s) (auto simp: separated_def split: if_splits)

lemma find_uppercase_Some:
  "find_uppercase s = Some i \<Longrightarrow>
     separated s = take i s @ CHR ''_'' # s ! i # separated (drop (Suc i) s) \<and> is_ascii_uppercase (s ! i)"
  by (induction s arbitrary: i) (auto simp: separated_def split: if_splits)

lemma continuation_not_uppercase: "is_ascii_uppercase c \<Longrightarrow> \<not> is_continuation c"
  by (simp add: is_ascii_uppercase_def is_continuation_def)

text \<open>
  A string in which an upper-case ASCII letter is never followed by a continuation byte,
  as in every UTF-8 encoding.
\<close>

definition utf8_like :: "string \<Rightarrow> bool" where
  "utf8_like s \<longleftrightarrow> (\<forall>i. Suc i < length s \<and> is_ascii_uppercase (s ! i) \<longrightarrow> \<not> is_continuation (s ! Suc i))"

lemma insert_underscores_separated:
  "\<not> (rest \<noteq> [] \<and> is_continuation (hd rest)) \<Longrightarrow> utf8_like rest \<Longrightarrow>
     insert_underscores (length prefix) (prefix @ rest) = Ok (prefix @ separated rest)"
proof (induction "length rest" arbitrary: prefix rest rule: less_induct)
  case less
  have boundary: "is_char_boundary (prefix @ rest) (length prefix)"
    using less.prems(1) by (cases rest) (auto simp: is_char_boundary_def nth_append)
  show ?case
  proof (cases "find_uppercase rest")
    case None
    with boundary show ?thesis
      by (subst insert_underscores.simps) (simp add: find_uppercase_None)
  next
    case (Some k)
    define prefix' where "prefix' = prefix @ take k rest @ CHR ''_'' # [rest ! k]"
    define rest' where "rest' = drop (Suc k) rest"
    have k: "k < length rest" by (rule find_uppercase_less [OF Some])
    note sep = find_uppercase_Some [OF Some]
    have split: "take (length prefix + k) (prefix @ rest) @ CHR ''_'' # drop (length prefix + k) (prefix @ rest) =
        prefix' @ rest'" and len: "length prefix + k + 2 = length prefix'"
      using k by (simp_all add: prefix'_def rest'_def Cons_nth_drop_Suc)
    have "utf8_like rest'" using less.prems(2) k by (auto simp: utf8_like_def rest'_def)
    moreover have "\<not> (rest' \<noteq> [] \<and> is_continuation (hd rest'))"
      using less.prems(2) sep k by (auto simp: utf8_like_def rest'_def hd_drop_conv_nth)
    moreover have "length rest' < length rest" using k by (simp add: rest'_def)
    ultimately have "insert_underscores (length prefix') (prefix' @ rest') = Ok (prefix' @ separated rest')"
      by (intro less.hyps)
    then have "insert_underscores (length prefix) (prefix @ rest) = Ok (prefix' @ separated rest')"
      using boundary Some
      by (subst insert_underscores.simps) (simp add: Let_def split del: if_split flip: split len)
    with sep show ?thesis by (simp add: prefix'_def rest'_def)
  qed
qed

text \<open>
  The slice after the first byte is not checked against the length of the first character:
  a name that begins with a character of several bytes makes it panic.
\<close>

lemma multibyte_network_panics:
  "is_continuation b \<Longrightarrow> panics (dex_node_grpc_var (a # b # net))"
  by (simp add: dex_node_grpc_var_def insert_underscores.simps [of "Suc 0"] is_char_boundary_def)

text \<open>
  C38: for a non-empty network name whose first character is a single byte, the loop and
  the replacements together put an underscore before every upper-case letter after the
  first character, turn letters to upper case and dashes to underscores, and append the
  suffix; the slicing never panics.
\<close>

theorem dex_node_grpc_var_correct:
  assumes "utf8_like (c # cs)" and "\<not> (cs \<noteq> [] \<and> is_continuation (hd cs))"
  shows "dex_node_grpc_var (c # cs) =
    Ok (map (replace_dash \<circ> to_ascii_uppercase) (c # separated cs) @ ''__NODE_GRPC'')"
proof -
  have "utf8_like cs" using assms(1) by (auto simp: utf8_like_def)
  from insert_underscores_separated [OF assms(2) this, of "[c]"] show ?thesis
    by (simp add: dex_node_grpc_var_def VAR_SUFFIX_def)
qed

theorem dex_node_grpc_var_correct_witness:
  "dex_node_grpc_var ''osmosisTest-1'' = Ok ''OSMOSIS_TEST_1__NODE_GRPC''"
proof -
  have "utf8_like ''osmosisTest-1''"
    by (auto simp: utf8_like_def less_Suc_eq is_ascii_uppercase_def is_continuation_def)
  moreover have "\<not> (''smosisTest-1'' \<noteq> [] \<and> is_continuation (hd ''smosisTest-1''))"
    by (simp add: is_continuation_def)
  ultimately have "dex_node_grpc_var (CHR ''o'' # ''smosisTest-1'') =
    Ok (map (replace_dash \<circ> to_ascii_uppercase) (CHR ''o'' # separated ''smosisTest-1'') @ ''__NODE_GRPC'')"
    by (rule dex_node_grpc_var_correct)
  moreover have "map (replace_dash \<circ> to_ascii_uppercase) (CHR ''o'' # separated ''smosisTest-1'') @
      ''__NODE_GRPC'' = ''OSMOSIS_TEST_1__NODE_GRPC''" by code_simp
  ultimately show ?thesis by simp
qed


section \<open>Identifiers, context and tasks\<close>

datatype feeder_id = FeederId (feeder_id_protocol: string)

instantiation feeder_id :: linorder
begin

definition less_eq_feeder_id :: "feeder_id \<Rightarrow> feeder_id \<Rightarrow> bool" where
  "less_eq_feeder_id i j \<longleftrightarrow> feeder_id_protocol i \<le> feeder_id_protocol j"

definition less_feeder_id :: "feeder_id \<Rightarrow> feeder_id \<Rightarrow> bool" where
  "less_feeder_id i j \<longleftrightarrow> feeder_id_protocol i < feeder_id_protocol j"

instance
  by standard (auto simp: less_eq_feeder_id_def less_feeder_id_def intro: feeder_id.expand)

end

record 'client feeder_context =
  dex_node_clients :: "(string, 'client) btree_map"
  context_duration_before_start :: nat
  gas_limit :: gas
  update_currencies_interval :: nat

definition read_feeder_context :: "environment \<Rightarrow> 'client feeder_context res" where
  "read_feeder_context env =
     and_then (read_duration from_secs ''Failed to read duration before feeding starts!''
       env ''DURATION_BEFORE_START'') (\<lambda>before.
     and_then (with_context ''Failed to read gas limit!'' (read_u64 env ''GAS_LIMIT'')) (\<lambda>limit.
     and_then (read_duration from_secs ''Failed to read update currencies interval!''
       env ''UPDATE_CURRENCIES_INTERVAL_SECONDS'') (\<lambda>interval.
     Ok \<lparr>dex_node_clients = [], context_duration_before_start = before, gas_limit = limit,
         update_currencies_interval = interval\<rparr>)))"

datatype feeder_provider = AstroportProvider (provider_router: string) | OsmosisProvider

fun dex_name :: "dex \<Rightarrow> string" where
  "dex_name (DexAstroport router) = ''Astroport''"
| "dex_name DexOsmosis = ''Osmosis''"

fun construct_provider :: "dex \<Rightarrow> feeder_provider" where
  "construct_provider (DexAstroport router) = AstroportProvider router"
| "construct_provider DexOsmosis = OsmosisProvider"

record ('client, 'chan) feeder_task =
  task_base :: feeder_base
  task_oracle :: oracle_state
  task_dex_client :: 'client
  task_template :: msg_execute_contract
  task_transaction_tx :: 'chan
  task_provider :: feeder_provider

definition feeder_task_id :: "('client, 'chan) feeder_task \<Rightarrow> feeder_id" where
  "feeder_task_id t = FeederId (feeder_protocol (task_base t))"

definition feeder_protocol_task_set_ids :: "string \<Rightarrow> feeder_id list" where
  "feeder_protocol_task_set_ids p = [FeederId p]"

record ('client, 's) feeder_creation =
  query_protocol :: "string \<Rightarrow> ('s, protocol) eff"
  connect :: "string \<Rightarrow> ('s, 'client) eff"
  creation_environment :: environment
  creation_oracle :: "'s oracle_queries"

text \<open>The connection to a network's node is opened once and kept.\<close>

definition dex_node_client ::
  "('client, 's) feeder_creation \<Rightarrow> string \<Rightarrow> 'client feeder_context \<Rightarrow> 's \<Rightarrow>
     'client res \<times> 'client feeder_context \<times> 's" where
  "dex_node_client env net ctx s =
     (case bt_get (dex_node_clients ctx) net of
        Some client \<Rightarrow> (Ok client, ctx, s)
      | None \<Rightarrow>
          (case and_then (dex_node_grpc_var net) (read_string (creation_environment env)) of
             Inl e \<Rightarrow> (Inl e, ctx, s)
           | Inr uri \<Rightarrow>
               (case connect env uri s of
                  (Inl e, s') \<Rightarrow> (Inl e, ctx, s')
                | (Inr client, s') \<Rightarrow>
                    (Ok client, ctx\<lparr>dex_node_clients := bt_insert net client (dex_node_clients ctx)\<rparr>, s'))))"

definition feeder_into_task ::
  "('client, 's) feeder_creation \<Rightarrow> 'key service_configuration \<Rightarrow> feeder_id \<Rightarrow> 'chan \<Rightarrow>
     ('client feeder_context \<times> 's, ('client, 'chan) feeder_task) eff" where
  "feeder_into_task env cfg i tx = (\<lambda>(ctx, s).
     let protocol = feeder_id_protocol i in
     case context_eff (''Failed to query protocol's information! Protocol='' @ protocol)
            (query_protocol env protocol) s of
       (Inl e, s1) \<Rightarrow> (Inl e, (ctx, s1))
     | (Inr info, s1) \<Rightarrow>
         (case dex_node_client env (network info) ctx s1 of
            (Inl e, ctx1, s2) \<Rightarrow> (Inl e, (ctx1, s2))
          | (Inr client, ctx1, s2) \<Rightarrow>
              (let ctx2 = ctx1\<lparr>dex_node_clients := bt_insert (network info) client (dex_node_clients ctx1)\<rparr>;
                   address = oracle_contract (contracts info) in
               case oracle_new (creation_oracle env) address (update_currencies_interval ctx2) s2 of
                 (Inl e, s3) \<Rightarrow> (Inl e, (ctx2, s3))
               | (Inr orc, s3) \<Rightarrow>
                   (Ok \<lparr>task_base =
                          \<lparr>feeder_protocol = protocol,
                           feeder_source = dex_name (protocol_dex info) @ ''; Protocol='' @ protocol,
                           duration_before_start = context_duration_before_start ctx2,
                           feeder_idle_duration = idle_duration cfg,
                           feeder_timeout_duration = timeout_duration cfg,
                           feeder_hard_gas_limit = gas_limit ctx2\<rparr>,
                        task_oracle = orc, task_dex_client = client,
                        task_template = execute_template_new (account_id (configured_signer cfg)) address,
                        task_transaction_tx = tx,
                        task_provider = construct_provider (protocol_dex info)\<rparr>, (ctx2, s3)))))"

definition feeder_supervisor_env ::
  "('client, 's) feeder_creation \<Rightarrow> 'key service_configuration \<Rightarrow>
     (feeder_id, 'chan, 'tok, ('client, 'chan) feeder_task, 'client feeder_context \<times> 's) supervisor_env \<Rightarrow>
     (feeder_id, 'chan, 'tok, ('client, 'chan) feeder_task, 'client feeder_context \<times> 's) supervisor_env" where
  "feeder_supervisor_env env cfg base =
     base\<lparr>into_task := feeder_into_task env cfg, application_id := feeder_task_id,
          application_protocol := (\<lambda>i. Some (feeder_id_protocol i)),
          protocol_task_set_ids := feeder_protocol_task_set_ids\<rparr>"

definition feeder_startup_tasks :: "feeder_id list" where
  "feeder_startup_tasks = []"

interpretation feeder: application_defined "feeder_supervisor_env env cfg base"
  for env :: "('client, 's) feeder_creation" and cfg :: "'key service_configuration"
    and base :: "(feeder_id, 'chan, 'tok, ('client, 'chan) feeder_task, 'client feeder_context \<times> 's) supervisor_env"
proof unfold_locales
  fix a tx t and s s' :: "'client feeder_context \<times> 's"
  assume "into_task (feeder_supervisor_env env cfg base) a tx s = (Ok t, s')"
  then show "application_id (feeder_supervisor_env env cfg base) t = a"
    by (cases s; cases a)
      (auto simp: feeder_supervisor_env_def feeder_into_task_def feeder_task_id_def Let_def
        split: prod.splits sum.splits)
next
  fix a p
  assume "a \<in> set (protocol_task_set_ids (feeder_supervisor_env env cfg base) p)"
  then show "application_protocol (feeder_supervisor_env env cfg base) a = Some p"
    by (simp add: feeder_supervisor_env_def feeder_protocol_task_set_ids_def)
qed


section \<open>Connections are reused\<close>

lemma dex_node_client_Ok:
  assumes "dex_node_client env net ctx s = (Ok client, ctx', s')"
  shows "bt_get (dex_node_clients ctx') = (bt_get (dex_node_clients ctx))(net \<mapsto> client)"
    and "bt_get (dex_node_clients ctx) net = Some c \<Longrightarrow> client = c \<and> s' = s"
  using assms by (auto simp: dex_node_client_def bt_get_insert fun_eq_iff split: option.splits sum.splits prod.splits)

text \<open>
  C35: a created task belongs to the protocol asked for, sends to that protocol's oracle
  with the configured limits, and talks to its network's node: the connection cached for
  the network is reused if there is one, a new one is added to the cache otherwise, and
  no other entry of the cache changes.
\<close>

theorem feeder_into_task_correct:
  assumes "feeder_into_task env cfg i tx (ctx, s) = (Ok t, (ctx', s'))"
  shows "\<exists>info s1. query_protocol env (feeder_id_protocol i) s = (Ok info, s1) \<and>
    feeder_task_id t = i \<and>
    msg_contract (task_template t) = oracle_contract (contracts info) \<and>
    contract_address (task_oracle t) = oracle_contract (contracts info) \<and>
    feeder_hard_gas_limit (task_base t) = gas_limit ctx \<and>
    task_provider t = construct_provider (protocol_dex info) \<and>
    bt_get (dex_node_clients ctx') =
      (bt_get (dex_node_clients ctx))(network info \<mapsto> task_dex_client t) \<and>
    (case bt_get (dex_node_clients ctx) (network info) of
       Some client \<Rightarrow> task_dex_client t = client
     | None \<Rightarrow> \<exists>var uri s2. dex_node_grpc_var (network info) = Ok var \<and>
         creation_environment env var = Ok uri \<and> connect env uri s1 = (Ok (task_dex_client t), s2))"
proof -
  from assms obtain info s1 where info: "query_protocol env (feeder_id_protocol i) s = (Ok info, s1)"
    by (auto simp: feeder_into_task_def Let_def context_eff_def split: prod.splits sum.splits)
  obtain r ctx1 s2 where dex: "dex_node_client env (network info) ctx s1 = (r, ctx1, s2)"
    by (cases "dex_node_client env (network info) ctx s1") auto
  with assms info obtain client where r: "r = Ok client"
    by (cases r) (auto simp: feeder_into_task_def Let_def context_eff_def)
  note dex = dex [unfolded r]
  let ?ctx2 = "ctx1\<lparr>dex_node_clients := bt_insert (network info) client (dex_node_clients ctx1)\<rparr>"
  let ?address = "oracle_contract (contracts info)"
  from assms info dex obtain orc s3 where
    orc: "oracle_new (creation_oracle env) ?address (update_currencies_interval ctx1) s2 = (Ok orc, s3)"
    and ctx': "ctx' = ?ctx2" and task: "task_dex_client t = client" "task_oracle t = orc"
      "feeder_task_id t = i" "msg_contract (task_template t) = ?address"
      "feeder_hard_gas_limit (task_base t) = gas_limit ctx1"
      "task_provider t = construct_provider (protocol_dex info)"
    by (auto simp: feeder_into_task_def Let_def context_eff_def feeder_task_id_def
        execute_template_new_def split: prod.splits sum.splits)
  have "contract_address orc = ?address"
    using orc by (auto simp: oracle_new_def bind_eff_eq_Ok Let_def)
  moreover have "gas_limit ctx1 = gas_limit ctx"
    using dex by (auto simp: dex_node_client_def split: option.splits sum.splits prod.splits)
  moreover have "bt_get (dex_node_clients ctx') =
      (bt_get (dex_node_clients ctx))(network info \<mapsto> client)"
    using dex_node_client_Ok(1) [OF dex] ctx' by (auto simp: bt_get_insert fun_eq_iff)
  moreover have "case bt_get (dex_node_clients ctx) (network info) of
       Some c \<Rightarrow> client = c
     | None \<Rightarrow> \<exists>var uri s2. dex_node_grpc_var (network info) = Ok var \<and>
         creation_environment env var = Ok uri \<and> connect env uri s1 = (Ok client, s2)"
    using dex by (auto simp: dex_node_client_def split: option.splits sum.splits prod.splits)
  ultimately show ?thesis using info task by auto
qed

definition example_creation :: "(string, unit) feeder_creation" where
  "example_creation =
     \<lparr>query_protocol = \<lambda>p s. (Ok \<lparr>network = ''Osmosis'', protocol_dex = DexOsmosis,
        contracts = \<lparr>oracle_contract = ''nolus1oracle''\<rparr>\<rparr>, s),
      connect = \<lambda>uri s. (Ok uri, s), creation_environment = \<lambda>_. Ok ''http://dex'',
      creation_oracle =
        \<lparr>smart_version = \<lambda>_ _ s. (Ok (SemVer 0 5 15), s), smart_currencies = \<lambda>_ _ s. (Ok [], s),
         smart_currency_pairs = \<lambda>_ _ s. (Ok [], s), instant_now = \<lambda>_. 0\<rparr>\<rparr>"

definition example_context :: "string feeder_context" where
  "example_context =
     \<lparr>dex_node_clients = [(''Osmosis'', ''cached'')], context_duration_before_start = 0,
      gas_limit = 1000, update_currencies_interval = 60\<rparr>"

lemma example_created:
  "\<exists>t ctx'. feeder_into_task example_creation example_configuration (FeederId ''P'') () (example_context, ()) =
     (Ok t, (ctx', ()))"
  by (simp add: feeder_into_task_def example_creation_def example_context_def context_eff_def
      dex_node_client_def oracle_new_def bind_eff_def lift_eff_def ret_eff_def query_currencies_def
      query_currency_pairs_def map_eff_def check_compatibility_def CONTRACT_VERSION_def Let_def)

theorem feeder_into_task_correct_witness:
  "\<exists>t ctx'. feeder_into_task example_creation example_configuration (FeederId ''P'') () (example_context, ()) =
     (Ok t, (ctx', ())) \<and> feeder_task_id t = FeederId ''P'' \<and> task_dex_client t = ''cached''"
proof -
  obtain t ctx' where run: "feeder_into_task example_creation example_configuration (FeederId ''P'') ()
      (example_context, ()) = (Ok t, (ctx', ()))" using example_created by blast
  from feeder_into_task_correct [OF run] have "feeder_task_id t = FeederId ''P'' \<and> task_dex_client t = ''cached''"
    by (auto simp: example_creation_def example_context_def)
  with run show ?thesis by blast
qed

end
