(* ===== verification/Defer.thy ===== *)
theory Defer
  imports Prelude
begin

text \<open>
  \<open>chain-ops/src/defer.rs\<close>: a value together with a closure that is called on it when the
  wrapper is dropped.  The closure may change the value and the world.
\<close>

record ('v, 's) defer_guard =
  deferred :: "'v \<Rightarrow> 's \<Rightarrow> 'v \<times> 's"
  defer_value :: 'v

definition defer_new :: "'v \<Rightarrow> ('v \<Rightarrow> 's \<Rightarrow> 'v \<times> 's) \<Rightarrow> ('v, 's) defer_guard" where
  "defer_new value f = \<lparr>deferred = f, defer_value = value\<rparr>"

definition defer_copied :: "('v, 's) defer_guard \<Rightarrow> ('v, 's) defer_guard" where
  "defer_copied d = \<lparr>deferred = deferred d, defer_value = defer_value d\<rparr>"

text \<open>Reading, and changing the value in place by an operation \<open>f\<close> with a result.\<close>

definition defer_deref :: "('v, 's) defer_guard \<Rightarrow> 'v" where
  "defer_deref d = defer_value d"

definition defer_deref_mut :: "('v \<Rightarrow> 'a \<times> 'v) \<Rightarrow> ('v, 's) defer_guard \<Rightarrow> 'a \<times> ('v, 's) defer_guard" where
  "defer_deref_mut f d = (case f (defer_value d) of (result, value) \<Rightarrow> (result, d\<lparr>defer_value := value\<rparr>))"

text \<open>\<open>AsRef\<close>, \<open>Borrow\<close> and their mutable forms give access to the same value.\<close>

definition defer_as_ref :: "('v, 's) defer_guard \<Rightarrow> 'v" where
  "defer_as_ref d = defer_value d"

definition defer_as_mut :: "('v \<Rightarrow> 'a \<times> 'v) \<Rightarrow> ('v, 's) defer_guard \<Rightarrow> 'a \<times> ('v, 's) defer_guard" where
  "defer_as_mut f d = (case f (defer_value d) of (result, value) \<Rightarrow> (result, d\<lparr>defer_value := value\<rparr>))"

definition defer_borrow :: "('v, 's) defer_guard \<Rightarrow> 'v" where
  "defer_borrow d = defer_value d"

definition defer_borrow_mut :: "('v \<Rightarrow> 'a \<times> 'v) \<Rightarrow> ('v, 's) defer_guard \<Rightarrow> 'a \<times> ('v, 's) defer_guard" where
  "defer_borrow_mut f d = (case f (defer_value d) of (result, value) \<Rightarrow> (result, d\<lparr>defer_value := value\<rparr>))"

definition defer_drop :: "('v, 's) defer_guard \<Rightarrow> 's \<Rightarrow> 's" where
  "defer_drop d s = snd (deferred d (defer_value d) s)"

text \<open>A sequence of uses of the wrapped value.\<close>

fun defer_use :: "('v \<Rightarrow> 'a \<times> 'v) list \<Rightarrow> ('v, 's) defer_guard \<Rightarrow> ('v, 's) defer_guard" where
  "defer_use [] d = d"
| "defer_use (f # fs) d = defer_use fs (snd (defer_deref_mut f d))"

text \<open>
  Whatever was done with the wrapped value, dropping the wrapper runs the closure it was
  created with, on the value as it is by then.
\<close>

lemma defer_drop_runs:
  "defer_drop (defer_use fs (defer_new v f)) s = snd (f (fold (\<lambda>g v. snd (g v)) fs v) s)"
proof (induction fs arbitrary: v)
  case (Cons g fs)
  have "snd (defer_deref_mut g (defer_new v f)) = defer_new (snd (g v)) f"
    by (simp add: defer_deref_mut_def defer_new_def split: prod.split)
  with Cons show ?case by simp
qed (simp add: defer_drop_def defer_new_def)

end
