(* ===== verification/Feeder_Exit.thy ===== *)
theory Feeder_Exit
  imports Feeder Defer
begin

text \<open>
  The whole life of a feeding task (\<open>Provider::run\<close> of
  \<open>market-data-feeder/src/task/provider.rs\<close>): its start, the turns of its loop, and what the
  locals of \<open>run\<close> do when they are dropped, because the task fails or because it is
  stopped while it waits.  No query may outlive the task that asked for it.
\<close>

section \<open>The run and its end\<close>

text \<open>
  Aborting a query's handle, and the \<open>abort_all\<close> of \<open>tokio\<close>'s join set; the set is given by the
  number of fetches that run in it.
\<close>

record ('h, 's) feeder_drops =
  abort_query :: "'h \<Rightarrow> 's \<Rightarrow> 's"
  join_set_abort_all :: "nat \<Rightarrow> 's \<Rightarrow> 's"

text \<open>The turns; \<open>None\<close> when the task has not failed by itself.\<close>

fun feeder_loop ::
  "('msg, 'h, 'any, 'rx, 's) feeder_env \<Rightarrow> feeder_base \<Rightarrow> 'h feeder_wakeup list \<Rightarrow> ('msg, 'h) feeder \<Rightarrow> 's \<Rightarrow>
     unit res option \<times> ('msg, 'h) feeder \<times> 's" where
  "feeder_loop env base [] f s = (None, f, s)"
| "feeder_loop env base (w # ws) f s =
     (case feeder_turn env base w f s of
        (Inl e, f', s') \<Rightarrow> (Some (Inl e), f', s')
      | (Inr _, f', s') \<Rightarrow> feeder_loop env base ws f' s')"

text \<open>
  The locals are dropped in the reverse order of their declaration: the deferred set of
  fetches first, then the set of queries.
\<close>

definition fetch_delivered_set ::
  "('h, 's) feeder_drops \<Rightarrow> ('msg, 'h) feeder \<Rightarrow> (nat, 's) defer_guard" where
  "fetch_delivered_set drops f = defer_new (running_fetches f) (\<lambda>n s. (n, join_set_abort_all drops n s))"

definition feeder_drop :: "('h, 's) feeder_drops \<Rightarrow> ('msg, 'h) feeder \<Rightarrow> 's \<Rightarrow> 's" where
  "feeder_drop drops f s =
     task_set_drop (abort_query drops) (queries_task_set f) (defer_drop (fetch_delivered_set drops f) s)"

definition feeder_run ::
  "('h, 's) feeder_drops \<Rightarrow> ('msg, 'h, 'any, 'rx, 's) feeder_env \<Rightarrow> feeder_base \<Rightarrow> (nat \<Rightarrow> 's \<Rightarrow> 's) \<Rightarrow>
     runnable_state \<Rightarrow> ('h \<Rightarrow> price joined option) list \<Rightarrow> 'h feeder_wakeup list \<Rightarrow> oracle_state \<Rightarrow>
     msg_execute_contract \<Rightarrow> 's \<Rightarrow> unit res option \<times> 's" where
  "feeder_run drops env base sleep_for state polls ws orc template s =
     (case feeder_start env base sleep_for state polls orc template s of
        (r, None, s1) \<Rightarrow> (r, s1)
      | (Some (Inr _), Some f, s1) \<Rightarrow>
          (case feeder_loop env base ws f s1 of (r, f', s2) \<Rightarrow> (r, feeder_drop drops f' s2))
      | (r, Some f, s1) \<Rightarrow> (r, task_set_drop (abort_query drops) (queries_task_set f) s1))"


section \<open>Queries that were started\<close>

text \<open>
  \<open>spawned\<close> and \<open>aborted\<close> are the handles of all queries started, and of all aborted, so far.
\<close>

definition tracks_queries ::
  "('h, 's) feeder_drops \<Rightarrow> ('msg, 'h, 'any, 'rx, 's) feeder_env \<Rightarrow> (nat \<Rightarrow> 's \<Rightarrow> 's) \<Rightarrow>
     ('s \<Rightarrow> 'h list) \<Rightarrow> ('s \<Rightarrow> 'h list) \<Rightarrow> bool" where
  "tracks_queries drops env sleep_for spawned aborted \<longleftrightarrow>
     (\<forall>pair m s. spawned (snd (spawn_query env pair m s)) = spawned s @ [fst (spawn_query env pair m s)]) \<and>
     (\<forall>s. spawned (snd (dex_syncing env s)) = spawned s) \<and>
     (\<forall>s. spawned (snd (dex_latest_block env s)) = spawned s) \<and>
     (\<forall>pkg s. spawned (snd (send_tx env pkg s)) = spawned s) \<and>
     (\<forall>rx s. spawned (spawn_fetch env rx s) = spawned s) \<and>
     (\<forall>a m s. spawned (snd (smart_currencies (oracle_env env) a m s)) = spawned s) \<and>
     (\<forall>a m s. spawned (snd (smart_currency_pairs (oracle_env env) a m s)) = spawned s) \<and>
     (\<forall>d s. spawned (sleep_for d s) = spawned s) \<and>
     (\<forall>h s. spawned (abort_query drops h s) = spawned s \<and> aborted (abort_query drops h s) = aborted s @ [h]) \<and>
     (\<forall>n s. spawned (join_set_abort_all drops n s) = spawned s)"

text \<open>Each query started since the first \<open>n\<close> is waited for, or some poll of \<open>P\<close> has seen its end.\<close>

definition seen_finished :: "('h \<Rightarrow> 'a option) set \<Rightarrow> 'h set" where
  "seen_finished P = (\<Union>poll \<in> P. {h. poll h \<noteq> None})"

definition accounted ::
  "('h \<Rightarrow> 'a option) set \<Rightarrow> nat \<Rightarrow> (currency_pair, 'h) task_set \<Rightarrow> 'h list \<Rightarrow> bool" where
  "accounted P n ts hs \<longleftrightarrow> task_set_wf ts \<and> set (drop n hs) \<subseteq> handles ts \<union> seen_finished P"

lemma accounted_join:
  assumes "accounted P n ts hs" and "join_next poll ts = Ok (out, ts')"
  shows "accounted (insert poll P) n ts' hs"
proof -
  have wf: "task_set_wf ts" using assms(1) by (simp add: accounted_def)
  have "handles ts \<subseteq> handles ts' \<union> {h. poll h \<noteq> None}" by (rule join_next_handles [OF wf assms(2)])
  with assms(1) join_next_wf [OF wf assms(2)] show ?thesis
    by (simp add: accounted_def seen_finished_def) blast
qed

lemma accounted_more: "accounted P n ts hs \<Longrightarrow> accounted (insert poll P) n ts hs"
  by (auto simp: accounted_def seen_finished_def)

lemma accounted_add:
  assumes "accounted P n ts hs"
  shows "accounted P n (add_handle pair h ts) (hs @ [h])"
proof -
  have "set (drop n (hs @ [h])) \<subseteq> insert h (set (drop n hs))"
    using set_drop_subset [of "n - length hs" "[h]"] by auto
  with assms show ?thesis by (auto simp: accounted_def task_set_wf_def) (simp_all add: add_handle_def)
qed

lemma spawn_all_accounted:
  assumes "tracks_queries drops env sleep_for spawned aborted"
  shows "accounted P n ts (spawned s) \<Longrightarrow> spawn_all env ms ts s = (ts', s') \<Longrightarrow> accounted P n ts' (spawned s')"
proof (induction ms arbitrary: ts s)
  case (Cons m ms)
  obtain pair message where m: "m = (pair, message)" by fastforce
  obtain h s1 where sp: "spawn_query env pair message s = (h, s1)" by fastforce
  with assms have "spawned s1 = spawned s @ [h]" unfolding tracks_queries_def by (metis fst_conv snd_conv)
  with Cons.prems(1) have "accounted P n (add_handle pair h ts) (spawned s1)" by (simp add: accounted_add)
  from Cons.IH [OF this] Cons.prems(2) m sp show ?case by simp
qed simp

text \<open>What the operations of the feeder keep.\<close>

lemma tracks_height:
  assumes "tracks_queries drops env sleep_for spawned aborted" and "get_dex_block_height env s = (r, s')"
  shows "spawned s' = spawned s"
  using get_dex_block_height_keeps [of spawned env s] assms by (simp add: tracks_queries_def)

lemma spawn_query_tasks_accounted:
  assumes "tracks_queries drops env sleep_for spawned aborted"
    and "accounted P n (queries_task_set f) (spawned s)" and "spawn_query_tasks env f s = (r, f', s')"
  shows "accounted P n (queries_task_set f') (spawned s')"
proof -
  obtain u orc s1 where up: "update_currencies_and_pairs (oracle_env env) (feeder_oracle f) s = (u, orc, s1)"
    by (cases "update_currencies_and_pairs (oracle_env env) (feeder_oracle f) s") auto
  have "spawned s1 = spawned s"
    using update_keeps [of spawned env "feeder_oracle f" s] assms(1) up by (simp add: tracks_queries_def)
  with assms(2) have acc: "accounted P n (queries_task_set f) (spawned s1)" by simp
  show ?thesis
    using assms(3) up acc
    by (auto simp: spawn_query_tasks_def dest: spawn_all_accounted [OF assms(1) acc]
        split: sum.splits prod.splits if_splits)
qed

lemma on_tick_accounted:
  assumes "tracks_queries drops env sleep_for spawned aborted"
    and "accounted P n (queries_task_set f) (spawned s)" and "on_tick env f s = (r, f', s')"
  shows "accounted P n (queries_task_set f') (spawned s')"
proof -
  obtain h s1 where height: "get_dex_block_height env s = (h, s1)" by fastforce
  with assms have acc: "accounted P n (queries_task_set f) (spawned s1)"
    using tracks_height [OF assms(1) height] by simp
  have acc': "accounted P n (queries_task_set (f\<lparr>dex_block_height := b\<rparr>)) (spawned s1)" for b
    using acc by simp
  show ?thesis
    using assms(3) height acc spawn_query_tasks_accounted [OF assms(1) acc']
    by (auto simp: on_tick_def split: sum.splits prod.splits if_splits)
qed

lemma send_for_broadcast_spawned:
  assumes "tracks_queries drops env sleep_for spawned aborted" and "send_for_broadcast env base f s = (r, f', s')"
  shows "spawned s' = spawned s \<and> queries_task_set f' = queries_task_set f"
proof -
  have "spawned (snd (context_eff m (send_tx env pkg) s)) = spawned s" for m pkg
    using assms(1) by (simp add: tracks_queries_def context_eff_def split: prod.split) (metis snd_conv)
  with assms(2) show ?thesis
    by (auto simp: send_for_broadcast_def Let_def split: sum.splits prod.splits) (metis snd_conv)+
qed

lemma on_query_joined_spawned:
  assumes "tracks_queries drops env sleep_for spawned aborted"
    and "on_query_joined env base pair joined f s = (r, f', s')"
  shows "spawned s' = spawned s \<and> queries_task_set f' = queries_task_set f"
proof (cases joined rule: panics.cases)
  case (3 result)
  define g where "g = f\<lparr>price_collection_buffer :=
    handle_price_query_result pair result (price_collection_buffer f)\<rparr>"
  obtain r1 f1 s1 where send: "send_for_broadcast env base g s = (r1, f1, s1)"
    by (cases "send_for_broadcast env base g s") auto
  have "spawned (spawn_fetch env rx s1) = spawned s1" for rx
    using assms(1) by (simp add: tracks_queries_def)
  with send_for_broadcast_spawned [OF assms(1) send] assms(2) 3 send show ?thesis
    by (auto simp: on_query_joined_def Let_def simp flip: g_def split: if_splits sum.splits) (auto simp: g_def)
qed (use assms(2) in \<open>auto simp: on_query_joined_def\<close>)

lemma on_fetch_joined_spawned:
  "on_fetch_joined base joined f s = (r, f', s') \<Longrightarrow> s' = s \<and> queries_task_set f' = queries_task_set f"
  by (auto simp: on_fetch_joined_def Let_def split: sum.splits)

lemma other_branches_accounted:
  assumes "tracks_queries drops env sleep_for spawned aborted"
    and "accounted P n (queries_task_set f) (spawned s)" and "other_branches env base w f s = (r, f', s')"
  shows "accounted P n (queries_task_set f') (spawned s')"
  using assms(2,3) on_tick_accounted [OF assms(1,2)]
  by (auto simp: other_branches_def dest: on_fetch_joined_spawned split: option.splits if_splits)

lemma feeder_turn_accounted:
  assumes tr: "tracks_queries drops env sleep_for spawned aborted"
    and acc: "accounted P n (queries_task_set f) (spawned s)" and turn: "feeder_turn env base w f s = (r, f', s')"
  shows "accounted (insert (poll_query w) P) n (queries_task_set f') (spawned s')"
proof (cases "task_set_is_empty (queries_task_set f)")
  case True
  with turn have "other_branches env base w f s = (r, f', s')" by (simp add: feeder_turn_def)
  from other_branches_accounted [OF tr acc this] show ?thesis by (rule accounted_more)
next
  case False
  have "task_set_wf (queries_task_set f)" using acc by (simp add: accounted_def)
  then obtain out ts where join: "join_next (poll_query w) (queries_task_set f) = Ok (out, ts)"
    by (rule join_next_returns)
  let ?f = "f\<lparr>queries_task_set := ts\<rparr>"
  have acc': "accounted (insert (poll_query w) P) n (queries_task_set ?f) (spawned s)"
    using accounted_join [OF acc join] by simp
  consider pair joined where "out = Ready (Some (pair, joined))" | "\<nexists>pair joined. out = Ready (Some (pair, joined))"
    by blast
  then show ?thesis
  proof cases
    case 1
    with turn False join have "on_query_joined env base pair joined ?f s = (r, f', s')"
      by (simp add: feeder_turn_def)
    with on_query_joined_spawned [OF tr this] acc' show ?thesis by simp
  next
    case 2
    with turn False join have "other_branches env base w ?f s = (r, f', s')"
      by (auto simp: feeder_turn_def split: poll.splits option.splits)
    from other_branches_accounted [OF tr acc' this] show ?thesis .
  qed
qed

lemma feeder_loop_accounted:
  assumes "tracks_queries drops env sleep_for spawned aborted"
  shows "accounted P n (queries_task_set f) (spawned s) \<Longrightarrow> feeder_loop env base ws f s = (r, f', s') \<Longrightarrow>
    accounted (P \<union> poll_query ` set ws) n (queries_task_set f') (spawned s')"
proof (induction ws arbitrary: P f s)
  case (Cons w ws)
  obtain r1 f1 s1 where turn: "feeder_turn env base w f s = (r1, f1, s1)"
    by (cases "feeder_turn env base w f s") auto
  note acc = feeder_turn_accounted [OF assms Cons.prems(1) turn]
  show ?case
  proof (cases r1)
    case (Inl e)
    with Cons.prems(2) turn acc show ?thesis by (auto simp: accounted_def seen_finished_def)
  next
    case (Inr u)
    with Cons.prems(2) turn have "feeder_loop env base ws f1 s1 = (r, f', s')" by simp
    from Cons.IH [OF acc this] show ?thesis by simp
  qed
qed simp

lemma initial_fetch_accounted:
  "accounted P n ts hs \<Longrightarrow> initial_fetch polls ts = (r, ts') \<Longrightarrow> accounted (P \<union> set polls) n ts' hs"
proof (induction polls arbitrary: P ts r ts')
  case (Cons poll polls)
  have "task_set_wf ts" using Cons.prems(1) by (simp add: accounted_def)
  then obtain out ts1 where join: "join_next poll ts = Ok (out, ts1)" by (rule join_next_returns)
  note acc = accounted_join [OF Cons.prems(1) join]
  have stop: "accounted (P \<union> set (poll # polls)) n ts1 hs"
    using acc by (auto simp: accounted_def seen_finished_def)
  have rest: "accounted (P \<union> set (poll # polls)) n ts2 hs" if "initial_fetch polls ts1 = (q, ts2)" for q ts2
    using Cons.IH [OF acc that] by simp
  consider "out = Pending" | "out = Ready None" | pair joined where "out = Ready (Some (pair, joined))"
    by (metis option.exhaust poll.exhaust prod.exhaust)
  then show ?case
  proof cases
    case 3
    then show ?thesis
      using Cons.prems(2) join stop rest
      by (cases joined rule: panics.cases) (auto split: prod.splits)
  qed (use Cons.prems(2) join stop rest in auto)
qed simp

lemma feeder_start_accounted:
  fixes env :: "('msg, 'h, 'any, 'rx, 's) feeder_env"
  assumes tr: "tracks_queries drops env sleep_for spawned aborted"
    and start: "feeder_start env base sleep_for state polls orc template s = (r, f, s')"
  shows "case f of
      None \<Rightarrow> spawned s' = spawned s
    | Some f \<Rightarrow> accounted (set polls) (length (spawned s)) (queries_task_set f) (spawned s')"
proof (cases "provider_messages_for env orc")
  case (Inr ms)
  obtain h s1 where height: "get_dex_block_height env s = (h, s1)" by fastforce
  have same: "spawned s1 = spawned s" by (rule tracks_height [OF tr height])
  show ?thesis
  proof (cases h)
    case (Inr b)
    define f0 :: "('msg, 'h) feeder" where "f0 = \<lparr>feeder_oracle = orc, execute_template = template,
      query_messages = ms, queries_task_set = task_set_new, price_collection_buffer = [],
      dex_block_height = b, fallback_gas_estimate = 0, running_fetches = 0\<rparr>"
    have acc0: "accounted {} (length (spawned s)) (queries_task_set f0) (spawned s1)"
      by (simp add: accounted_def same f0_def task_set_wf_def task_set_new_def)
    show ?thesis
    proof (cases state)
      case New
      obtain q f1 s2 where sp: "spawn_query_tasks env f0 s1 = (q, f1, s2)"
        by (cases "spawn_query_tasks env f0 s1") auto
      obtain p ts where fetch: "initial_fetch polls (queries_task_set f1) = (p, ts)" by fastforce
      have acc1: "accounted {} (length (spawned s)) (queries_task_set f1) (spawned s2)"
        by (rule spawn_query_tasks_accounted [OF tr acc0 sp])
      then have "accounted (set polls) (length (spawned s)) (queries_task_set f1) (spawned s2)"
        by (auto simp: accounted_def seen_finished_def)
      moreover have "accounted (set polls) (length (spawned s)) ts (spawned s2)"
        using initial_fetch_accounted [OF acc1 fetch] by simp
      moreover have "spawned (sleep_for d s2) = spawned s2" for d
        using tr by (simp add: tracks_queries_def)
      ultimately show ?thesis
        using start New height Inr \<open>provider_messages_for env orc = Ok ms\<close> sp fetch
        by (auto simp: feeder_start_def Let_def simp flip: f0_def split: sum.splits option.splits)
    qed (use start height Inr \<open>provider_messages_for env orc = Ok ms\<close> acc0 in
        \<open>auto simp: feeder_start_def f0_def accounted_def seen_finished_def\<close>)
  qed (use start height same Inr in \<open>auto simp: feeder_start_def\<close>)
qed (use start in \<open>auto simp: feeder_start_def\<close>)

lemma drop_accounted:
  assumes "tracks_queries drops env sleep_for spawned aborted"
    and "accounted P (length hs) ts (spawned s)"
  shows "set (drop (length hs) (spawned (task_set_drop (abort_query drops) ts s))) \<subseteq>
    set (aborted (task_set_drop (abort_query drops) ts s)) \<union> seen_finished P"
proof -
  have "aborted (task_set_drop (abort_query drops) ts s) = aborted s @ map snd (tasks ts)"
    using assms(1) by (intro task_set_drop_aborts) (simp add: tracks_queries_def)
  moreover have "spawned (fold (\<lambda>(data, handle). abort_query drops handle) ps s) = spawned s" for ps s
    using assms(1) by (induction ps arbitrary: s) (auto simp: tracks_queries_def)
  then have "spawned (task_set_drop (abort_query drops) ts s) = spawned s"
    by (simp add: task_set_drop_def abort_all_def)
  ultimately show ?thesis using assms(2) by (auto simp: accounted_def handles_def)
qed

text \<open>
  C14: a price query never outlives its feeder: however the task ends, at its start or in its
  loop, by a failure of its own or because it is stopped while it waits, each query that
  it started had finished when it was last polled, or is aborted.
\<close>

theorem feeder_leaves_no_query:
  assumes "tracks_queries drops env sleep_for spawned aborted"
    and "feeder_run drops env base sleep_for state polls ws orc template s = (r, s')"
  shows "\<forall>h \<in> set (drop (length (spawned s)) (spawned s')).
    h \<in> set (aborted s') \<or> (\<exists>poll \<in> set polls \<union> poll_query ` set ws. poll h \<noteq> None)"
proof -
  obtain q f s1 where start: "feeder_start env base sleep_for state polls orc template s = (q, f, s1)"
    by (cases "feeder_start env base sleep_for state polls orc template s") auto
  note acc = feeder_start_accounted [OF assms(1) start]
  have "set (drop (length (spawned s)) (spawned s')) \<subseteq>
      set (aborted s') \<union> seen_finished (set polls \<union> poll_query ` set ws)"
  proof (cases f)
    case None
    with acc start assms(2) show ?thesis by (auto simp: feeder_run_def split: option.splits sum.splits)
  next
    case (Some g)
    show ?thesis
    proof (cases "\<exists>u. q = Some (Ok u)")
      case True
      obtain r2 f2 s2 where loop: "feeder_loop env base ws g s1 = (r2, f2, s2)"
        by (cases "feeder_loop env base ws g s1") auto
      with True Some start assms(2) have s': "s' = feeder_drop drops f2 s2" by (auto simp: feeder_run_def)
      let ?s = "defer_drop (fetch_delivered_set drops f2) s2"
      have "spawned ?s = spawned s2"
        using assms(1) by (simp add: tracks_queries_def defer_drop_def fetch_delivered_set_def defer_new_def)
      with feeder_loop_accounted [OF assms(1) _ loop] acc Some
      have "accounted (set polls \<union> poll_query ` set ws) (length (spawned s)) (queries_task_set f2) (spawned ?s)"
        by simp
      from drop_accounted [OF assms(1) this] show ?thesis by (simp add: s' feeder_drop_def)
    next
      case False
      with Some start assms(2) have s': "s' = task_set_drop (abort_query drops) (queries_task_set g) s1"
        by (auto simp: feeder_run_def split: option.splits sum.splits)
      from acc Some have "accounted (set polls) (length (spawned s)) (queries_task_set g) (spawned s1)" by simp
      from drop_accounted [OF assms(1) this] show ?thesis unfolding s' by (auto simp: seen_finished_def)
    qed
  qed
  then have "h \<in> set (aborted s') \<or> h \<in> seen_finished (set polls \<union> poll_query ` set ws)"
    if "h \<in> set (drop (length (spawned s)) (spawned s'))" for h using that by auto
  then show ?thesis by (simp only: seen_finished_def UN_iff mem_Collect_eq) simp
qed



section \<open>A feeder stopped in the middle of a round\<close>

text \<open>
  Queries are numbered; the state is the queries started, those aborted and the block.  The
  only query is never answered.
\<close>

type_synonym query_world = "nat list \<times> nat list \<times> u64"

definition example_query_env :: "(unit, nat, string, unit, query_world) feeder_env" where
  "example_query_env =
     \<lparr>provider_messages_for = \<lambda>_. Ok [(example_pair, ())],
      oracle_env = \<lparr>smart_version = \<lambda>_ _ s. (Ok (SemVer 0 5 15), s), smart_currencies = \<lambda>_ _ s. (Ok [], s),
        smart_currency_pairs = \<lambda>_ _ s. (Ok [], s), instant_now = \<lambda>_. 0\<rparr>,
      dex_syncing = \<lambda>s. (Ok False, s), dex_latest_block = \<lambda>(hs, as, b). (Ok b, (hs, as, b + 1)),
      spawn_query = \<lambda>_ _ (hs, as, b). (length hs, (hs @ [length hs], as, b)),
      encode_prices = \<lambda>_. Ok [], encode_any = \<lambda>m. Ok (msg_bytes m), send_tx = \<lambda>_ s. (Ok (), s),
      spawn_fetch = \<lambda>_ s. s, instant_after = \<lambda>d _. Ok d\<rparr>"

definition example_drops :: "(nat, query_world) feeder_drops" where
  "example_drops =
     \<lparr>abort_query = \<lambda>h (hs, as, b). (hs, as @ [h], b), join_set_abort_all = \<lambda>_ s. s\<rparr>"

definition example_silence :: "nat feeder_wakeup" where
  "example_silence = \<lparr>poll_query = \<lambda>_. None, fetch_joined = None, tick = True\<rparr>"

lemma example_tracks: "tracks_queries example_drops example_query_env (\<lambda>_ s. s) fst (fst \<circ> snd)"
  by (auto simp: tracks_queries_def example_drops_def example_query_env_def)

lemma example_stopped:
  "\<exists>r b. feeder_run example_drops example_query_env example_base (\<lambda>_ s. s) Restart [] [example_silence]
     example_oracle (execute_template_new ''a'' ''b'') ([], [], 1) = (r, ([0], [0], b))"
  by (simp add: feeder_run_def feeder_start_def feeder_turn_def other_branches_def on_tick_def
      spawn_query_tasks_def feeder_drop_def fetch_delivered_set_def defer_drop_def defer_new_def
      task_set_drop_def abort_all_def example_query_env_def example_drops_def example_silence_def
      get_dex_block_height_def bind_eff_def task_set_is_empty_def task_set_new_def
      update_currencies_and_pairs_def example_oracle_def add_handle_def word_le_nat_alt)

theorem feeder_leaves_no_query_witness:
  "\<exists>r b. feeder_run example_drops example_query_env example_base (\<lambda>_ s. s) Restart [] [example_silence]
     example_oracle (execute_template_new ''a'' ''b'') ([], [], 1) = (r, ([0], [0], b)) \<and>
     0 \<in> set (fst (snd ([0 :: nat], [0 :: nat], b)))"
proof -
  obtain r b where run: "feeder_run example_drops example_query_env example_base (\<lambda>_ s. s) Restart []
      [example_silence] example_oracle (execute_template_new ''a'' ''b'') ([], [], 1) = (r, ([0], [0], b))"
    using example_stopped by blast
  with feeder_leaves_no_query [OF example_tracks run] show ?thesis by (auto simp: example_silence_def)
qed

end
