(* ===== verification/Built_In.thy ===== *)
theory Built_In
  imports Broadcast Balance_Reporter Configuration Feeder_Id Feeder_Exit
begin

text \<open>
  How tasks are put together from the configuration of the service: the constructors of the
  built-in tasks (the trait implementations in \<open>chain-ops/src/task/broadcast.rs\<close> and
  \<open>balance_reporter.rs\<close>), and how a feeder's task runs its provider
  (\<open>market-data-feeder/src/task/mod.rs\<close>).  The configuration keeps the signer it was created with:
  a restarted broadcaster starts over with the sequence number of the start of the process.
\<close>

section \<open>Built-in tasks\<close>

definition balance_reporter_new :: "string \<Rightarrow> string \<Rightarrow> nat \<Rightarrow> balance_reporter" where
  "balance_reporter_new signer_address denom idle =
     \<lparr>reporter_address = signer_address, reporter_fee_token = denom, reporter_idle_duration = idle\<rparr>"

definition configured_balance_reporter :: "'key service_configuration \<Rightarrow> balance_reporter" where
  "configured_balance_reporter cfg =
     balance_reporter_new (account_id (configured_signer cfg)) (fee_token (configured_signer cfg))
       (balance_reporter_idle_duration cfg)"

definition configured_broadcast :: "'key service_configuration \<Rightarrow> 'key broadcast" where
  "configured_broadcast cfg =
     broadcast_new (configured_signer cfg) (broadcast_delay_duration cfg) (broadcast_retry_delay_duration cfg)"

text \<open>
  However many transactions went out since the process started, a broadcaster that is
  created anew catches up with the account's sequence number and delivers its first package
  after at most six attempts.
\<close>

lemma restarted_broadcaster_delivers:
  assumes "sequence_checking_node cr env raw_sequence chain_sequence attempts (configured_signer cfg) pkg"
    and "package_expiration pkg = NoExpiration"
    and "unat (sequence_number (configured_signer cfg)) + 5 < 2 ^ 64" and "unat (chain_sequence s) + 1 < 2 ^ 64"
  shows "\<exists>response b' s'. broadcast_tx cr env pkg (configured_broadcast cfg) s = Some (Ok (), Some response, b', s') \<and>
    code response \<noteq> SIGNATURE_VERIFICATION_ERROR_CODE \<and> attempts s' \<le> attempts s + 6"
  using broadcast_tx_reaches_node [OF assms(1,2), of "configured_broadcast cfg"
      "sequence_number (configured_signer cfg)" s] assms(3,4)
  by (auto simp: configured_broadcast_def broadcast_new_def SIGNATURE_VERIFICATION_ERROR_CODE_def)


section \<open>The feeder's task\<close>

text \<open>Both providers run in the same loop; each builds its own messages.\<close>

definition feeder_task_run ::
  "('h, 's) feeder_drops \<Rightarrow> (query_msg \<Rightarrow> string res) \<Rightarrow>
     (astroport_query_message, 'h, 'any, 'rx, 's) feeder_env \<Rightarrow> (osmosis_query_message, 'h, 'any, 'rx, 's) feeder_env \<Rightarrow>
     (nat \<Rightarrow> 's \<Rightarrow> 's) \<Rightarrow> ('h \<Rightarrow> price joined option) list \<Rightarrow> 'h feeder_wakeup list \<Rightarrow>
     ('client, 'chan) feeder_task \<Rightarrow> runnable_state \<Rightarrow> 's \<Rightarrow> unit res option \<times> 's" where
  "feeder_task_run drops to_vec astroport_env osmosis_env sleep_for polls ws task state s =
     (case task_provider task of
        AstroportProvider router \<Rightarrow>
          feeder_run drops (astroport_feeder_env to_vec astroport_env) (task_base task) sleep_for state polls ws
            (task_oracle task) (task_template task) s
      | OsmosisProvider \<Rightarrow>
          feeder_run drops (osmosis_feeder_env osmosis_env) (task_base task) sleep_for state polls ws
            (task_oracle task) (task_template task) s)"

text \<open>A feeder's loop has no end of its own: it only stops with a failure.\<close>

lemma feeder_loop_fails:
  "feeder_loop env base ws f s = (Some r, f', s') \<Longrightarrow> \<not> is_ok r"
proof (induction ws arbitrary: f s)
  case (Cons w ws)
  then show ?case by (auto split: prod.splits sum.splits)
qed simp

lemma feeder_run_fails:
  assumes "feeder_run drops env base sleep_for state polls ws orc template s = (Some r, s')"
  shows "\<not> is_ok r"
proof -
  obtain q f s1 where start: "feeder_start env base sleep_for state polls orc template s = (q, f, s1)"
    by (cases "feeder_start env base sleep_for state polls orc template s") auto
  have "f \<noteq> None" if "q = Some (Ok u)" for u
    using start that
    by (auto simp: feeder_start_def Let_def split: sum.splits prod.splits runnable_state.splits option.splits)
  with assms start show ?thesis
    by (auto simp: feeder_run_def split: option.splits sum.splits prod.splits dest: feeder_loop_fails)
qed

lemma feeder_task_run_fails:
  "feeder_task_run drops to_vec astroport_env osmosis_env sleep_for polls ws task state s = (Some r, s') \<Longrightarrow> \<not> is_ok r"
  by (auto simp: feeder_task_run_def dest: feeder_run_fails split: feeder_provider.splits)

end
