(* ===== verification/Price_Format.thy ===== *)
theory Price_Format
  imports Provider_Data
begin

text \<open>
  \<open>pretty_formatted_price\<close> of \<open>market-data-feeder/src/task/provider.rs\<close>: printing an amount with
  its decimal point, as the feeder does for the prices of its first round.
\<close>

section \<open>Formatting\<close>

record processed_amount =
  whole :: string
  zeroes_after_point :: nat
  fraction :: string

definition trim_zeroes_end :: "string \<Rightarrow> string" where
  "trim_zeroes_end s = rev (dropWhile (\<lambda>c. c = CHR ''0'') (rev s))"

definition process_amount :: "decimal \<Rightarrow> processed_amount" where
  "process_amount d =
     (let decimal_digits = unat (decimal_places d);
          amount_length = length (amount d);
          split = amount_length - decimal_digits in
      \<lparr>whole = take split (amount d), zeroes_after_point = decimal_digits - amount_length,
       fraction = trim_zeroes_end (drop split (amount d))\<rparr>)"

text \<open>\<open>{:0>1}\<close> and \<open>{:0<1}\<close>: an empty string is padded to a single zero.\<close>

definition pad_to_one :: "string \<Rightarrow> string" where
  "pad_to_one s = (if s = [] then ''0'' else s)"

definition formatted_amount :: "decimal \<Rightarrow> string" where
  "formatted_amount d =
     (let p = process_amount d in
      pad_to_one (whole p) @ ''.'' @ replicate (zeroes_after_point p) (CHR ''0'') @ pad_to_one (fraction p))"

definition pretty_formatted_price ::
  "string \<Rightarrow> base_marker amount \<Rightarrow> string \<Rightarrow> quote_marker amount \<Rightarrow> string" where
  "pretty_formatted_price base base_amount quote quote_amount =
     formatted_amount (as_inner base_amount) @ '' '' @ base @ '' ~ '' @
     formatted_amount (as_inner quote_amount) @ '' '' @ quote"


section \<open>The printed number is the amount\<close>

lemma trim_zeroes_end_split: "\<exists>k. s = trim_zeroes_end s @ replicate k (CHR ''0'')"
proof -
  have "rev s = takeWhile (\<lambda>c. c = CHR ''0'') (rev s) @ dropWhile (\<lambda>c. c = CHR ''0'') (rev s)" by simp
  then have "s = rev (dropWhile (\<lambda>c. c = CHR ''0'') (rev s)) @ rev (takeWhile (\<lambda>c. c = CHR ''0'') (rev s))"
    by (metis rev_append rev_rev_ident)
  moreover have "takeWhile (\<lambda>c. c = CHR ''0'') (rev s) =
      replicate (length (takeWhile (\<lambda>c. c = CHR ''0'') (rev s))) (CHR ''0'')"
    by (intro replicate_eqI) (auto dest: set_takeWhileD)
  ultimately show ?thesis unfolding trim_zeroes_end_def by (metis rev_replicate)
qed

lemma pad_to_one_simps [simp]:
  "dec_val (pad_to_one s) = dec_val s" "pad_to_one s \<noteq> []"
  "all_digits (pad_to_one s) \<longleftrightarrow> all_digits s"
  by (simp_all add: pad_to_one_def is_ascii_digit_def)

lemma last_trim_zeroes_end: "trim_zeroes_end s \<noteq> [] \<Longrightarrow> last (trim_zeroes_end s) \<noteq> CHR ''0''"
  using hd_dropWhile [of "\<lambda>c. c = CHR ''0''" "rev s"] by (simp add: trim_zeroes_end_def last_rev)



end
