(* ===== verification/Log_Lines.thy ===== *)
theory Log_Lines
  imports Supervisor Feeder Price_Format
begin

text \<open>
  The lines that the tasks write to the log about what they did: the supervisor about each
  finished task (\<open>chain-ops/src/supervisor/log.rs\<close>), the broadcaster about each response
  (\<open>log_tx_response\<close> of \<open>chain-ops/src/task/broadcast.rs\<close>), a task about its own failure (\<open>run\<close> of
  \<open>chain-ops/src/task/mod.rs\<close>) and the feeder about the prices of its first round
  (\<open>market-data-feeder/src/task/provider.rs\<close>).  A line has a level, fields and a message; how
  \<open>tracing\<close> prints it is not part of the model.
\<close>

section \<open>Lines\<close>

datatype log_level = LevelDebug | LevelInfo | LevelError

record log_line =
  line_level :: log_level
  line_fields :: "(string \<times> string) list"
  line_message :: string

abbreviation info :: "(string \<times> string) list \<Rightarrow> string \<Rightarrow> log_line" where
  "info entries m \<equiv> \<lparr>line_level = LevelInfo, line_fields = entries, line_message = m\<rparr>"

abbreviation error :: "(string \<times> string) list \<Rightarrow> string \<Rightarrow> log_line" where
  "error entries m \<equiv> \<lparr>line_level = LevelError, line_fields = entries, line_message = m\<rparr>"


section \<open>Finished tasks\<close>

text \<open>
  A join error is a panic or a cancellation, so the last branch of the code, for an end in
  an unknown way, has no counterpart.  \<open>show_error\<close> is the \<open>Debug\<close> form of an error.
\<close>

definition log_task_result :: "(failure \<Rightarrow> string) \<Rightarrow> string \<Rightarrow> task_outcome \<Rightarrow> log_line" where
  "log_task_result show_error task outcome =
     (case outcome of
        TaskExited (Inr _) \<Rightarrow> info [(''task'', task)] ''Exited without an error.''
      | TaskExited (Inl e) \<Rightarrow> error [(''task'', task), (''error'', show_error e)] ''Exited with an error!''
      | TaskPanicked \<Rightarrow> error [(''task'', task)] ''Task panicked!''
      | TaskCancelled \<Rightarrow> error [(''task'', task)] ''Task cancelled!'')"

definition balance_reporter_result :: "(failure \<Rightarrow> string) \<Rightarrow> task_outcome \<Rightarrow> log_line" where
  "balance_reporter_result show_error = log_task_result show_error ''Balance Reporter''"

definition broadcast_result :: "(failure \<Rightarrow> string) \<Rightarrow> task_outcome \<Rightarrow> log_line" where
  "broadcast_result show_error = log_task_result show_error ''Broadcast''"

definition protocol_watcher_result :: "(failure \<Rightarrow> string) \<Rightarrow> task_outcome \<Rightarrow> log_line" where
  "protocol_watcher_result show_error = log_task_result show_error ''Protocol Watcher''"

definition application_defined_result ::
  "(failure \<Rightarrow> string) \<Rightarrow> ('a \<Rightarrow> string) \<Rightarrow> 'a \<Rightarrow> task_outcome \<Rightarrow> log_line" where
  "application_defined_result show_error name a = log_task_result show_error (name a)"

text \<open>What \<open>handle_task_result\<close> and \<open>cancel_tasks\<close> write for a received result.\<close>

definition received_result_line ::
  "(failure \<Rightarrow> string) \<Rightarrow> ('a \<Rightarrow> string) \<Rightarrow> 'a task_report \<Rightarrow> log_line" where
  "received_result_line show_error name report =
     (case fst report of
        IdBalanceReporter \<Rightarrow> balance_reporter_result show_error (snd report)
      | IdBroadcast \<Rightarrow> broadcast_result show_error (snd report)
      | IdProtocolWatcher \<Rightarrow> protocol_watcher_result show_error (snd report)
      | IdApplicationDefined a \<Rightarrow> application_defined_result show_error name a (snd report))"

text \<open>
  The line names the task as its identifier does, and is an error unless the task returned
  without one.
\<close>

lemma received_result_line_task:
  "(''task'', task_name name (fst report)) \<in> set (line_fields (received_result_line show_error name report))"
  "line_level (received_result_line show_error name report) = LevelInfo \<longleftrightarrow>
     (\<exists>u. snd report = TaskExited (Ok u))"
  by (auto simp: received_result_line_def task_name_def log_task_result_def balance_reporter_result_def
      broadcast_result_def protocol_watcher_result_def application_defined_result_def
      split: task_id.splits task_outcome.splits sum.splits)

text \<open>The wrapper that every spawned task runs in: it adds a line to the log and keeps the result.\<close>

definition run_runnable ::
  "(failure \<Rightarrow> string) \<Rightarrow> ('a \<Rightarrow> string) \<Rightarrow> 'a task_id \<Rightarrow> (runnable_state \<Rightarrow> ('s, unit) eff) \<Rightarrow>
     runnable_state \<Rightarrow> 's \<Rightarrow> unit res \<times> log_line list \<times> 's" where
  "run_runnable show_error name task_id runnable state s =
     (case runnable state s of
        (Inl (Error ms), s') \<Rightarrow>
          (Inl (Error ms),
           [error [(''error'', show_error (Error ms))] (task_name name task_id @ '' task exited with an error!'')], s')
      | (r, s') \<Rightarrow> (r, [], s'))"


section \<open>Responses\<close>

text \<open>\<open>show_text\<close> is the \<open>Debug\<close> form of a string.\<close>

definition log_tx_response :: "(string \<Rightarrow> string) \<Rightarrow> string \<Rightarrow> tx_code \<Rightarrow> tx_response \<Rightarrow> log_line" where
  "log_tx_response show_text src tx_code response =
     (case tx_code of
        TxOk \<Rightarrow> info [(''source'', src), (''hash'', txhash response)] ''Transaction broadcast successful.''
      | TxErr c \<Rightarrow>
          error [(''source'', src), (''hash'', txhash response), (''log'', show_text (raw_log response)),
                 (''code'', to_dec (unat c))] ''Transaction broadcast failed!'')"


section \<open>The first round of prices\<close>

text \<open>The results that were joined, split the way \<open>initial_fetch_and_print\<close> does.\<close>

fun collected_prices :: "(currency_pair \<times> price res) list \<Rightarrow> (currency_pair \<times> price) list" where
  "collected_prices [] = []"
| "collected_prices ((pair, Inr p) # results) = (pair, p) # collected_prices results"
| "collected_prices ((pair, Inl e) # results) = collected_prices results"

fun fetch_errors :: "(currency_pair \<times> price res) list \<Rightarrow> (currency_pair \<times> failure) list" where
  "fetch_errors [] = []"
| "fetch_errors ((pair, Inr p) # results) = fetch_errors results"
| "fetch_errors ((pair, Inl e) # results) = (pair, e) # fetch_errors results"

text \<open>\<open>show_price\<close> is the \<open>Debug\<close> form of the two amounts.\<close>

definition price_lines :: "(price \<Rightarrow> string) \<Rightarrow> currency_pair \<times> price \<Rightarrow> log_line list" where
  "price_lines show_price entry =
     (case entry of (pair, (ba, qa)) \<Rightarrow>
        [\<lparr>line_level = LevelDebug, line_fields = [], line_message = show_price (ba, qa)\<rparr>,
         info [] (pretty_formatted_price (base_ticker pair) ba (quote_ticker pair) qa),
         info [] (CHR 0x09 # ''{'' @ amount (as_inner ba) @ '' ~ '' @ amount (as_inner qa) @ ''}'')])"

definition log_prices ::
  "(price \<Rightarrow> string) \<Rightarrow> string \<Rightarrow> string \<Rightarrow> (currency_pair \<times> price) list \<Rightarrow> log_line list" where
  "log_prices show_price provider_name protocol_name prices =
     [info [(''provider'', provider_name), (''protocol'', protocol_name)] ''Collected prices:''] @
     concat (map (price_lines show_price) prices) @ [info [] []]"

definition log_errors ::
  "(failure \<Rightarrow> string) \<Rightarrow> string \<Rightarrow> string \<Rightarrow> (currency_pair \<times> failure) list \<Rightarrow> log_line list" where
  "log_errors show_error provider_name protocol_name errors =
     [error [(''provider'', provider_name), (''protocol'', protocol_name)]
        ''Errors which occurred while collecting prices:''] @
     map (\<lambda>(pair, e).
       error [(''base'', base_ticker pair), (''quote'', quote_ticker pair), (''error'', show_error e)]
         ''Failed to fetch price!'') errors @ [error [] []]"

definition log_prices_and_errors ::
  "(failure \<Rightarrow> string) \<Rightarrow> (price \<Rightarrow> string) \<Rightarrow> string \<Rightarrow> string \<Rightarrow>
     (currency_pair \<times> price) list \<Rightarrow> (currency_pair \<times> failure) list \<Rightarrow> log_line list" where
  "log_prices_and_errors show_error show_price provider_name protocol_name prices errors =
     (if prices = [] then [] else log_prices show_price provider_name protocol_name prices) @
     (if errors = [] then [] else log_errors show_error provider_name protocol_name errors)"

definition initial_log ::
  "(failure \<Rightarrow> string) \<Rightarrow> (price \<Rightarrow> string) \<Rightarrow> string \<Rightarrow> string \<Rightarrow> (currency_pair \<times> price res) list \<Rightarrow> log_line list"
where
  "initial_log show_error show_price provider_name protocol_name results =
     log_prices_and_errors show_error show_price provider_name protocol_name
       (collected_prices results) (fetch_errors results)"

text \<open>No result of the first round is left out of the log: a price is printed, a failure reported.\<close>

lemma in_collected_prices: "(pair, p) \<in> set (collected_prices results) \<longleftrightarrow> (pair, Ok p) \<in> set results"
  by (induction results rule: collected_prices.induct) auto

lemma in_fetch_errors: "(pair, e) \<in> set (fetch_errors results) \<longleftrightarrow> (pair, Inl e) \<in> set results"
  by (induction results rule: fetch_errors.induct) auto

lemma initial_log_complete:
  assumes "(pair, result) \<in> set results"
  shows "case result of
      Inr p \<Rightarrow> info [] (pretty_formatted_price (base_ticker pair) (fst p) (quote_ticker pair) (snd p))
        \<in> set (initial_log show_error show_price provider_name protocol_name results)
    | Inl e \<Rightarrow> error [(''base'', base_ticker pair), (''quote'', quote_ticker pair), (''error'', show_error e)]
        ''Failed to fetch price!'' \<in> set (initial_log show_error show_price provider_name protocol_name results)"
proof (cases result)
  case (Inl e)
  with assms have "(pair, e) \<in> set (fetch_errors results)" by (simp add: in_fetch_errors)
  then show ?thesis
    using Inl by (force simp: initial_log_def log_prices_and_errors_def log_errors_def)
next
  case (Inr p)
  with assms have p: "(pair, p) \<in> set (collected_prices results)" by (simp add: in_collected_prices)
  then have "collected_prices results \<noteq> []" by auto
  moreover have "info [] (pretty_formatted_price (base_ticker pair) (fst p) (quote_ticker pair) (snd p))
      \<in> set (price_lines show_price (pair, p))"
    by (cases p) (simp add: price_lines_def)
  with p have "info [] (pretty_formatted_price (base_ticker pair) (fst p) (quote_ticker pair) (snd p))
      \<in> set (concat (map (price_lines show_price) (collected_prices results)))" by (simp only: set_concat set_map) blast
  ultimately show ?thesis
    using Inr by (simp add: initial_log_def log_prices_and_errors_def log_prices_def)
qed

end
