(* ===== verification/Alarms.thy ===== *)
theory Alarms
  imports Supervisor Configuration
begin

text \<open>
  \<open>services/alarms-dispatcher\<close>: the generators that ask a contract to dispatch its pending
  alarms as long as a call dispatches as many as it may, the identifiers of these tasks
  and how the supervisor creates them.  The node, the broadcaster's channel and the
  decoders are parameters over a state \<open>'s\<close>.
\<close>

section \<open>Generators\<close>

datatype alarms = PriceAlarms (alarms_protocol: string) | TimeAlarms

fun TARGET_CONTRACT_NAME :: "alarms \<Rightarrow> string" where
  "TARGET_CONTRACT_NAME (PriceAlarms p) = ''Oracle''"
| "TARGET_CONTRACT_NAME TimeAlarms = ''Time Alarms''"

fun COMPATIBLE_VERSION :: "alarms \<Rightarrow> semver" where
  "COMPATIBLE_VERSION (PriceAlarms p) = SemVer 0 5 12"
| "COMPATIBLE_VERSION TimeAlarms = SemVer 0 4 4"

record 'chan generator_configuration =
  conf_transaction_tx :: 'chan
  conf_sender :: string
  conf_address :: string
  conf_alarms_per_message :: u32
  conf_gas_per_alarm :: gas
  conf_idle_duration :: nat
  conf_timeout_duration :: nat

record ('any, 'chan) alarms_generator =
  generator_transaction_tx :: 'chan
  generator_address :: string
  alarms_per_message :: u32
  gas_per_alarm :: gas
  generator_idle_duration :: nat
  generator_timeout_duration :: nat
  generator_tx_body :: "'any tx_body"
  generator_source :: string
  generator_alarms :: alarms

definition dispatch_message :: "u32 \<Rightarrow> string" where
  "dispatch_message count = ''{\"dispatch_alarms\":{\"max_count\":'' @ to_dec (unat count) @ ''}}''"

definition with_source ::
  "(msg_execute_contract \<Rightarrow> 'any res) \<Rightarrow> 'chan generator_configuration \<Rightarrow> string \<Rightarrow> alarms \<Rightarrow>
     ('any, 'chan) alarms_generator res" where
  "with_source any_from_msg conf src kind =
     map_res (\<lambda>message.
       \<lparr>generator_transaction_tx = conf_transaction_tx conf, generator_address = conf_address conf,
        alarms_per_message = conf_alarms_per_message conf, gas_per_alarm = conf_gas_per_alarm conf,
        generator_idle_duration = conf_idle_duration conf,
        generator_timeout_duration = conf_timeout_duration conf,
        generator_tx_body =
          \<lparr>messages = [message], memo = [], timeout_height = 0,
           extension_options = [], non_critical_extension_options = []\<rparr>,
        generator_source = src, generator_alarms = kind\<rparr>)
       (any_from_msg
         \<lparr>msg_sender = conf_sender conf, msg_contract = conf_address conf,
          msg_bytes = dispatch_message (conf_alarms_per_message conf), msg_funds = []\<rparr>)"

definition new_price_alarms ::
  "(msg_execute_contract \<Rightarrow> 'any res) \<Rightarrow> 'chan generator_configuration \<Rightarrow> string \<Rightarrow>
     ('any, 'chan) alarms_generator res" where
  "new_price_alarms any_from_msg conf protocol =
     with_source any_from_msg conf (''Price Alarms; Protocol='' @ protocol) (PriceAlarms protocol)"

definition new_time_alarms ::
  "(msg_execute_contract \<Rightarrow> 'any res) \<Rightarrow> 'chan generator_configuration \<Rightarrow>
     ('any, 'chan) alarms_generator res" where
  "new_time_alarms any_from_msg conf = with_source any_from_msg conf ''Time Alarms'' TimeAlarms"


section \<open>Running\<close>

record ('any, 'chan, 'rx, 's) alarms_env =
  smart_version :: "string \<Rightarrow> string \<Rightarrow> ('s, semver) eff"
  smart_status :: "string \<Rightarrow> string \<Rightarrow> ('s, bool) eff"
  send_package :: "'chan \<Rightarrow> 'any tx_body tx_package \<Rightarrow> ('s, 'rx) eff"
  await_response :: "'rx \<Rightarrow> ('s, tx_response) eff"
  alarms_tx_env :: "'s tx_env"
  alarms_decoders :: "('any, u32) decoders"
  alarms_sleep :: "nat \<Rightarrow> 's \<Rightarrow> 's"

definition check_version ::
  "('any, 'chan, 'rx, 's) alarms_env \<Rightarrow> ('any, 'chan) alarms_generator \<Rightarrow> ('s, unit) eff" where
  "check_version env gen =
     bind_eff (smart_version env (generator_address gen) ''{\"contract_version\":{}}'') (\<lambda>version.
     lift_eff
       (case check_compatibility version (COMPATIBLE_VERSION (generator_alarms gen)) of
          Compatible \<Rightarrow> Ok ()
        | Incompatible \<Rightarrow>
            Err [TARGET_CONTRACT_NAME (generator_alarms gen) @ '' contract has an incompatible version!'']))"

definition alarms_status ::
  "('any, 'chan, 'rx, 's) alarms_env \<Rightarrow> ('any, 'chan) alarms_generator \<Rightarrow> ('s, bool) eff" where
  "alarms_status env gen = smart_status env (generator_address gen) ''{\"alarms_status\":{}}''"

text \<open>The package; \<open>wrapping_mul\<close> is multiplication of words.\<close>

definition alarms_package ::
  "('any, 'chan) alarms_generator \<Rightarrow> gas \<Rightarrow> gas \<Rightarrow> 'any tx_body tx_package" where
  "alarms_package gen hard_limit fallback_gas_per_alarm =
     \<lparr>tx_body = generator_tx_body gen, source = generator_source gen, hard_gas_limit = hard_limit,
      fallback_gas = fallback_gas_per_alarm * ucast (alarms_per_message gen),
      package_expiration = NoExpiration\<rparr>"

definition send_for_broadcasting ::
  "('any, 'chan, 'rx, 's) alarms_env \<Rightarrow> ('any, 'chan) alarms_generator \<Rightarrow> gas \<Rightarrow> gas \<Rightarrow> ('s, 'rx) eff" where
  "send_for_broadcasting env gen hard_limit fallback_gas_per_alarm =
     context_eff ''Failed to send transaction for broadcasting!''
       (send_package env (generator_transaction_tx gen)
          (alarms_package gen hard_limit fallback_gas_per_alarm))"

definition alarms_broadcast ::
  "('any, 'chan, 'rx, 's) alarms_env \<Rightarrow> ('any, 'chan) alarms_generator \<Rightarrow> gas \<Rightarrow> gas \<Rightarrow> 's \<Rightarrow>
     (tx_response option res \<times> 's) option" where
  "alarms_broadcast env gen hard_limit fallback_gas_per_alarm s =
     (case bind_eff (send_for_broadcasting env gen hard_limit fallback_gas_per_alarm)
             (await_response env) s of
        (Inl e, s') \<Rightarrow> Some (Inl e, s')
      | (Inr response, s') \<Rightarrow>
          fetch_delivered (alarms_tx_env env) response (generator_timeout_duration gen) s')"

text \<open>
  The body of the streak's loop once a delivered transaction is at hand: the estimate of
  the gas per alarm that follows, and whether the streak ends.
\<close>

definition dispatched_alarms ::
  "('any, u32) decoders \<Rightarrow> ('any, 'chan) alarms_generator \<Rightarrow> tx_response \<Rightarrow> u32 option res" where
  "dispatched_alarms dec gen response =
     (let tx_code = tx_code_from (code response) in
      if tx_code_is_ok tx_code then map_res Some (decode_execute_response dec response)
      else if tx_code_value tx_code = OUT_OF_GAS_ERROR_CODE then Ok (Some (alarms_per_message gen))
      else Ok None)"

definition estimate_gas_per_alarm ::
  "('any, 'chan) alarms_generator \<Rightarrow> gas \<Rightarrow> tx_response \<Rightarrow> u32 \<Rightarrow> gas res" where
  "estimate_gas_per_alarm gen fallback_gas_per_alarm response dispatched =
     map_res (\<lambda>fallback. if gas_per_alarm gen < fallback then gas_per_alarm gen else fallback)
       (case checked_div (unsigned_abs (gas_used response)) (ucast dispatched) of
          Some gas_used_per_alarm \<Rightarrow> adjust_fallback_gas fallback_gas_per_alarm gas_used_per_alarm
        | None \<Rightarrow> Ok fallback_gas_per_alarm)"

definition handle_delivered ::
  "('any, u32) decoders \<Rightarrow> ('any, 'chan) alarms_generator \<Rightarrow> gas \<Rightarrow> tx_response \<Rightarrow> (gas \<times> bool) res" where
  "handle_delivered dec gen fallback_gas_per_alarm response =
     and_then (dispatched_alarms dec gen response) (\<lambda>found.
       case found of
         None \<Rightarrow> Ok (fallback_gas_per_alarm, False)
       | Some dispatched \<Rightarrow>
           map_res (\<lambda>fallback. (fallback, dispatched < alarms_per_message gen))
             (estimate_gas_per_alarm gen fallback_gas_per_alarm response dispatched))"

text \<open>One iteration of the loop: the next estimate and whether to leave the loop.\<close>

definition streak_body ::
  "('any, 'chan, 'rx, 's) alarms_env \<Rightarrow> ('any, 'chan) alarms_generator \<Rightarrow> gas \<Rightarrow> gas \<Rightarrow> 's \<Rightarrow>
     ((gas \<times> bool) res \<times> 's) option" where
  "streak_body env gen hard_limit fallback_gas_per_alarm s =
     (case alarms_broadcast env gen hard_limit fallback_gas_per_alarm s of
        None \<Rightarrow> None
      | Some (Inl e, s') \<Rightarrow> Some (Inl e, s')
      | Some (Inr None, s') \<Rightarrow> Some (Ok (fallback_gas_per_alarm, False), s')
      | Some (Inr (Some response), s') \<Rightarrow>
          Some (handle_delivered (alarms_decoders env) gen fallback_gas_per_alarm response, s'))"

partial_function (option) dispatch_alarms_streak ::
  "('any, 'chan, 'rx, 's) alarms_env \<Rightarrow> ('any, 'chan) alarms_generator \<Rightarrow> gas \<Rightarrow> gas \<Rightarrow> 's \<Rightarrow>
     (gas res \<times> 's) option" where
  "dispatch_alarms_streak env gen hard_limit fallback_gas_per_alarm s =
     (case streak_body env gen hard_limit fallback_gas_per_alarm s of
        None \<Rightarrow> None
      | Some (Inl e, s') \<Rightarrow> Some (Inl e, s')
      | Some (Inr (fallback, finished), s') \<Rightarrow>
          if finished then Some (Ok fallback, s')
          else dispatch_alarms_streak env gen hard_limit fallback s')"

text \<open>The outer loop only ends with a failure.\<close>

partial_function (option) dispatch_loop ::
  "('any, 'chan, 'rx, 's) alarms_env \<Rightarrow> ('any, 'chan) alarms_generator \<Rightarrow> gas \<Rightarrow> gas \<Rightarrow> 's \<Rightarrow>
     (failure \<times> 's) option" where
  "dispatch_loop env gen hard_limit fallback s =
     (case alarms_status env gen s of
        (Inl e, s1) \<Rightarrow> Some (e, s1)
      | (Inr remaining_alarms, s1) \<Rightarrow>
          (case (if remaining_alarms then dispatch_alarms_streak env gen hard_limit fallback s1
                 else Some (Ok fallback, s1)) of
             None \<Rightarrow> None
           | Some (Inl e, s2) \<Rightarrow> Some (e, s2)
           | Some (Inr fallback', s2) \<Rightarrow>
               dispatch_loop env gen hard_limit fallback'
                 (alarms_sleep env (generator_idle_duration gen) s2)))"

definition alarms_hard_gas_limit :: "('any, 'chan) alarms_generator \<Rightarrow> gas res" where
  "alarms_hard_gas_limit gen =
     opt_context ''Failed to calculate hard gas limit for transaction''
       (checked_mul (gas_per_alarm gen) (ucast (alarms_per_message gen)))"

definition dispatch_alarms ::
  "('any, 'chan, 'rx, 's) alarms_env \<Rightarrow> ('any, 'chan) alarms_generator \<Rightarrow> 's \<Rightarrow> (failure \<times> 's) option" where
  "dispatch_alarms env gen s =
     (case alarms_hard_gas_limit gen of
        Inl e \<Rightarrow> Some (e, s)
      | Inr hard_limit \<Rightarrow> dispatch_loop env gen hard_limit 0 s)"

definition alarms_run ::
  "('any, 'chan, 'rx, 's) alarms_env \<Rightarrow> ('any, 'chan) alarms_generator \<Rightarrow> 's \<Rightarrow> (failure \<times> 's) option" where
  "alarms_run env gen s =
     (case check_version env gen s of
        (Inl e, s') \<Rightarrow> Some (e, s')
      | (Inr _, s') \<Rightarrow> dispatch_alarms env gen s')"


section \<open>Identifiers and creation\<close>

datatype alarms_id = TimeAlarmsGenerator | PriceAlarmsGenerator (generator_protocol: string)

instantiation alarms_id :: linorder
begin

fun less_eq_alarms_id :: "alarms_id \<Rightarrow> alarms_id \<Rightarrow> bool" where
  "less_eq_alarms_id TimeAlarmsGenerator i = True"
| "less_eq_alarms_id (PriceAlarmsGenerator p) TimeAlarmsGenerator = False"
| "less_eq_alarms_id (PriceAlarmsGenerator p) (PriceAlarmsGenerator q) = (p \<le> q)"

definition less_alarms_id :: "alarms_id \<Rightarrow> alarms_id \<Rightarrow> bool" where
  "less_alarms_id i j \<longleftrightarrow> i \<le> j \<and> \<not> j \<le> i"

instance
proof
  fix i j k :: alarms_id
  show "i \<le> i" by (cases i) simp_all
  show "i \<le> j \<or> j \<le> i" by (cases i; cases j) auto
  show "i < j \<longleftrightarrow> i \<le> j \<and> \<not> j \<le> i" by (rule less_alarms_id_def)
  show "i \<le> k" if "i \<le> j" "j \<le> k" using that by (cases i; cases j; cases k) auto
  show "i = j" if "i \<le> j" "j \<le> i" using that by (cases i; cases j) auto
qed

end

fun alarms_id_protocol :: "alarms_id \<Rightarrow> string option" where
  "alarms_id_protocol TimeAlarmsGenerator = None"
| "alarms_id_protocol (PriceAlarmsGenerator p) = Some p"

fun alarms_id_name :: "alarms_id \<Rightarrow> string" where
  "alarms_id_name TimeAlarmsGenerator = ''Time Alarms''"
| "alarms_id_name (PriceAlarmsGenerator p) = ''Price Alarms; Protocol='' @ p"

datatype ('any, 'chan) alarms_task =
    TimeAlarmsTask "('any, 'chan) alarms_generator"
  | PriceAlarmsTask "('any, 'chan) alarms_generator"

fun alarms_task_id :: "('any, 'chan) alarms_task \<Rightarrow> alarms_id" where
  "alarms_task_id (TimeAlarmsTask gen) = TimeAlarmsGenerator"
| "alarms_task_id (PriceAlarmsTask gen) = PriceAlarmsGenerator (alarms_protocol (generator_alarms gen))"

definition alarms_protocol_task_set_ids :: "string \<Rightarrow> alarms_id list" where
  "alarms_protocol_task_set_ids protocol = [PriceAlarmsGenerator protocol]"

fun alarms_task_run ::
  "('any, 'chan, 'rx, 's) alarms_env \<Rightarrow> ('any, 'chan) alarms_task \<Rightarrow> 's \<Rightarrow> (failure \<times> 's) option" where
  "alarms_task_run env (TimeAlarmsTask gen) s = alarms_run env gen s"
| "alarms_task_run env (PriceAlarmsTask gen) s = alarms_run env gen s"

record alarms_context =
  gas_per_time_alarm :: gas
  time_alarms_per_message :: u32
  gas_per_price_alarm :: gas
  price_alarms_per_message :: u32

definition read_alarms_context :: "environment \<Rightarrow> alarms_context res" where
  "read_alarms_context env =
     and_then (with_context ''Failed to read gas limit per time alarm!''
       (read_u64 env ''TIME_ALARMS_GAS_LIMIT_PER_ALARM'')) (\<lambda>gt.
     and_then (with_context ''Failed to read maximum count of time alarms per message!''
       (read_u32 env ''TIME_ALARMS_MAX_ALARMS_GROUP'')) (\<lambda>nt.
     and_then (with_context ''Failed to read gas limit per price alarm!''
       (read_u64 env ''PRICE_ALARMS_GAS_LIMIT_PER_ALARM'')) (\<lambda>gp.
     and_then (with_context ''Failed to read maximum count of price alarms per message!''
       (read_u32 env ''PRICE_ALARMS_MAX_ALARMS_GROUP'')) (\<lambda>np.
     Ok \<lparr>gas_per_time_alarm = gt, time_alarms_per_message = nt,
         gas_per_price_alarm = gp, price_alarms_per_message = np\<rparr>))))"

definition create_time_alarms_task ::
  "(msg_execute_contract \<Rightarrow> 'any res) \<Rightarrow> ('s, platform) eff \<Rightarrow> 'key service_configuration \<Rightarrow>
     alarms_context \<Rightarrow> 'chan \<Rightarrow> ('s, ('any, 'chan) alarms_task) eff" where
  "create_time_alarms_task any_from_msg query_platform cfg ctx tx =
     map_eff TimeAlarmsTask (bind_eff query_platform (\<lambda>platform.
       lift_eff (new_time_alarms any_from_msg
         \<lparr>conf_transaction_tx = tx, conf_sender = account_id (configured_signer cfg),
          conf_address = time_alarms platform, conf_alarms_per_message = time_alarms_per_message ctx,
          conf_gas_per_alarm = gas_per_time_alarm ctx, conf_idle_duration = idle_duration cfg,
          conf_timeout_duration = timeout_duration cfg\<rparr>)))"

definition create_price_alarms_task ::
  "(msg_execute_contract \<Rightarrow> 'any res) \<Rightarrow> (string \<Rightarrow> ('s, base_protocol) eff) \<Rightarrow>
     'key service_configuration \<Rightarrow> alarms_context \<Rightarrow> 'chan \<Rightarrow> string \<Rightarrow>
     ('s, ('any, 'chan) alarms_task) eff" where
  "create_price_alarms_task any_from_msg query_protocol cfg ctx tx protocol_name =
     map_eff PriceAlarmsTask (bind_eff (query_protocol protocol_name) (\<lambda>base.
       lift_eff (new_price_alarms any_from_msg
         \<lparr>conf_transaction_tx = tx, conf_sender = account_id (configured_signer cfg),
          conf_address = oracle_contract (base_contracts base),
          conf_alarms_per_message = price_alarms_per_message ctx,
          conf_gas_per_alarm = gas_per_price_alarm ctx, conf_idle_duration = idle_duration cfg,
          conf_timeout_duration = timeout_duration cfg\<rparr> protocol_name)))"

fun alarms_into_task ::
  "(msg_execute_contract \<Rightarrow> 'any res) \<Rightarrow> ('s, platform) eff \<Rightarrow> (string \<Rightarrow> ('s, base_protocol) eff) \<Rightarrow>
     'key service_configuration \<Rightarrow> alarms_context \<Rightarrow> alarms_id \<Rightarrow> 'chan \<Rightarrow>
     ('s, ('any, 'chan) alarms_task) eff" where
  "alarms_into_task any_from_msg query_platform query_protocol cfg ctx TimeAlarmsGenerator tx =
     create_time_alarms_task any_from_msg query_platform cfg ctx tx"
| "alarms_into_task any_from_msg query_platform query_protocol cfg ctx (PriceAlarmsGenerator p) tx =
     create_price_alarms_task any_from_msg query_protocol cfg ctx tx p"

text \<open>The supervisor of the dispatcher: any environment with the application's part filled in.\<close>

definition alarms_supervisor_env ::
  "(msg_execute_contract \<Rightarrow> 'any res) \<Rightarrow> ('s, platform) eff \<Rightarrow> (string \<Rightarrow> ('s, base_protocol) eff) \<Rightarrow>
     'key service_configuration \<Rightarrow> alarms_context \<Rightarrow>
     (alarms_id, 'chan, 'tok, ('any, 'chan) alarms_task, 's) supervisor_env \<Rightarrow>
     (alarms_id, 'chan, 'tok, ('any, 'chan) alarms_task, 's) supervisor_env" where
  "alarms_supervisor_env any_from_msg query_platform query_protocol cfg ctx base =
     base\<lparr>into_task := alarms_into_task any_from_msg query_platform query_protocol cfg ctx,
          application_id := alarms_task_id, application_protocol := alarms_id_protocol,
          protocol_task_set_ids := alarms_protocol_task_set_ids\<rparr>"

definition alarms_startup_tasks :: "alarms_id list" where
  "alarms_startup_tasks = [TimeAlarmsGenerator]"


section \<open>The contract with the supervisor\<close>

lemma with_source_alarms:
  "with_source any_from_msg conf src kind = Ok gen \<Longrightarrow>
     generator_alarms gen = kind \<and> alarms_per_message gen = conf_alarms_per_message conf \<and>
     gas_per_alarm gen = conf_gas_per_alarm conf"
  by (auto simp: with_source_def)

interpretation alarms: application_defined
  "alarms_supervisor_env any_from_msg query_platform query_protocol cfg ctx base"
  for any_from_msg :: "msg_execute_contract \<Rightarrow> 'any res"
    and query_platform :: "('s, platform) eff" and query_protocol :: "string \<Rightarrow> ('s, base_protocol) eff"
    and cfg :: "'key service_configuration" and ctx :: alarms_context
    and base :: "(alarms_id, 'chan, 'tok, ('any, 'chan) alarms_task, 's) supervisor_env"
proof unfold_locales
  fix a tx and s s' :: 's and t
  assume "into_task (alarms_supervisor_env any_from_msg query_platform query_protocol cfg ctx base) a tx s =
    (Ok t, s')"
  then show "application_id (alarms_supervisor_env any_from_msg query_platform query_protocol cfg ctx base) t = a"
    by (cases a)
      (auto simp: alarms_supervisor_env_def create_time_alarms_task_def create_price_alarms_task_def
        bind_eff_eq_Ok new_price_alarms_def dest: with_source_alarms)
next
  fix a p
  assume "a \<in> set (protocol_task_set_ids
    (alarms_supervisor_env any_from_msg query_platform query_protocol cfg ctx base) p)"
  then show "application_protocol
    (alarms_supervisor_env any_from_msg query_platform query_protocol cfg ctx base) a = Some p"
    by (simp add: alarms_supervisor_env_def alarms_protocol_task_set_ids_def)
qed


section \<open>Gas stays within its limits\<close>

text \<open>
  The states of a run of \<open>dispatch_alarms\<close> at the heads of its two loops: outside a streak
  (\<open>False\<close>) and inside one (\<open>True\<close>), with the estimate of the gas per alarm.
\<close>

inductive dispatch_reachable ::
  "('any, 'chan, 'rx, 's) alarms_env \<Rightarrow> ('any, 'chan) alarms_generator \<Rightarrow> gas \<Rightarrow> bool \<Rightarrow> gas \<Rightarrow> 's \<Rightarrow> bool"
  for env gen hard_limit where
  start: "dispatch_reachable env gen hard_limit False 0 s"
| none_remaining: "dispatch_reachable env gen hard_limit False fallback s \<Longrightarrow>
    alarms_status env gen s = (Ok False, s') \<Longrightarrow>
    dispatch_reachable env gen hard_limit False fallback (alarms_sleep env (generator_idle_duration gen) s')"
| some_remaining: "dispatch_reachable env gen hard_limit False fallback s \<Longrightarrow>
    alarms_status env gen s = (Ok True, s') \<Longrightarrow> dispatch_reachable env gen hard_limit True fallback s'"
| next_call: "dispatch_reachable env gen hard_limit True fallback s \<Longrightarrow>
    streak_body env gen hard_limit fallback s = Some (Ok (fallback', False), s') \<Longrightarrow>
    dispatch_reachable env gen hard_limit True fallback' s'"
| streak_ends: "dispatch_reachable env gen hard_limit True fallback s \<Longrightarrow>
    streak_body env gen hard_limit fallback s = Some (Ok (fallback', True), s') \<Longrightarrow>
    dispatch_reachable env gen hard_limit False fallback' (alarms_sleep env (generator_idle_duration gen) s')"

lemma estimate_bounded:
  "\<exists>f. estimate_gas_per_alarm gen fallback response dispatched = Ok f \<and> f \<le> gas_per_alarm gen"
proof (cases "checked_div (unsigned_abs (gas_used response)) (ucast dispatched :: u64)")
  case (Some g)
  obtain f where "adjust_fallback_gas fallback g = Ok f" using adjust_fallback_gas_eq by blast
  with Some show ?thesis by (auto simp: estimate_gas_per_alarm_def not_less)
qed (auto simp: estimate_gas_per_alarm_def not_less)

lemma handle_delivered_bounded:
  assumes "handle_delivered dec gen fallback response = Ok (f, fin)" and "fallback \<le> gas_per_alarm gen"
  shows "f \<le> gas_per_alarm gen"
proof -
  have "f \<le> gas_per_alarm gen" if "estimate_gas_per_alarm gen fallback response d = Ok f" for d
    using that estimate_bounded [of gen fallback response d] by auto
  with assms show ?thesis by (auto simp: handle_delivered_def split: option.splits)
qed

lemma streak_body_bounded:
  assumes "streak_body env gen hard_limit fallback s = Some (Ok (f, fin), s')"
    and "fallback \<le> gas_per_alarm gen"
  shows "f \<le> gas_per_alarm gen"
  using assms
  by (auto simp: streak_body_def split: option.splits sum.splits dest: handle_delivered_bounded)

lemma dispatch_reachable_bounded:
  "dispatch_reachable env gen hard_limit streak fallback s \<Longrightarrow> fallback \<le> gas_per_alarm gen"
  by (induction rule: dispatch_reachable.induct) (auto dest: streak_body_bounded)

lemma package_gas_bounded:
  assumes "alarms_hard_gas_limit gen = Ok hard_limit" and "fallback \<le> gas_per_alarm gen"
  shows "unat (fallback_gas (alarms_package gen hard_limit fallback)) =
      unat fallback * unat (alarms_per_message gen)"
    and "fallback_gas (alarms_package gen hard_limit fallback) \<le> hard_limit"
proof -
  let ?n = "ucast (alarms_per_message gen) :: u64"
  from assms(1) have hard: "unat hard_limit = unat (gas_per_alarm gen) * unat ?n"
    by (auto simp: alarms_hard_gas_limit_def dest: checked_mul_Some)
  have le: "unat fallback * unat ?n \<le> unat (gas_per_alarm gen) * unat ?n"
    using assms(2) by (simp add: word_le_nat_alt)
  also have "\<dots> < 2 ^ 64" using unat_u64_less [of hard_limit] unfolding hard by simp
  finally have "unat (fallback * ?n) = unat fallback * unat ?n" by (intro unat_mul_if_fits) simp
  then show "unat (fallback_gas (alarms_package gen hard_limit fallback)) =
      unat fallback * unat (alarms_per_message gen)"
    and "fallback_gas (alarms_package gen hard_limit fallback) \<le> hard_limit"
    using le hard by (simp_all add: alarms_package_def word_le_nat_alt)
qed

text \<open>
  In every iteration of every streak of a run, however long it goes on, the estimate
  per alarm is at most the configured gas per alarm, so the wrapping multiplication in the
  package never wraps and the package's fallback gas is at most its hard gas limit.
\<close>

theorem streak_gas_within_limits:
  assumes "alarms_hard_gas_limit gen = Ok hard_limit"
    and "dispatch_reachable env gen hard_limit True fallback s"
  shows "fallback \<le> gas_per_alarm gen \<and>
    unat (fallback_gas (alarms_package gen hard_limit fallback)) =
      unat fallback * unat (alarms_per_message gen) \<and>
    fallback_gas (alarms_package gen hard_limit fallback) \<le>
      hard_gas_limit (alarms_package gen hard_limit fallback)"
  using dispatch_reachable_bounded [OF assms(2)] package_gas_bounded [OF assms(1)]
  by (simp add: alarms_package_def)


section \<open>A streak dispatches everything that is pending\<close>

text \<open>
  A chain that, in the states \<open>ready\<close>, accepts and includes each call in time, with a contract
  that dispatches as many of its pending alarms as the call allows and answers with their
  number.  After a call that dispatched as many as it may, the chain is ready for the next.
\<close>

definition delivering_chain ::
  "('any, 'chan, 'rx, 's) alarms_env \<Rightarrow> ('any, 'chan) alarms_generator \<Rightarrow> gas \<Rightarrow> ('s \<Rightarrow> bool) \<Rightarrow>
     ('s \<Rightarrow> nat) \<Rightarrow> bool" where
  "delivering_chain env gen hard_limit ready pending \<longleftrightarrow>
     generator_timeout_duration gen * 5 < 2 ^ 64 * 1000000000 \<and>
     (\<forall>f s. ready s \<longrightarrow> (\<exists>rx s1 accepted s2 delivered s3 k.
        send_package env (generator_transaction_tx gen) (alarms_package gen hard_limit f) s = (Ok rx, s1) \<and>
        await_response env rx s1 = (Ok accepted, s2) \<and> code accepted = 0 \<and>
        query_tx (alarms_tx_env env) (txhash accepted) s2 = (Ok (Some delivered), s3) \<and>
        clock (alarms_tx_env env) s3 \<le> clock (alarms_tx_env env) s2 + generator_timeout_duration gen * 5 \<and>
        code delivered = 0 \<and> decode_execute_response (alarms_decoders env) delivered = Ok k \<and>
        unat k = min (pending s) (unat (alarms_per_message gen)) \<and> pending s3 = pending s - unat k \<and>
        (k = alarms_per_message gen \<longrightarrow> ready s3)))"

lemma alarms_broadcast_delivers:
  assumes "delivering_chain env gen hard_limit ready pending" and "ready s"
  obtains delivered s' k where "alarms_broadcast env gen hard_limit f s = Some (Ok (Some delivered), s')"
    and "dispatched_alarms (alarms_decoders env) gen delivered = Ok (Some k)"
    and "unat k = min (pending s) (unat (alarms_per_message gen))" and "pending s' = pending s - unat k"
    and "k = alarms_per_message gen \<longrightarrow> ready s'"
proof -
  from assms(1) [unfolded delivering_chain_def, THEN conjunct2, rule_format, OF assms(2), of f]
  obtain rx s1 accepted s2 delivered s3 k where
    "send_package env (generator_transaction_tx gen) (alarms_package gen hard_limit f) s = (Ok rx, s1)"
    "await_response env rx s1 = (Ok accepted, s2)" "code accepted = 0"
    "query_tx (alarms_tx_env env) (txhash accepted) s2 = (Ok (Some delivered), s3)"
    "clock (alarms_tx_env env) s3 \<le> clock (alarms_tx_env env) s2 + generator_timeout_duration gen * 5"
    "code delivered = 0" "decode_execute_response (alarms_decoders env) delivered = Ok k"
    "unat k = min (pending s) (unat (alarms_per_message gen))" "pending s3 = pending s - unat k"
    "k = alarms_per_message gen \<longrightarrow> ready s3"
    by blast
  moreover have "duration_mul (generator_timeout_duration gen) (unat PRINT_ON_NTH) =
      Ok (generator_timeout_duration gen * 5)"
    using assms(1) by (simp add: delivering_chain_def duration_mul_def PRINT_ON_NTH_def)
  ultimately show thesis
    by (intro that [of delivered s3 k])
      (simp_all add: alarms_broadcast_def send_for_broadcasting_def bind_eff_def context_eff_def
        fetch_delivered_def tx_code_from_def fetch_loop.simps dispatched_alarms_def)
qed

lemma streak_dispatches:
  assumes "delivering_chain env gen hard_limit ready pending" and "0 < alarms_per_message gen"
  shows "ready s \<Longrightarrow>
    \<exists>fallback' s'. dispatch_alarms_streak env gen hard_limit fallback s = Some (Ok fallback', s') \<and> pending s' = 0"
proof (induction "pending s" arbitrary: fallback s rule: less_induct)
  case less
  obtain delivered s1 k where
    bc: "alarms_broadcast env gen hard_limit fallback s = Some (Ok (Some delivered), s1)"
      "dispatched_alarms (alarms_decoders env) gen delivered = Ok (Some k)"
    and k: "unat k = min (pending s) (unat (alarms_per_message gen))" "pending s1 = pending s - unat k"
      "k = alarms_per_message gen \<longrightarrow> ready s1"
    by (rule alarms_broadcast_delivers [OF assms(1) less.prems, of fallback])
  obtain f where "estimate_gas_per_alarm gen fallback delivered k = Ok f"
    using estimate_bounded by blast
  with bc have body: "streak_body env gen hard_limit fallback s =
      Some (Ok (f, k < alarms_per_message gen), s1)"
    by (simp add: streak_body_def handle_delivered_def)
  show ?case
  proof (cases "k < alarms_per_message gen")
    case True
    then have "pending s1 = 0" using k(1,2) by (simp add: word_less_nat_alt)
    with body True show ?thesis by (subst dispatch_alarms_streak.simps) simp
  next
    case False
    then have "pending s1 < pending s"
      using k(1,2) assms(2) by (auto simp: word_less_nat_alt)
    moreover have "k = alarms_per_message gen" using False k(1) by (simp add: word_less_nat_alt word_unat_eq_iff)
    ultimately show ?thesis using less.hyps [of s1 f] k(3) body False
      by (subst dispatch_alarms_streak.simps) simp
  qed
qed


text \<open>
  With a maximum of zero alarms per message, which the environment may give, no call can
  dispatch fewer: a streak goes on until a call fails.
\<close>

lemma zero_alarms_not_finished:
  assumes "alarms_per_message gen = 0"
    and "streak_body env gen hard_limit fallback s = Some (Ok (fallback', finished), s')"
  shows "\<not> finished"
  using assms by (auto simp: streak_body_def handle_delivered_def split: option.splits sum.splits)

lemma zero_alarms_never_done:
  assumes "alarms_per_message gen = 0"
  shows "dispatch_alarms_streak env gen hard_limit fallback s \<noteq> Some (Ok fallback', s')"
proof -
  let ?P = "\<lambda>env gen hard_limit fallback s r. alarms_per_message gen = 0 \<longrightarrow> \<not> is_ok (fst r)"
  have "?P env gen hard_limit fallback s r" if "dispatch_alarms_streak env gen hard_limit fallback s = Some r" for r
    using that
    by (rule dispatch_alarms_streak.raw_induct [where P = ?P, rotated])
      (auto split: option.splits sum.splits if_splits prod.splits dest: zero_alarms_not_finished)
  with assms show ?thesis by fastforce
qed


section \<open>A small chain\<close>

text \<open>The state is the number of pending alarms.\<close>

definition example_generator :: "(string, unit) alarms_generator" where
  "example_generator =
     \<lparr>generator_transaction_tx = (), generator_address = ''contract'', alarms_per_message = 5,
      gas_per_alarm = 1000, generator_idle_duration = 1, generator_timeout_duration = 60000000000,
      generator_tx_body = \<lparr>messages = [''call''], memo = [], timeout_height = 0,
        extension_options = [], non_critical_extension_options = []\<rparr>,
      generator_source = ''Time Alarms'', generator_alarms = TimeAlarms\<rparr>"

definition example_chain :: "(string, unit, unit, nat) alarms_env" where
  "example_chain =
     \<lparr>smart_version = \<lambda>_ _ s. (Ok (SemVer 0 4 4), s), smart_status = \<lambda>_ _ s. (Ok (0 < s), s),
      send_package = \<lambda>_ _ s. (Ok (), s), await_response = \<lambda>_ s. (Ok example_response, s),
      alarms_tx_env =
        \<lparr>query_tx = \<lambda>_ s.
           (Ok (Some (example_response\<lparr>response_data := to_dec (unat (of_nat (min s 5) :: u32))\<rparr>)), s - min s 5),
         env_sleep = \<lambda>_ s. s, clock = \<lambda>_. 0\<rparr>,
      alarms_decoders =
        \<lparr>hex_decode = \<lambda>d. Ok d, package_decode = \<lambda>d. Ok d, any_decode = \<lambda>d. Ok d,
         to_msg_data = \<lambda>d. Ok d, from_slice = parse_unsigned\<rparr>,
      alarms_sleep = \<lambda>_ s. s\<rparr>"

lemma example_chain_delivers: "delivering_chain example_chain example_generator 5000 (\<lambda>_. True) (\<lambda>s. s)"
proof -
  have small: "unat (of_nat (min s 5) :: u32) = min s 5" for s by (simp add: unat_of_nat)
  have "parse_unsigned (to_dec (min s 5)) = Ok (of_nat (min s 5) :: u32)" for s
    using parse_to_dec [of "of_nat (min s 5) :: u32"] by (simp only: small)
  with small show ?thesis
    by (simp add: delivering_chain_def example_chain_def example_generator_def example_response_def
        decode_execute_response_def)
qed


lemma example_in_streak: "dispatch_reachable example_chain example_generator 5000 True 0 12"
  by (rule dispatch_reachable.some_remaining [OF dispatch_reachable.start [of _ _ _ 12]])
    (simp add: alarms_status_def example_chain_def)

lemma example_hard_limit: "alarms_hard_gas_limit example_generator = Ok 5000"
  by (simp add: alarms_hard_gas_limit_def example_generator_def checked_mul_def)

theorem streak_gas_within_limits_witness:
  "fallback_gas (alarms_package example_generator 5000 0) \<le>
     hard_gas_limit (alarms_package example_generator 5000 0)"
  using streak_gas_within_limits [OF example_hard_limit example_in_streak] by simp

end
