(* ===== verification/Node.thy ===== *)
theory Node
  imports Digits Tx Signer
begin

text \<open>
  \<open>chain-ops/src/node\<close>: the gRPC client shared by all interfaces, with its flag that asks for a
  new connection, and the queries of the interfaces.  The transport, the remote calls
  and the decoders are parameters; a call sees the channel it is made on.  The state of
  the client is passed explicitly, as \<open>Arc<ClientInner>\<close> is shared: one call is one
  transition under its lock.
\<close>

section \<open>State\<close>

record 'c client_inner =
  should_reconnect :: bool
  grpc :: 'c

type_synonym ('c, 's, 'a) node_eff =
  "'c client_inner \<Rightarrow> 's \<Rightarrow> 'a res \<times> 'c client_inner \<times> 's"

datatype tonic_code =
    CodeOk | CodeCancelled | CodeUnknown | CodeInvalidArgument | CodeDeadlineExceeded | CodeNotFound
  | CodeAlreadyExists | CodePermissionDenied | CodeResourceExhausted | CodeFailedPrecondition
  | CodeAborted | CodeOutOfRange | CodeUnimplemented | CodeInternal | CodeUnavailable | CodeDataLoss
  | CodeUnauthenticated

record status =
  status_code :: tonic_code
  status_message :: string

type_synonym ('c, 's, 'r) rpc = "'c \<Rightarrow> 's \<Rightarrow> (status + 'r) \<times> 's"

record ('uri, 'endpoint, 'c, 's) transport =
  parse_uri :: "string \<Rightarrow> 'uri res"
  uri_scheme :: "'uri \<Rightarrow> string option"
  plain_endpoint :: "'uri \<Rightarrow> 'endpoint"
  tls_config :: "'endpoint \<Rightarrow> 'endpoint res"
  endpoint_connect :: "'endpoint \<Rightarrow> ('s, 'c) eff"


section \<open>Connecting\<close>

definition build_endpoint :: "('uri, 'endpoint, 'c, 's) transport \<Rightarrow> string \<Rightarrow> 'endpoint res" where
  "build_endpoint tr uri_text =
     and_then (with_context (''Failed to parse gRPC URI, \"'' @ uri_text @ ''\"!'') (parse_uri tr uri_text)) (\<lambda>uri.
       let endpoint = plain_endpoint tr uri in
       if uri_scheme tr uri = Some ''http'' \<or> uri_scheme tr uri = Some ''ws'' then Ok endpoint
       else with_context ''Failed to configure TLS for node's gRPC endpoint!'' (tls_config tr endpoint))"

definition client_connect ::
  "('uri, 'endpoint, 'c, 's) transport \<Rightarrow> string \<Rightarrow> ('s, 'endpoint \<times> 'c client_inner) eff" where
  "client_connect tr uri_text =
     bind_eff (lift_eff (build_endpoint tr uri_text)) (\<lambda>endpoint.
     context_eff ''Failed to connect to node's gRPC endpoint!''
       (map_eff (\<lambda>channel. (endpoint, \<lparr>should_reconnect = False, grpc = channel\<rparr>)) (endpoint_connect tr endpoint)))"

definition set_should_reconnect :: "'c client_inner \<Rightarrow> 'c client_inner" where
  "set_should_reconnect c = c\<lparr>should_reconnect := True\<rparr>"

text \<open>\<open>dial\<close> opens a new channel to the client's endpoint.\<close>

definition reconnect :: "('s, 'c) eff \<Rightarrow> ('c, 's, unit) node_eff" where
  "reconnect dial c s =
     (if should_reconnect c
      then (case context_eff ''Failed to reconnect to node's gRPC endpoint!'' dial s of
          (Inl e, s') \<Rightarrow> (Inl e, c, s')
        | (Inr new_channel, s') \<Rightarrow> (Ok (), c\<lparr>grpc := new_channel, should_reconnect := False\<rparr>, s'))
      else (Ok (), c, s))"

definition reconnect_if_required :: "('s, 'c) eff \<Rightarrow> ('c, 's, unit) node_eff" where
  "reconnect_if_required dial c s =
     (if should_reconnect c then reconnect dial c s else (Ok (), c, s))"

text \<open>The seven service clients differ only in the stub put around the channel.\<close>

definition service_client :: "('s, 'c) eff \<Rightarrow> ('c, 's, 'c) node_eff" where
  "service_client dial c s =
     (case reconnect_if_required dial c s of
        (Inl e, c', s') \<Rightarrow> (Inl e, c', s')
      | (Inr _, c', s') \<Rightarrow> (Ok (grpc c'), c', s'))"

definition set_reconnect_if_required :: "'c client_inner \<Rightarrow> tonic_code \<Rightarrow> 'c client_inner" where
  "set_reconnect_if_required c error_code =
     (if error_code = CodeOk \<or> error_code = CodeNotFound then set_should_reconnect c else c)"


section \<open>Queries\<close>

text \<open>The common shape of a query: get the client, call, note the status of a failure.\<close>

definition query_call ::
  "('s, 'c) eff \<Rightarrow> string \<Rightarrow> ('c, 's, 'r) rpc \<Rightarrow> ('r \<Rightarrow> 'a res) \<Rightarrow> ('c, 's, 'a) node_eff" where
  "query_call dial message rpc decode c s =
     (case service_client dial c s of
        (Inl e, c1, s1) \<Rightarrow> (Inl e, c1, s1)
      | (Inr channel, c1, s1) \<Rightarrow>
          (case rpc channel s1 of
             (Inl st, s2) \<Rightarrow>
               (Err [message, status_message st], set_reconnect_if_required c1 (status_code st), s2)
           | (Inr response, s2) \<Rightarrow> (decode response, c1, s2)))"

definition node_account_query ::
  "('s, 'c) eff \<Rightarrow> (string \<Rightarrow> ('c, 's, 'any option) rpc) \<Rightarrow> ('any \<Rightarrow> 'msg res) \<Rightarrow> ('msg \<Rightarrow> base_account res) \<Rightarrow>
     string \<Rightarrow> ('c, 's, base_account) node_eff" where
  "node_account_query dial rpc to_msg try_from address =
     query_call dial ''Failed to query account information!'' (rpc address) (\<lambda>account.
       and_then (opt_context ''Query response doesn't contain account data!'' account) (\<lambda>any.
       and_then (with_context
         ''Failed to decode account data query's response from binary Protobuf format!'' (to_msg any)) (\<lambda>msg.
       with_context
         ''Failed to convert account data query's response into it's structured form!'' (try_from msg))))"

definition query_balance ::
  "('s, 'c) eff \<Rightarrow> (string \<Rightarrow> string \<Rightarrow> ('c, 's, string option) rpc) \<Rightarrow> string \<Rightarrow> string \<Rightarrow>
     ('c, 's, u128) node_eff" where
  "query_balance dial rpc address denom =
     query_call dial ''Failed to query balance information!'' (rpc address denom) (\<lambda>balance.
       and_then (opt_context ''Query response doesn't contain balance information!'' balance) (\<lambda>amount_text.
       with_context ''Failed to parse balance amount!'' (parse_unsigned amount_text)))"

definition query_account_prefix ::
  "('s, 'c) eff \<Rightarrow> ('c, 's, string option) rpc \<Rightarrow> ('c, 's, string) node_eff" where
  "query_account_prefix dial rpc =
     query_call dial ''Failed to query network's configuration descriptor!'' rpc
       (opt_context ''Query response doesn't contain account address prefix configuration!'')"

definition query_chain_id ::
  "('s, 'c) eff \<Rightarrow> (string \<Rightarrow> 'id res) \<Rightarrow> ('c, 's, string option) rpc \<Rightarrow> ('c, 's, 'id) node_eff" where
  "query_chain_id dial parse_id rpc =
     query_call dial ''Failed to query information about connected node!'' rpc (\<lambda>info.
       and_then (opt_context ''Query response doesn't contain the default node information!'' info) (\<lambda>id_text.
       with_context ''Failed to parse chain's ID!'' (parse_id id_text)))"

definition query_syncing :: "('s, 'c) eff \<Rightarrow> ('c, 's, bool) rpc \<Rightarrow> ('c, 's, bool) node_eff" where
  "query_syncing dial rpc = query_call dial ''Failed to query syncing status of node!'' rpc Ok"

text \<open>The block's header with its height, a signed integer, may be missing at two levels.\<close>

definition query_latest_block ::
  "('s, 'c) eff \<Rightarrow> ('c, 's, 64 word option option) rpc \<Rightarrow> ('c, 's, u64) node_eff" where
  "query_latest_block dial rpc =
     query_call dial ''Failed to query node's latest block!'' rpc (\<lambda>block.
       and_then (opt_context ''Query response doesn't contain block information!'' block) (\<lambda>header.
       opt_context ''Query response doesn't contain block's header information!''
         (map_option unsigned_abs header)))"

definition node_tx_query ::
  "('s, 'c) eff \<Rightarrow> (string \<Rightarrow> ('c, 's, tx_response option) rpc) \<Rightarrow> string \<Rightarrow>
     ('c, 's, tx_response option) node_eff" where
  "node_tx_query dial rpc hash c s =
     (case service_client dial c s of
        (Inl e, c1, s1) \<Rightarrow> (Inl e, c1, s1)
      | (Inr channel, c1, s1) \<Rightarrow>
          (case rpc hash channel s1 of
             (Inr response, s2) \<Rightarrow>
               (map_res Some (opt_context ''Query response doesn't contain transaction result!'' response), c1, s2)
           | (Inl st, s2) \<Rightarrow>
               if status_code st = CodeNotFound then (Ok None, c1, s2)
               else (Err [status_message st], set_reconnect_if_required c1 (status_code st), s2)))"

definition query_smart ::
  "('s, 'c) eff \<Rightarrow> (string \<Rightarrow> string \<Rightarrow> ('c, 's, string) rpc) \<Rightarrow> (string \<Rightarrow> 't res) \<Rightarrow> (string \<Rightarrow> string) \<Rightarrow>
     string \<Rightarrow> string \<Rightarrow> string \<Rightarrow> ('c, 's, 't) node_eff" where
  "query_smart dial rpc from_json utf8_lossy type_name address query_data =
     query_call dial ''Failed to run query against contract!'' (rpc address query_data) (\<lambda>data.
       with_context (''Failed to deserialize response into \"'' @ type_name @ ''\"!'')
         (with_context (''Response data: '' @ utf8_lossy data) (from_json data)))"

text \<open>The raw query first checks that the channel is ready; there any failure asks to reconnect.\<close>

definition query_raw ::
  "('s, 'c) eff \<Rightarrow> ('c \<Rightarrow> ('s, unit) eff) \<Rightarrow> ('c, 's, 'r) rpc \<Rightarrow> ('c, 's, 'r) node_eff" where
  "query_raw dial ready rpc c s =
     (case service_client dial c s of
        (Inl e, c1, s1) \<Rightarrow> (Inl e, c1, s1)
      | (Inr channel, c1, s1) \<Rightarrow>
          (case ready channel s1 of
             (Inl e, s2) \<Rightarrow>
               (with_context ''Failed to check if underlying gRPC service channel is ready!'' (Inl e),
                set_should_reconnect c1, s2)
           | (Inr _, s2) \<Rightarrow>
               (case rpc channel s2 of
                  (Inl st, s3) \<Rightarrow>
                    (Err [''Failed to run raw query!'', status_message st],
                     set_reconnect_if_required c1 (status_code st), s3)
                | (Inr response, s3) \<Rightarrow> (Ok response, c1, s3))))"

text \<open>The two calls of the broadcaster encode the transaction once the client is there.\<close>

definition encoded_call ::
  "('s, 'c) eff \<Rightarrow> ('raw \<Rightarrow> string res) \<Rightarrow> string \<Rightarrow> (string \<Rightarrow> ('c, 's, 'r) rpc) \<Rightarrow> ('r \<Rightarrow> 'a res) \<Rightarrow>
     'raw \<Rightarrow> ('c, 's, 'a) node_eff" where
  "encoded_call dial to_bytes message rpc decode raw c s =
     (case service_client dial c s of
        (Inl e, c1, s1) \<Rightarrow> (Inl e, c1, s1)
      | (Inr channel, c1, s1) \<Rightarrow>
          (case with_context ''Failed to encode signed transaction in binary Protobuf format!'' (to_bytes raw) of
             Inl e \<Rightarrow> (Inl e, c1, s1)
           | Inr bytes \<Rightarrow>
               (case rpc bytes channel s1 of
                  (Inl st, s2) \<Rightarrow>
                    (Err [message, status_message st], set_reconnect_if_required c1 (status_code st), s2)
                | (Inr response, s2) \<Rightarrow> (decode response, c1, s2))))"

definition node_simulate ::
  "('s, 'c) eff \<Rightarrow> ('raw \<Rightarrow> string res) \<Rightarrow> (string \<Rightarrow> ('c, 's, gas option) rpc) \<Rightarrow> 'raw \<Rightarrow> ('c, 's, gas) node_eff"
where
  "node_simulate dial to_bytes rpc =
     encoded_call dial to_bytes ''Failed to simulate transaction!'' rpc
       (opt_context ''Node didn't respond with gas information about simulation!'')"

definition node_sync ::
  "('s, 'c) eff \<Rightarrow> ('raw \<Rightarrow> string res) \<Rightarrow> (string \<Rightarrow> ('c, 's, tx_response option) rpc) \<Rightarrow> 'raw \<Rightarrow>
     ('c, 's, tx_response) node_eff" where
  "node_sync dial to_bytes rpc =
     encoded_call dial to_bytes ''Failed to broadcast transaction!'' rpc
       (opt_context ''Node didn't respond with transaction response!'')"


section \<open>When the client reconnects\<close>

lemma service_client_connected:
  "\<not> should_reconnect c \<Longrightarrow> service_client dial c s = (Ok (grpc c), c, s)"
  by (simp add: service_client_def reconnect_if_required_def)

text \<open>
  A client that is asked to reconnect does so before the next call: the call is made
  on the new channel and the request is cleared; if connecting fails, no call is made and
  the request stays; a client that is not asked to keeps its channel.
\<close>

lemma service_client_reconnects:
  "service_client dial c s =
     (if should_reconnect c
      then (case dial s of
          (Inr channel, s') \<Rightarrow> (Ok channel, \<lparr>should_reconnect = False, grpc = channel\<rparr>, s')
        | (Inl e, s') \<Rightarrow>
            (with_context ''Failed to reconnect to node's gRPC endpoint!'' (Inl e), c, s'))
      else (Ok (grpc c), c, s))"
  by (cases c) (auto simp: service_client_def reconnect_if_required_def reconnect_def context_eff_def
      split: prod.splits sum.splits elim: panics.elims)

text \<open>
  A call that fails with a status other than \<open>Ok\<close> and \<open>NotFound\<close>, as every failure of
  the transport does, leaves the client as it was: the next call is made on the same
  channel and no connection is opened.
\<close>

theorem transport_failure_keeps_channel:
  assumes "\<not> should_reconnect c" and "rpc (grpc c) s = (Inl st, s')"
    and "status_code st \<noteq> CodeOk" and "status_code st \<noteq> CodeNotFound"
  shows "query_call dial m rpc decode c s = (Err [m, status_message st], c, s') \<and>
    service_client dial c s'' = (Ok (grpc c), c, s'')"
  using assms by (simp add: query_call_def service_client_connected set_reconnect_if_required_def)

theorem transport_failure_keeps_channel_witness:
  "query_call (\<lambda>s. (Ok 1, s)) ''m'' (\<lambda>_ s. (Inl \<lparr>status_code = CodeUnavailable, status_message = ''down''\<rparr>, s))
      (\<lambda>r. Ok (r :: unit)) \<lparr>should_reconnect = False, grpc = 0 :: nat\<rparr> () =
     (Err [''m'', ''down''], \<lparr>should_reconnect = False, grpc = 0\<rparr>, ()) \<and>
   service_client (\<lambda>s. (Ok 1, s)) \<lparr>should_reconnect = False, grpc = 0 :: nat\<rparr> () =
     (Ok 0, \<lparr>should_reconnect = False, grpc = 0\<rparr>, ())"
  using transport_failure_keeps_channel [of "\<lparr>should_reconnect = False, grpc = 0 :: nat\<rparr>"
      "\<lambda>_ s. (Inl \<lparr>status_code = CodeUnavailable, status_message = ''down''\<rparr>, s)" "()"
      "\<lparr>status_code = CodeUnavailable, status_message = ''down''\<rparr>" "()" "\<lambda>s. (Ok 1, s)" "''m''"
      "\<lambda>r. Ok (r :: unit)" "()"] by simp

end
