(* ===== verification/Reconnect.thy ===== *)
theory Reconnect
  imports Node
begin

text \<open>
  \<open>chain-ops/src/node/mod.rs\<close>, concurrently: \<open>Client\<close> and the interfaces made from it
  (\<open>define_interface!\<close>) share one \<open>ClientInner\<close> through an \<open>Arc\<close>, so that any number of tasks call
  through it at the same time.  The flag is read before the lock is taken and once more
  under the lock; a task that finds its channel broken sets the flag without any lock.
  Here each access to the flag and to the lock is a step of its own, and the steps of the
  callers interleave freely.

  The channels are numbered in the order they were opened.  A caller remembers, for the
  statements only, which channels had been reported broken when its call began.
\<close>

section \<open>Callers of one client\<close>

datatype 'c phase =
    Idle
  | WaitForLock "nat set"           \<comment> \<open>waits in \<open>grpc.write()\<close>\<close>
  | LockHeld "nat set"              \<comment> \<open>about to look at the flag again\<close>
  | Connecting "nat set"            \<comment> \<open>in \<open>endpoint.connect()\<close>\<close>
  | Installed "nat set"             \<comment> \<open>stored the new channel, the flag is still set\<close>
  | Releasing "nat set"             \<comment> \<open>about to drop the lock\<close>
  | Reading "nat set"               \<comment> \<open>waits in \<open>grpc.read()\<close>\<close>
  | HasChannel "nat set" nat 'c     \<comment> \<open>calls through its copy of the channel\<close>

record ('t, 'c) shared =
  inner :: "'c client_inner"
  writer :: "'t option"
  callers :: "'t \<Rightarrow> 'c phase"
  generation :: nat
  reported :: "nat set"
  reports :: nat

definition enter_phase :: "'t \<Rightarrow> 'c phase \<Rightarrow> ('t, 'c) shared \<Rightarrow> ('t, 'c) shared" where
  "enter_phase t p s = s\<lparr>callers := (callers s)(t := p)\<rparr>"

text \<open>
  \<open>Reconnect::reconnect\<close> can also be called directly, without a first look at the flag; such
  a call ends when it gives back the lock.  An aborted task is dropped where it waits: it
  gives the lock back and nothing else happens, as after a failed connection attempt.
\<close>

inductive shared_step :: "('t, 'c) shared \<Rightarrow> ('t, 'c) shared \<Rightarrow> bool" where
  begin_connected: "callers s t = Idle \<Longrightarrow> \<not> should_reconnect (inner s) \<Longrightarrow>
    shared_step s (enter_phase t (Reading (reported s)) s)"
| begin_required: "callers s t = Idle \<Longrightarrow> should_reconnect (inner s) \<Longrightarrow>
    shared_step s (enter_phase t (WaitForLock (reported s)) s)"
| begin_explicit: "callers s t = Idle \<Longrightarrow> shared_step s (enter_phase t (WaitForLock (reported s)) s)"
| acquire: "callers s t = WaitForLock K \<Longrightarrow> writer s = None \<Longrightarrow>
    shared_step s (enter_phase t (LockHeld K) (s\<lparr>writer := Some t\<rparr>))"
| already_done: "callers s t = LockHeld K \<Longrightarrow> \<not> should_reconnect (inner s) \<Longrightarrow>
    shared_step s (enter_phase t (Releasing K) s)"
| still_required: "callers s t = LockHeld K \<Longrightarrow> should_reconnect (inner s) \<Longrightarrow>
    shared_step s (enter_phase t (Connecting K) s)"
| install: "callers s t = Connecting K \<Longrightarrow>
    shared_step s (enter_phase t (Installed K)
      (s\<lparr>inner := (inner s)\<lparr>grpc := new_channel\<rparr>, generation := Suc (generation s)\<rparr>))"
| connect_failed: "callers s t = Connecting K \<Longrightarrow> shared_step s (enter_phase t Idle (s\<lparr>writer := None\<rparr>))"
| clear: "callers s t = Installed K \<Longrightarrow>
    shared_step s (enter_phase t (Releasing K) (s\<lparr>inner := (inner s)\<lparr>should_reconnect := False\<rparr>\<rparr>))"
| release: "callers s t = Releasing K \<Longrightarrow>
    shared_step s (enter_phase t (Reading K) (s\<lparr>writer := None\<rparr>))"
| release_explicit: "callers s t = Releasing K \<Longrightarrow>
    shared_step s (enter_phase t Idle (s\<lparr>writer := None\<rparr>))"
| read: "callers s t = Reading K \<Longrightarrow> writer s = None \<Longrightarrow>
    shared_step s (enter_phase t (HasChannel K (generation s) (grpc (inner s))) s)"
| report: "callers s t = HasChannel K g c \<Longrightarrow>
    shared_step s (enter_phase t Idle
      (s\<lparr>inner := set_should_reconnect (inner s), reported := insert g (reported s),
         reports := Suc (reports s)\<rparr>))"
| give_up: "callers s t \<in> {WaitForLock K, Reading K, HasChannel K g c} \<Longrightarrow>
    shared_step s (enter_phase t Idle s)"

text \<open>The state after \<open>Client::connect\<close>.\<close>

definition shared_new :: "'c client_inner \<Rightarrow> ('t, 'c) shared" where
  "shared_new c =
     \<lparr>inner = c, writer = None, callers = \<lambda>_. Idle, generation = 0, reported = {}, reports = 0\<rparr>"

inductive shared_reachable :: "('t, 'c) shared \<Rightarrow> bool" where
  connected: "\<not> should_reconnect c \<Longrightarrow> shared_reachable (shared_new c)"
| step: "shared_reachable s \<Longrightarrow> shared_step s s' \<Longrightarrow> shared_reachable s'"

inductive_cases shared_step_elim: "shared_step s s'"


section \<open>The invariant\<close>

fun holds_lock :: "'c phase \<Rightarrow> bool" where
  "holds_lock (LockHeld K) = True"
| "holds_lock (Connecting K) = True"
| "holds_lock (Installed K) = True"
| "holds_lock (Releasing K) = True"
| "holds_lock p = False"

fun installed :: "'c phase \<Rightarrow> bool" where
  "installed (Installed K) = True"
| "installed p = False"

text \<open>
  Under the lock a new channel may be stored that nobody can have read yet: the channels
  in use are numbered below \<open>readable\<close>.
\<close>

definition installing :: "('t, 'c) shared \<Rightarrow> bool" where
  "installing s \<longleftrightarrow> (\<exists>t. writer s = Some t \<and> installed (callers s t))"

definition readable :: "('t, 'c) shared \<Rightarrow> nat" where
  "readable s = (if installing s then generation s else Suc (generation s))"

text \<open>What holds of one caller, given the channels reported and the number of the current one.\<close>

fun caller_inv :: "nat set \<Rightarrow> nat \<Rightarrow> nat \<Rightarrow> bool \<Rightarrow> 'c phase \<Rightarrow> bool" where
  "caller_inv R gen bound flag Idle \<longleftrightarrow> True"
| "caller_inv R gen bound flag (WaitForLock K) \<longleftrightarrow> K \<subseteq> R"
| "caller_inv R gen bound flag (LockHeld K) \<longleftrightarrow> K \<subseteq> R"
| "caller_inv R gen bound flag (Connecting K) \<longleftrightarrow> K \<subseteq> R \<and> flag"
| "caller_inv R gen bound flag (Installed K) \<longleftrightarrow> K \<subseteq> R \<and> flag"
| "caller_inv R gen bound flag (Releasing K) \<longleftrightarrow> K \<subseteq> R \<and> gen \<notin> K"
| "caller_inv R gen bound flag (Reading K) \<longleftrightarrow> K \<subseteq> R \<and> gen \<notin> K"
| "caller_inv R gen bound flag (HasChannel K g c) \<longleftrightarrow> K \<subseteq> R \<and> g \<notin> K \<and> g < bound"

abbreviation caller_ok :: "('t, 'c) shared \<Rightarrow> 'c phase \<Rightarrow> bool" where
  "caller_ok s \<equiv> caller_inv (reported s) (generation s) (readable s) (should_reconnect (inner s))"

definition lock_inv :: "('t, 'c) shared \<Rightarrow> bool" where
  "lock_inv s \<longleftrightarrow> (\<forall>t. holds_lock (callers s t) \<longleftrightarrow> writer s = Some t)"

definition flag_inv :: "('t, 'c) shared \<Rightarrow> bool" where
  "flag_inv s \<longleftrightarrow>
     reported s \<subseteq> {..<readable s} \<and> (generation s \<in> reported s \<longrightarrow> should_reconnect (inner s)) \<and>
     generation s + (if should_reconnect (inner s) \<and> \<not> installing s then 1 else 0) \<le> reports s"

definition shared_inv :: "('t, 'c) shared \<Rightarrow> bool" where
  "shared_inv s \<longleftrightarrow> lock_inv s \<and> flag_inv s \<and> (\<forall>t. caller_ok s (callers s t))"

lemma enter_phase_simps [simp]:
  "inner (enter_phase t p s) = inner s" "writer (enter_phase t p s) = writer s"
  "callers (enter_phase t p s) u = (if u = t then p else callers s u)"
  "generation (enter_phase t p s) = generation s" "reported (enter_phase t p s) = reported s"
  "reports (enter_phase t p s) = reports s"
  by (simp_all add: enter_phase_def)

lemma installed_holds: "installed p \<Longrightarrow> holds_lock p"
  by (cases p) auto

lemma shared_new_inv: "\<not> should_reconnect c \<Longrightarrow> shared_inv (shared_new c)"
  by (simp add: shared_inv_def lock_inv_def flag_inv_def shared_new_def)

lemma caller_inv_mono:
  assumes "caller_inv R gen bound flag p" and "R \<subseteq> R'" and "bound \<le> bound'" and "flag \<longrightarrow> flag' \<or> \<not> holds_lock p"
  shows "caller_inv R' gen bound' flag' p"
  using assms by (cases p) auto

section \<open>Steps keep it\<close>

text \<open>A caller without the lock changes its own phase.\<close>

lemma phase_inv:
  assumes "shared_inv s" and "\<not> holds_lock (callers s t)" and "\<not> holds_lock p" and "caller_ok s p"
  shows "shared_inv (enter_phase t p s)"
proof -
  have "installing (enter_phase t p s) = installing s"
    using assms(2,3) by (auto simp: installing_def dest: installed_holds)
  then have "readable (enter_phase t p s) = readable s" by (simp add: readable_def)
  with \<open>installing _ = _\<close> assms show ?thesis by (auto simp: shared_inv_def lock_inv_def flag_inv_def)
qed

text \<open>The holder of the lock, before it has stored a new channel, goes on or gives the lock back.\<close>

lemma holder_inv:
  assumes "shared_inv s" and "holds_lock (callers s t)" and "\<not> installed (callers s t)" and "\<not> installed p"
    and "caller_ok s p"
  shows "holds_lock p \<Longrightarrow> shared_inv (enter_phase t p s)"
    and "\<not> holds_lock p \<Longrightarrow> shared_inv (enter_phase t p (s\<lparr>writer := None\<rparr>))"
proof -
  have w: "writer s = Some t" using assms(1,2) by (simp add: shared_inv_def lock_inv_def)
  have "\<not> installing s" "\<not> installing (enter_phase t p s)" "\<not> installing (enter_phase t p (s\<lparr>writer := None\<rparr>))"
    using w assms(3,4) by (auto simp: installing_def)
  with assms w show "holds_lock p \<Longrightarrow> shared_inv (enter_phase t p s)"
    and "\<not> holds_lock p \<Longrightarrow> shared_inv (enter_phase t p (s\<lparr>writer := None\<rparr>))"
    by (auto simp: shared_inv_def lock_inv_def flag_inv_def readable_def)
qed

lemma acquire_inv:
  assumes "shared_inv s" and "callers s t = WaitForLock K" and "writer s = None"
  shows "shared_inv (enter_phase t (LockHeld K) (s\<lparr>writer := Some t\<rparr>))"
proof -
  have "\<not> installing s" "\<not> installing (enter_phase t (LockHeld K) (s\<lparr>writer := Some t\<rparr>))"
    using assms(3) by (auto simp: installing_def)
  moreover have "caller_ok s (WaitForLock K)" using assms(1,2) unfolding shared_inv_def by metis
  ultimately show ?thesis
    using assms by (auto simp: shared_inv_def lock_inv_def flag_inv_def readable_def)
qed

lemma install_inv:
  assumes "shared_inv s" and "callers s t = Connecting K"
  shows "shared_inv (enter_phase t (Installed K)
    (s\<lparr>inner := (inner s)\<lparr>grpc := c\<rparr>, generation := Suc (generation s)\<rparr>))" (is "shared_inv ?s")
proof -
  have w: "writer s = Some t" and flag: "should_reconnect (inner s)" and K: "K \<subseteq> reported s"
    using assms(1) spec [of "\<lambda>t. caller_ok s (callers s t)" t] spec [of "\<lambda>t. holds_lock (callers s t) = (writer s = Some t)" t]
    by (auto simp: shared_inv_def lock_inv_def assms(2))
  then have ins: "\<not> installing s" "installing ?s" using assms(2) by (auto simp: installing_def)
  then have "readable ?s = readable s" by (simp add: readable_def)
  moreover have "caller_ok ?s (callers ?s u)" for u
  proof -
    have "caller_ok s (callers s u)" and "reported s \<subseteq> {..<Suc (generation s)}"
      using assms(1) ins by (auto simp: shared_inv_def flag_inv_def readable_def)
    with K flag ins show ?thesis by (cases "callers s u") (auto simp: readable_def)
  qed
  moreover have "Suc (generation s) \<le> reports s" and "reported s \<subseteq> {..<Suc (generation s)}"
    using assms(1) flag ins by (auto simp: shared_inv_def flag_inv_def readable_def)
  ultimately show ?thesis
    using assms w flag ins by (auto simp: shared_inv_def lock_inv_def flag_inv_def readable_def)
qed

lemma clear_inv:
  assumes "shared_inv s" and "callers s t = Installed K"
  shows "shared_inv (enter_phase t (Releasing K)
    (s\<lparr>inner := (inner s)\<lparr>should_reconnect := False\<rparr>\<rparr>))" (is "shared_inv ?s")
proof -
  have w: "writer s = Some t" and K: "K \<subseteq> reported s"
    using assms(1) spec [of "\<lambda>t. caller_ok s (callers s t)" t] spec [of "\<lambda>t. holds_lock (callers s t) = (writer s = Some t)" t]
    by (auto simp: shared_inv_def lock_inv_def assms(2))
  then have ins: "installing s" "\<not> installing ?s" using assms(2) by (auto simp: installing_def)
  then have R: "reported s \<subseteq> {..<generation s}" and le: "generation s \<le> reports s"
    using assms(1) by (auto simp: shared_inv_def flag_inv_def readable_def)
  have "caller_ok ?s (callers ?s u)" for u
  proof (cases "u = t")
    case False
    then have "\<not> holds_lock (callers s u)" using assms(1) w by (simp add: shared_inv_def lock_inv_def)
    moreover have "caller_ok s (callers s u)" using assms(1) by (simp add: shared_inv_def)
    ultimately have "caller_inv (reported s) (generation s) (readable ?s) False (callers s u)"
      by (elim caller_inv_mono) (use ins in \<open>auto simp: readable_def\<close>)
    with False show ?thesis by simp
  qed (use K R in auto)
  with assms w ins R le show ?thesis
    by (auto simp: shared_inv_def lock_inv_def flag_inv_def readable_def)
qed

lemma report_inv:
  assumes "shared_inv s" and "callers s t = HasChannel K g c"
  shows "shared_inv (s\<lparr>inner := set_should_reconnect (inner s), reported := insert g (reported s),
         reports := Suc (reports s)\<rparr>)" (is "shared_inv ?s")
proof -
  have ins: "installing ?s = installing s" "readable ?s = readable s"
    by (simp_all add: installing_def readable_def)
  have "g < readable s" using assms(1) spec [of "\<lambda>t. caller_ok s (callers s t)" t]
    by (simp add: shared_inv_def assms(2))
  moreover have "caller_ok ?s (callers ?s u)" for u
  proof -
    have "caller_ok s (callers s u)" using assms(1) by (simp add: shared_inv_def)
    then have "caller_inv (insert g (reported s)) (generation s) (readable s) True (callers s u)"
      by (rule caller_inv_mono) auto
    with ins show ?thesis by (simp add: set_should_reconnect_def)
  qed
  ultimately show ?thesis
    using assms(1) ins
    by (auto simp: shared_inv_def lock_inv_def flag_inv_def set_should_reconnect_def split: if_splits)
qed

lemma shared_step_inv:
  assumes "shared_step s s'" and "shared_inv s"
  shows "shared_inv s'"
proof -
  have ok: "caller_ok s (callers s t)" for t using assms(2) by (simp add: shared_inv_def)
  have flag: "reported s \<subseteq> {..<readable s}" "generation s \<in> reported s \<longrightarrow> should_reconnect (inner s)"
    using assms(2) by (simp_all add: shared_inv_def flag_inv_def)
  from assms(1) show ?thesis
  proof (cases rule: shared_step.cases)
    case (begin_connected t)
    with flag(2) have "caller_ok s (Reading (reported s))" by auto
    with begin_connected show ?thesis by (simp add: phase_inv [OF assms(2)])
  next
    case (acquire t K)
    then show ?thesis using acquire_inv [OF assms(2)] by simp
  next
    case (already_done t K)
    with ok [of t] flag(2) show ?thesis by (auto intro!: holder_inv(1) [OF assms(2)])
  next
    case (still_required t K)
    with ok [of t] show ?thesis by (auto intro!: holder_inv(1) [OF assms(2)])
  next
    case (install t K c)
    then show ?thesis using install_inv [OF assms(2)] by simp
  next
    case (connect_failed t K)
    then show ?thesis by (auto intro!: holder_inv(2) [OF assms(2)])
  next
    case (clear t K)
    then show ?thesis using clear_inv [OF assms(2)] by simp
  next
    case (release t K)
    with ok [of t] show ?thesis by (auto intro!: holder_inv(2) [OF assms(2)])
  next
    case (release_explicit t K)
    then show ?thesis by (auto intro!: holder_inv(2) [OF assms(2)])
  next
    case (read t K)
    then have "readable s = Suc (generation s)" by (simp add: readable_def installing_def)
    with read ok [of t] show ?thesis by (auto intro!: phase_inv [OF assms(2)])
  next
    case (report t K g c)
    then show ?thesis using phase_inv [OF report_inv [OF assms(2) report(2)], of t Idle] by simp
  qed (auto intro!: phase_inv [OF assms(2)])
qed

lemma shared_reachable_inv: "shared_reachable s \<Longrightarrow> shared_inv s"
  by (induction rule: shared_reachable.induct) (auto intro: shared_new_inv shared_step_inv)

text \<open>
  C13: however the calls of any number of tasks interleave on one client, at most one of them
  opens a connection at a time; no more connections are opened than channels were reported
  broken; a report of the channel in use is never lost before another channel has taken
  its place; and no call goes through a channel that had been reported when the call began.
\<close>

theorem reconnection_sound:
  assumes "shared_reachable s"
  shows "(\<forall>t u K L. callers s t = Connecting K \<longrightarrow> callers s u = Connecting L \<longrightarrow> t = u) \<and>
    generation s \<le> reports s \<and>
    (generation s \<in> reported s \<longrightarrow> should_reconnect (inner s)) \<and>
    (\<forall>t K g c. callers s t = HasChannel K g c \<longrightarrow> g \<notin> K)"
proof -
  note inv = shared_reachable_inv [OF assms]
  have "t = u" if "callers s t = Connecting K" "callers s u = Connecting L" for t u K L
  proof -
    have "holds_lock (callers s t)" "holds_lock (callers s u)" using that by simp_all
    with inv have "writer s = Some t" "writer s = Some u" by (auto simp only: shared_inv_def lock_inv_def)
    then show ?thesis by simp
  qed
  moreover have "g \<notin> K" if "callers s t = HasChannel K g c" for t K g c
    using inv spec [of "\<lambda>t. caller_ok s (callers s t)" t] by (simp add: shared_inv_def that)
  ultimately show ?thesis using inv by (auto simp: shared_inv_def flag_inv_def)
qed


section \<open>A call that nobody interrupts\<close>

lemma enter_phase_twice [simp]: "enter_phase t q (enter_phase t p s) = enter_phase t q s"
  by (simp add: enter_phase_def)

lemma enter_phase_writer [simp]: "(enter_phase t p s)\<lparr>writer := w\<rparr> = enter_phase t p (s\<lparr>writer := w\<rparr>)"
  by (simp add: enter_phase_def)

lemma enter_phase_inner [simp]: "(enter_phase t p s)\<lparr>inner := i\<rparr> = enter_phase t p (s\<lparr>inner := i\<rparr>)"
  by (simp add: enter_phase_def)

lemma take_lock:
  assumes "callers s t = Idle" and "writer s = None" and "should_reconnect (inner s)"
  shows "shared_step\<^sup>*\<^sup>* s (enter_phase t (Connecting (reported s)) (s\<lparr>writer := Some t\<rparr>))"
proof -
  let ?R = "reported s"
  have "shared_step\<^sup>*\<^sup>* s (enter_phase t (WaitForLock ?R) s)"
    using begin_required [OF assms(1,3)] ..
  also have "shared_step\<^sup>*\<^sup>* \<dots> (enter_phase t (LockHeld ?R) (s\<lparr>writer := Some t\<rparr>))"
    using acquire [of "enter_phase t (WaitForLock ?R) s" t ?R] assms(2) by simp
  also have "shared_step\<^sup>*\<^sup>* \<dots> (enter_phase t (Connecting ?R) (s\<lparr>writer := Some t\<rparr>))"
    using still_required [of "enter_phase t (LockHeld ?R) (s\<lparr>writer := Some t\<rparr>)" t ?R] assms(3) by simp
  finally show ?thesis .
qed

lemma finish_reconnect:
  assumes "callers s t = Connecting K" and "writer s = Some t"
  shows "\<exists>s'. shared_step\<^sup>*\<^sup>* s s' \<and> callers s' t = HasChannel K (Suc (generation s)) c \<and>
    inner s' = (inner s)\<lparr>grpc := c, should_reconnect := False\<rparr>"
proof -
  define s1 where "s1 = enter_phase t (Installed K)
    (s\<lparr>inner := (inner s)\<lparr>grpc := c\<rparr>, generation := Suc (generation s)\<rparr>)"
  define s2 where "s2 = enter_phase t (Releasing K) (s1\<lparr>inner := (inner s1)\<lparr>should_reconnect := False\<rparr>\<rparr>)"
  define s3 where "s3 = enter_phase t (Reading K) (s2\<lparr>writer := None\<rparr>)"
  define s4 where "s4 = enter_phase t (HasChannel K (generation s3) (grpc (inner s3))) s3"
  have "shared_step s s1" unfolding s1_def by (rule install [OF assms(1)])
  moreover have "shared_step s1 s2" unfolding s2_def by (rule clear) (simp add: s1_def)
  moreover have "shared_step s2 s3" unfolding s3_def by (rule release) (simp add: s2_def)
  moreover have "shared_step s3 s4" unfolding s4_def by (rule read) (simp_all add: s3_def)
  ultimately have "shared_step\<^sup>*\<^sup>* s s4" by (meson r_into_rtranclp rtranclp_trans)
  moreover have "callers s4 t = HasChannel K (Suc (generation s)) c"
    "inner s4 = (inner s)\<lparr>grpc := c, should_reconnect := False\<rparr>"
    by (simp_all add: s1_def s2_def s3_def s4_def)
  ultimately show ?thesis by blast
qed



section \<open>One caller, reporting a broken channel\<close>

definition example_client :: "nat client_inner" where
  "example_client = \<lparr>should_reconnect = False, grpc = 7\<rparr>"

definition example_calling :: "(nat, nat) shared" where
  "example_calling = enter_phase 0 (HasChannel {} 0 7) (shared_new example_client)"

definition example_reported :: "(nat, nat) shared" where
  "example_reported = enter_phase 0 Idle (example_calling
     \<lparr>inner := set_should_reconnect (inner example_calling), reported := insert 0 (reported example_calling),
      reports := Suc (reports example_calling)\<rparr>)"

lemma example_reported_reachable: "shared_reachable example_reported"
proof -
  let ?s = "shared_new example_client :: (nat, nat) shared"
  let ?r = "enter_phase 0 (Reading (reported ?s)) ?s"
  have "shared_reachable ?s" by (rule connected) (simp add: example_client_def)
  moreover have "shared_step ?s ?r" by (rule begin_connected) (simp_all add: shared_new_def example_client_def)
  moreover have "shared_step ?r (enter_phase 0 (HasChannel (reported ?s) (generation ?r) (grpc (inner ?r))) ?r)"
    by (rule read) (simp_all add: shared_new_def)
  ultimately have "shared_reachable (enter_phase 0 (HasChannel (reported ?s) (generation ?r) (grpc (inner ?r))) ?r)"
    by (blast intro: shared_reachable.step)
  then have "shared_reachable example_calling"
    by (simp add: example_calling_def shared_new_def example_client_def)
  then show ?thesis
    unfolding example_reported_def
    by (rule shared_reachable.step, intro report [of _ _ "{}" _ 7]) (simp add: example_calling_def)
qed

lemmas shared_eval = example_reported_def example_calling_def example_client_def shared_new_def
  set_should_reconnect_def

theorem reconnection_sound_witness:
  "should_reconnect (inner example_reported) \<and> generation example_reported \<le> reports example_reported"
  using reconnection_sound [OF example_reported_reachable] by (simp add: shared_eval)


end
