(* ===== verification/Service.thy ===== *)
theory Service
  imports TaskSet
begin

text \<open>
  \<open>chain-ops/src/service/mod.rs\<close> and \<open>task_spawner.rs\<close>: the event loop that owns the join handles
  of all spawned tasks and reports each finished one to the supervisor, the shutdown
  that aborts and joins what is left, and the spawner that hands join handles to the
  loop.  \<open>chain-ops/src/channel\<close>: the bounded channel's capacity and how the answers of the
  receiver are translated.  Polling is explicit: each iteration of the loop sees what
  its futures give at that time.
\<close>

section \<open>Channels\<close>

definition bounded_channel_capacity :: nat where
  "bounded_channel_capacity = 16"

datatype 'v try_recv_result = TryReceived 'v | TryEmpty | TryDisconnected

text \<open>\<open>Closed\<close> is an error with the one message.\<close>

definition channel_closed :: failure where
  "channel_closed = Error [''Channel closed!'']"

fun channel_try_recv :: "'v try_recv_result \<Rightarrow> 'v option res" where
  "channel_try_recv (TryReceived v) = Ok (Some v)"
| "channel_try_recv TryEmpty = Ok None"
| "channel_try_recv TryDisconnected = Inl channel_closed"

fun channel_recv :: "'v option \<Rightarrow> 'v res" where
  "channel_recv (Some v) = Ok v"
| "channel_recv None = Inl channel_closed"


section \<open>Spawning\<close>

text \<open>
  The join handle goes to the event loop; when that is gone, the cancellation token is
  dropped, which aborts the task just spawned.
\<close>

definition task_spawner_spawn ::
  "('f \<Rightarrow> 's \<Rightarrow> 'h \<times> 's) \<Rightarrow> ('i \<times> 'h \<Rightarrow> 's \<Rightarrow> bool \<times> 's) \<Rightarrow> ('h \<Rightarrow> 's \<Rightarrow> 's) \<Rightarrow> 'i \<Rightarrow> 'f \<Rightarrow> ('s, 'h) eff" where
  "task_spawner_spawn tokio_spawn send abort identifier future s =
     (case tokio_spawn future s of (join_handle, s1) \<Rightarrow>
     (case send (identifier, join_handle) s1 of (sent, s2) \<Rightarrow>
        if sent then (Ok join_handle, s2)
        else (Err [''Service is stopped!''], abort join_handle s2)))"


section \<open>The event loop\<close>

datatype ('i, 'h) handle_recv = RecvPending | RecvClosed | RecvHandle 'i 'h

record ('o, 'i, 'h, 'u) wakeup =
  supervisor_poll :: "'o option"
  task_handle_recv :: "('i, 'h) handle_recv"
  task_handle_rx_closed :: bool
  poll_task :: "'h \<Rightarrow> 'u option"
  results_open :: bool

datatype ('o, 'i, 'h, 'u) turn =
    SupervisorExited 'o
  | HandleAdded 'i "('i, 'h) task_set"
  | ResultSent 'i 'u "('i, 'h) task_set"
  | ResultsClosed "('i, 'h) task_set"
  | StillWaiting "('i, 'h) task_set"

text \<open>
  One wake-up of the biased \<open>select!\<close>: the supervisor first, then new handles, then
  finished tasks.  A branch whose pattern does not match is disabled, so a closed channel
  of handles leaves the other branches running.
\<close>

definition poll_tasks ::
  "('o, 'i, 'h, 'u) wakeup \<Rightarrow> ('i, 'h) task_set \<Rightarrow> ('o, 'i, 'h, 'u) turn res" where
  "poll_tasks w ts =
     (if task_set_is_empty ts then Ok (StillWaiting ts)
      else map_res
        (\<lambda>(out, ts'). case out of
             Ready (Some (identifier, result)) \<Rightarrow>
               if results_open w then ResultSent identifier result ts' else ResultsClosed ts'
           | _ \<Rightarrow> StillWaiting ts')
        (join_next (poll_task w) ts))"

definition event_loop_turn ::
  "('o, 'i, 'h, 'u) wakeup \<Rightarrow> ('i, 'h) task_set \<Rightarrow> ('o, 'i, 'h, 'u) turn res" where
  "event_loop_turn w ts =
     (case supervisor_poll w of
        Some supervisor_result \<Rightarrow> Ok (SupervisorExited supervisor_result)
      | None \<Rightarrow>
          (case task_handle_recv w of
             RecvHandle identifier task_handle \<Rightarrow>
               if task_handle_rx_closed w then poll_tasks w ts
               else Ok (HandleAdded identifier (add_handle identifier task_handle ts))
           | _ \<Rightarrow> poll_tasks w ts))"

text \<open>
  The loop over a sequence of wake-ups: the identifiers taken over, the results sent, the
  tasks left, and how the loop ended.  After the results channel has closed, only the
  supervisor is awaited.
\<close>

datatype 'o loop_exit = Running | AwaitingSupervisor | Finished 'o

fun event_loop ::
  "('o, 'i, 'h, 'u) wakeup list \<Rightarrow> ('i, 'h) task_set \<Rightarrow>
     ('i list \<times> ('i \<times> 'u) list \<times> ('i, 'h) task_set \<times> 'o loop_exit) res" where
  "event_loop [] ts = Ok ([], [], ts, Running)"
| "event_loop (w # ws) ts =
     and_then (event_loop_turn w ts) (\<lambda>turn.
       case turn of
         SupervisorExited result \<Rightarrow> Ok ([], [], ts, Finished result)
       | ResultsClosed ts' \<Rightarrow>
           Ok ([], [], ts',
             case List.map_filter supervisor_poll ws of
               [] \<Rightarrow> AwaitingSupervisor | result # _ \<Rightarrow> Finished result)
       | StillWaiting ts' \<Rightarrow> event_loop ws ts'
       | HandleAdded i ts' \<Rightarrow>
           map_res (\<lambda>(added, sent, ts'', e). (i # added, sent, ts'', e)) (event_loop ws ts')
       | ResultSent i u ts' \<Rightarrow>
           map_res (\<lambda>(added, sent, ts'', e). (added, (i, u) # sent, ts'', e)) (event_loop ws ts'))"

text \<open>What is left is aborted and joined; each step of the loop is one wake-up.\<close>

fun drain_tasks ::
  "('h \<Rightarrow> 'u option) list \<Rightarrow> ('i, 'h) task_set \<Rightarrow> ('i, 'h) task_set res" where
  "drain_tasks polls ts =
     (if task_set_is_empty ts then Ok ts
      else (case polls of
          [] \<Rightarrow> Ok ts
        | poll # polls' \<Rightarrow>
            and_then (join_next poll ts) (\<lambda>(out, ts'). drain_tasks polls' ts')))"

declare drain_tasks.simps [simp del]

datatype 'o shutdown_result = Exited 'o | StopSignalReceived


section \<open>Nothing is lost between the channels\<close>

text \<open>The contribution of one turn to what was added, sent and left.\<close>

fun turn_conserves :: "('i, 'h) task_set \<Rightarrow> ('o, 'i, 'h, 'u) turn \<Rightarrow> bool" where
  "turn_conserves ts (SupervisorExited r) = True"
| "turn_conserves ts (HandleAdded i ts') = (task_set_wf ts' \<and> task_ids ts' = add_mset i (task_ids ts))"
| "turn_conserves ts (ResultSent i u ts') = (task_set_wf ts' \<and> task_ids ts = add_mset i (task_ids ts'))"
| "turn_conserves ts (ResultsClosed ts') = (task_set_wf ts' \<and> (\<exists>i. task_ids ts = add_mset i (task_ids ts')))"
| "turn_conserves ts (StillWaiting ts') = (ts' = ts)"

lemma poll_tasks_conserves:
  assumes "task_set_wf ts"
  shows "\<exists>turn. poll_tasks w ts = Ok turn \<and> turn_conserves ts turn"
proof (cases "task_set_is_empty ts")
  case False
  obtain out ts' where join: "join_next (poll_task w) ts = Ok (out, ts')"
    by (rule join_next_returns [OF assms])
  note join_ids = join_next_ids [OF assms join]
  show ?thesis
  proof (cases "\<exists>i u. out = Ready (Some (i, u))")
    case True
    with join join_ids(1,2) False show ?thesis by (auto simp: poll_tasks_def)
  next
    case none: False
    then have "poll_tasks w ts = Ok (StillWaiting ts')"
      using join False by (auto simp: poll_tasks_def split: poll.splits option.splits)
    with join_ids(3) [OF none] show ?thesis by simp
  qed
qed (simp add: poll_tasks_def)

lemma event_loop_turn_conserves:
  assumes "task_set_wf ts"
  shows "\<exists>turn. event_loop_turn w ts = Ok turn \<and> turn_conserves ts turn"
proof -
  have "turn_conserves ts (HandleAdded i (add_handle i h ts))" for i h
    using assms by (simp add: task_set_wf_def add_handle_def task_ids_def)
  then show ?thesis
    using poll_tasks_conserves [OF assms, of w]
    by (auto simp: event_loop_turn_def split: option.splits handle_recv.splits)
qed

lemma event_loop_accounts:
  "task_set_wf ts \<Longrightarrow> \<exists>added sent ts' e. event_loop ws ts = Ok (added, sent, ts', e) \<and>
     task_set_wf ts' \<and> mset (map fst sent) + task_ids ts' \<subseteq># mset added + task_ids ts \<and>
     (e = Running \<longrightarrow> mset (map fst sent) + task_ids ts' = mset added + task_ids ts)"
proof (induction ws arbitrary: ts)
  case (Cons w ws)
  from event_loop_turn_conserves [OF Cons.prems, of w] obtain turn where
    turn: "event_loop_turn w ts = Ok turn" "turn_conserves ts turn" by blast
  show ?case
  proof (cases turn)
    case (HandleAdded i ts1)
    with turn Cons.IH [of ts1] show ?thesis by force
  next
    case (ResultSent i u ts1)
    with turn Cons.IH [of ts1] show ?thesis by force
  next
    case (StillWaiting ts1)
    with turn Cons show ?thesis by simp
  next
    case (ResultsClosed ts1)
    with turn show ?thesis by (auto split: list.splits)
  qed (use turn Cons.prems in simp)
qed simp

text \<open>
  C10: on every set of tasks the operations can build, the event loop never indexes out of
  bounds, and as long as it keeps running each task whose handle it took over is either
  still waited for or has had its result sent to the supervisor, exactly once.
\<close>

theorem event_loop_conserves:
  assumes "task_set_reachable poll_at ts"
  shows "\<exists>added sent ts' e. event_loop ws ts = Ok (added, sent, ts', e) \<and>
    (e = Running \<longrightarrow> mset (map fst sent) + mset (map fst (tasks ts')) = mset added + mset (map fst (tasks ts)))"
  using event_loop_accounts [OF reachable_wf [OF assms], of ws] by (auto simp: task_ids_def)

theorem event_loop_conserves_witness:
  "\<exists>added sent ts' e. event_loop
      [\<lparr>supervisor_poll = None, task_handle_recv = RecvHandle ''a'' (Some 1), task_handle_rx_closed = False,
        poll_task = \<lambda>h. h, results_open = True\<rparr>,
       \<lparr>supervisor_poll = None :: nat option, task_handle_recv = RecvPending, task_handle_rx_closed = False,
        poll_task = \<lambda>h. h, results_open = True\<rparr>] task_set_new = Ok (added, sent, ts', e) \<and>
    added = [''a''] \<and> sent = [(''a'', 1 :: nat)] \<and> tasks ts' = []"
proof -
  have "task_set_reachable (\<lambda>_ h. h) (task_set_new :: (string, nat option) task_set)"
    by (rule task_set_reachable.new)
  from event_loop_conserves [OF this, of
      "[\<lparr>supervisor_poll = None, task_handle_recv = RecvHandle ''a'' (Some 1), task_handle_rx_closed = False,
        poll_task = \<lambda>h. h, results_open = True\<rparr>,
       \<lparr>supervisor_poll = None :: nat option, task_handle_recv = RecvPending, task_handle_rx_closed = False,
        poll_task = \<lambda>h. h, results_open = True\<rparr>]"]
  show ?thesis
    by (simp add: event_loop_turn_def poll_tasks_def task_set_is_empty_def join_next_def
        task_set_new_def add_handle_def swap_remove_def)
qed

lemma drain_tasks_empty:
  assumes "task_set_wf ts" and "length polls = length (tasks ts)"
    and "\<And>poll h. poll \<in> set polls \<Longrightarrow> h \<in> snd ` set (tasks ts) \<Longrightarrow> poll h \<noteq> None"
  shows "\<exists>ts'. drain_tasks polls ts = Ok ts' \<and> tasks ts' = []"
  using assms
proof (induction polls arbitrary: ts)
  case Nil
  then show ?case by (simp add: drain_tasks.simps task_set_is_empty_def)
next
  case (Cons poll polls)
  then have nonempty: "tasks ts \<noteq> []" by auto
  obtain found ts1 where
    join: "join_next poll ts = Ok (case found of Some out \<Rightarrow> Ready (Some out) | None \<Rightarrow> Pending, ts1)"
    and out: "find_outcome poll [0..<length (tasks ts)] ts found ts1" and wf: "task_set_wf ts1"
    by (rule join_next_outcome [OF Cons.prems(1) nonempty])
  have "hd (tasks ts) \<in> set (tasks ts)" using nonempty by simp
  then have "poll (snd (tasks ts ! 0)) \<noteq> None"
    using Cons.prems(3) [of poll "snd (tasks ts ! 0)"] nonempty by (simp add: hd_conv_nth)
  then obtain i u h where found: "found = Some (i, u)"
    and ms: "mset (tasks ts) = add_mset (i, h) (mset (tasks ts1))"
    using out nonempty by (auto simp: find_outcome_def split: option.splits)
  from arg_cong [OF ms, of size] Cons.prems(2) have "length polls = length (tasks ts1)" by simp
  moreover have "set (tasks ts1) \<subseteq> set (tasks ts)"
    using arg_cong [OF ms, of set_mset] by auto
  ultimately have "\<exists>ts'. drain_tasks polls ts1 = Ok ts' \<and> tasks ts' = []"
    using Cons.IH [OF wf] Cons.prems(3) by (meson image_mono list.set_intros(2) subsetD)
  with join found nonempty show ?case
    by (subst drain_tasks.simps) (simp add: task_set_is_empty_def)
qed

text \<open>
  At shutdown every remaining task is joined: once the aborted tasks finish, as many
  wake-ups as there are tasks left empty the set, and the loop ends.
\<close>

theorem shutdown_joins_all:
  assumes "task_set_reachable poll_at ts"
    and "\<And>h. h \<in> snd ` set (tasks ts) \<Longrightarrow> poll h \<noteq> None"
  shows "\<exists>ts'. drain_tasks (replicate (length (tasks ts)) poll) ts = Ok ts' \<and> tasks ts' = []"
proof (rule drain_tasks_empty [OF reachable_wf [OF assms(1)]])
  show "p h \<noteq> None" if "p \<in> set (replicate (length (tasks ts)) poll)" "h \<in> snd ` set (tasks ts)" for p h
    using that assms(2) [of h] by (simp split: if_splits)
qed simp

theorem shutdown_joins_all_witness:
  "\<exists>ts'. drain_tasks [\<lambda>h. Some h, \<lambda>h. Some h] (add_handle ''b'' 2 (add_handle ''a'' (1 :: nat) task_set_new)) = Ok ts' \<and>
    tasks ts' = []"
proof -
  let ?ts = "add_handle ''b'' 2 (add_handle ''a'' (1 :: nat) task_set_new)"
  have "task_set_reachable (\<lambda>_. Some) ?ts" by (intro task_set_reachable.intros)
  from shutdown_joins_all [OF this, of "\<lambda>h. Some h"] have
    "\<exists>ts'. drain_tasks (replicate (length (tasks ?ts)) (\<lambda>h. Some h)) ?ts = Ok ts' \<and> tasks ts' = []" by simp
  moreover have "replicate (length (tasks ?ts)) (\<lambda>h. Some h) = [\<lambda>h :: nat. Some h, \<lambda>h. Some h]"
    by (simp add: add_handle_def task_set_new_def)
  ultimately show ?thesis by simp
qed

end
