(* ===== verification/App.thy ===== *)
theory App
  imports Service Supervisor Configuration
begin

text \<open>
  \<open>chain-ops/src/run.rs\<close>, \<open>chain-ops/src/macros.rs\<close> and \<open>run\<close> of \<open>chain-ops/src/service/mod.rs\<close>: the
  life of the process, from reading its settings to the result it exits with.  As in
  \<open>Service\<close>, each wake-up of the outer \<open>select!\<close> says what its futures give at that time;
  a sequence of wake-ups after which the process is still running gives \<open>None\<close>.
\<close>

section \<open>Running the service\<close>

text \<open>The supervisor's future: it is created, then runs until it fails.\<close>

definition supervise ::
  "('a::linorder, 'chan, 'tok, 'task, 's) supervisor_env \<Rightarrow>
     (('a, 'chan, 'tok) supervisor \<Rightarrow> 's \<Rightarrow> ('a sup_event \<times> 's) option) \<Rightarrow> 'a list \<Rightarrow> 's \<Rightarrow>
     (unit res \<times> 's) option" where
  "supervise env next_event startup_tasks s =
     (case supervisor_new env startup_tasks s of
        (Inl e, s1) \<Rightarrow> Some (with_context ''Failed to create tasks supervisor!'' (Inl e), s1)
      | (Inr sv, s1) \<Rightarrow>
          (case supervisor_run env next_event sv s1 of
             None \<Rightarrow> None
           | Some (e, sv', s2) \<Rightarrow> Some (with_context ''Supervisor exited with an error!'' (Inl e), s2)))"

text \<open>
  The signal handler: registering the three signals may fail; then any of them completes it,
  and it fails once none can arrive any more.
\<close>

datatype signal_poll = SignalPending | SignalReceived | SignalClosed

definition signal_handler :: "unit res list \<Rightarrow> signal_poll list \<Rightarrow> unit res option" where
  "signal_handler registered polls =
     (case collect_res registered of
        Inl e \<Rightarrow> Some (Inl e)
      | Inr _ \<Rightarrow>
          if SignalReceived \<in> set polls then Some (Ok ())
          else if list_all (\<lambda>p. p = SignalClosed) polls
          then Some (Err [''All signal handlers closed and can't receive anymore!''])
          else None)"

lemma signal_handler_Ok: "signal_handler registered polls = Some (Ok ()) \<Longrightarrow> SignalReceived \<in> set polls"
  by (auto simp: signal_handler_def split: sum.splits if_splits)

text \<open>
  A wake-up of the service: what the signal handler gives, and what the futures of the
  event loop give.  Once the channel of results has closed, the event loop only waits for
  the supervisor.
\<close>

type_synonym ('o, 'i, 'h, 'u) service_wakeup = "unit res option \<times> ('o, 'i, 'h, 'u) wakeup"

fun await_supervisor :: "('o, 'i, 'h, 'u) service_wakeup list \<Rightarrow> 'o shutdown_result res option" where
  "await_supervisor [] = None"
| "await_supervisor ((Some signal, w) # ws) = Some (map_res (\<lambda>_. StopSignalReceived) signal)"
| "await_supervisor ((None, w) # ws) =
     (case supervisor_poll w of
        Some result \<Rightarrow> Some (Ok (Exited result))
      | None \<Rightarrow> await_supervisor ws)"

fun service_select ::
  "('o, 'i, 'h, 'u) service_wakeup list \<Rightarrow> ('i, 'h) task_set \<Rightarrow>
     ('o shutdown_result res option \<times> ('i, 'h) task_set) res" where
  "service_select [] ts = Ok (None, ts)"
| "service_select ((Some signal, w) # ws) ts =
     Ok (Some (map_res (\<lambda>_. StopSignalReceived) signal), ts)"
| "service_select ((None, w) # ws) ts =
     and_then (event_loop_turn w ts) (\<lambda>turn.
       case turn of
         SupervisorExited result \<Rightarrow> Ok (Some (Ok (Exited result)), ts)
       | HandleAdded i ts' \<Rightarrow> service_select ws ts'
       | ResultSent i u ts' \<Rightarrow> service_select ws ts'
       | StillWaiting ts' \<Rightarrow> service_select ws ts'
       | ResultsClosed ts' \<Rightarrow> Ok (await_supervisor ws, ts'))"

text \<open>
  What is left is aborted, which shows in what the handles give when polled afterwards, and
  joined.
\<close>

definition service_run ::
  "('o, 'i, 'h, 'u) service_wakeup list \<Rightarrow> ('h \<Rightarrow> 'u option) list \<Rightarrow> 'o shutdown_result res option res" where
  "service_run ws polls =
     and_then (service_select ws task_set_new) (\<lambda>(selected, ts).
       case selected of
         None \<Rightarrow> Ok None
       | Some result \<Rightarrow>
           map_res (\<lambda>ts'. if task_set_is_empty ts' then Some result else None) (drain_tasks polls ts))"


section \<open>The process\<close>

definition run_result :: "unit res res shutdown_result res \<Rightarrow> unit res" where
  "run_result service_result =
     and_then (with_context ''Running service failed!'' service_result) (\<lambda>result.
       case result of
         Exited joined \<Rightarrow>
           and_then (with_context ''Failed to join task back to it's parent!'' joined) (\<lambda>r. r)
       | StopSignalReceived \<Rightarrow> Ok ())"

definition app_run ::
  "('s, unit) eff \<Rightarrow> ('s, 'cfg) eff \<Rightarrow> 'ctx res \<Rightarrow>
     ('cfg \<Rightarrow> 'ctx \<Rightarrow> 's \<Rightarrow> (unit res res shutdown_result res \<times> 's) option) \<Rightarrow> 's \<Rightarrow> (unit res \<times> 's) option" where
  "app_run log_init read_configuration creation_context run_service s =
     (case bind_eff (context_eff ''Failed to initialize logging!'' log_init) (\<lambda>_.
             bind_eff (context_eff ''Failed to read service configuration!'' read_configuration) (\<lambda>cfg.
             map_eff (Pair cfg)
               (lift_eff (with_context ''Failed to construct task creation context!'' creation_context)))) s of
        (Inl e, s1) \<Rightarrow> Some (Inl e, s1)
      | (Inr (cfg, ctx), s1) \<Rightarrow>
          map_option (\<lambda>(r, s2). (run_result r, s2)) (run_service cfg ctx s1))"

definition app_main ::
  "environment \<Rightarrow> (string \<Rightarrow> ('s, unit) eff) \<Rightarrow> ('s, 'cfg) eff \<Rightarrow> 'ctx res \<Rightarrow>
     ('cfg \<Rightarrow> 'ctx \<Rightarrow> 's \<Rightarrow> (unit res res shutdown_result res \<times> 's) option) \<Rightarrow> 's \<Rightarrow> (unit res \<times> 's) option" where
  "app_main env log_init read_configuration creation_context run_service s =
     (case with_context ''Failed to fetch log storing directory!'' (read_string env ''LOGS_DIRECTORY'') of
        Inl e \<Rightarrow> Some (Inl e, s)
      | Inr logs_directory \<Rightarrow>
          app_run (log_init logs_directory) read_configuration creation_context run_service s)"


section \<open>How the process ends\<close>

lemma supervise_fails:
  "supervise env next_event startup_tasks s = Some (out, s') \<Longrightarrow> \<not> is_ok out"
  by (auto simp: supervise_def split: prod.splits sum.splits option.splits)

text \<open>What the outer \<open>select!\<close> can yield: the signal handler's result or the supervisor's.\<close>

definition ended_by :: "('o, 'i, 'h, 'u) service_wakeup list \<Rightarrow> 'o shutdown_result res \<Rightarrow> bool" where
  "ended_by ws r \<longleftrightarrow>
     (\<exists>signal w. (Some signal, w) \<in> set ws \<and> r = map_res (\<lambda>_. StopSignalReceived) signal) \<or>
     (\<exists>x w result. (x, w) \<in> set ws \<and> supervisor_poll w = Some result \<and> r = Ok (Exited result))"

lemma ended_by_Cons: "ended_by ws r \<Longrightarrow> ended_by (w # ws) r"
  unfolding ended_by_def by (metis list.set_intros(2))

lemma ended_by_supervisor: "supervisor_poll w = Some result \<Longrightarrow> ended_by ((x, w) # ws) (Ok (Exited result))"
  unfolding ended_by_def by (metis list.set_intros(1))

lemma ended_by_signal: "ended_by ((Some signal, w) # ws) (map_res (\<lambda>_. StopSignalReceived) signal)"
  unfolding ended_by_def by (metis list.set_intros(1))

lemma await_supervisor_cases: "await_supervisor ws = Some r \<Longrightarrow> ended_by ws r"
  by (induction ws rule: await_supervisor.induct)
    (auto intro: ended_by_Cons ended_by_supervisor ended_by_signal split: option.splits)

lemma poll_tasks_not_exited: "poll_tasks w ts \<noteq> Ok (SupervisorExited result)"
  by (auto simp: poll_tasks_def eq_commute [of "SupervisorExited result"]
      split: poll.split_asm option.split_asm if_split_asm prod.split_asm)

lemma event_loop_turn_exited:
  "event_loop_turn w ts = Ok (SupervisorExited result) \<Longrightarrow> supervisor_poll w = Some result"
  by (auto simp: event_loop_turn_def poll_tasks_not_exited split: option.splits handle_recv.splits if_splits)

lemma service_select_cases: "service_select ws ts = Ok (Some r, ts') \<Longrightarrow> ended_by ws r"
proof (induction ws ts rule: service_select.induct)
  case (3 w ws ts)
  from "3.prems" obtain turn where turn: "event_loop_turn w ts = Ok turn" by auto
  show ?case
    by (cases turn) (use 3 turn in \<open>auto intro: ended_by_Cons await_supervisor_cases
        ended_by_supervisor dest: event_loop_turn_exited\<close>)
qed (auto intro: ended_by_signal)

text \<open>
  C33: the process exits successfully only after a stop signal: every other way the service
  can come to an end, an exit of the supervisor, a panic in it or a broken signal handler,
  makes the process fail.
\<close>

theorem run_succeeds_only_on_signal:
  assumes "\<forall>w \<in> snd ` set ws. \<forall>out. supervisor_poll w = Some (Ok out) \<longrightarrow>
      (\<exists>env next_event startup_tasks s s'.
        supervise (env :: ('a::linorder, 'chan, 'tok, 'task, 's) supervisor_env) next_event startup_tasks s =
          Some (out, s'))"
    and "\<forall>x \<in> fst ` set ws. \<exists>registered signals. x = signal_handler registered signals"
    and "service_run ws polls = Ok (Some r)" and "run_result r = Ok ()"
  shows "r = Ok StopSignalReceived \<and>
    (\<exists>registered signals. signal_handler registered signals \<in> fst ` set ws \<and> SignalReceived \<in> set signals)"
proof -
  from assms(3) obtain ts where "service_select ws task_set_new = Ok (Some r, ts)"
    by (auto simp: service_run_def split: option.splits if_splits)
  from service_select_cases [OF this] show ?thesis
    unfolding ended_by_def
  proof (elim disjE exE conjE)
    fix signal w
    assume w: "(Some signal, w) \<in> set ws" and r: "r = map_res (\<lambda>_. StopSignalReceived) signal"
    with assms(4) have signal: "signal = Ok ()" by (cases signal) (auto simp: run_result_def)
    from w have mem: "Some signal \<in> fst ` set ws" by (metis fst_conv image_eqI)
    with assms(2) obtain registered signals where "signal_handler registered signals = Some signal" by metis
    with mem signal signal_handler_Ok r show ?thesis by (metis map_res.simps(2))
  next
    fix x w result
    assume w: "(x, w) \<in> set ws" "supervisor_poll w = Some result" and r: "r = Ok (Exited result)"
    with assms(4) have "result = Ok (Ok ())" by (cases result) (auto simp: run_result_def)
    with w assms(1) obtain env :: "('a, 'chan, 'tok, 'task, 's) supervisor_env" and next_event startup_tasks s s'
      where "supervise env next_event startup_tasks s = Some (Ok (), s')" by force
    from supervise_fails [OF this] show ?thesis by simp
  qed
qed

definition example_wakeups :: "(unit res res, string, nat option, nat) service_wakeup list" where
  "example_wakeups =
     [(signal_handler [Ok (), Ok (), Ok ()] [SignalPending, SignalPending, SignalPending],
       \<lparr>supervisor_poll = None, task_handle_recv = RecvHandle ''a'' (Some 1), task_handle_rx_closed = False,
        poll_task = \<lambda>h. None, results_open = True\<rparr>),
      (signal_handler [Ok (), Ok (), Ok ()] [SignalPending, SignalPending, SignalReceived],
       \<lparr>supervisor_poll = None, task_handle_recv = RecvPending, task_handle_rx_closed = False,
        poll_task = \<lambda>h. None, results_open = True\<rparr>)]"

theorem run_succeeds_only_on_signal_witness:
  "service_run example_wakeups [\<lambda>h. h] = Ok (Some (Ok StopSignalReceived)) \<and>
    (\<exists>registered signals. signal_handler registered signals \<in> fst ` set example_wakeups \<and>
      SignalReceived \<in> set signals)"
proof -
  have run: "service_run example_wakeups [\<lambda>h. h] = Ok (Some (Ok StopSignalReceived))"
    by (simp add: service_run_def example_wakeups_def event_loop_turn_def drain_tasks.simps signal_handler_def
        task_set_is_empty_def join_next_def task_set_new_def add_handle_def swap_remove_def)
  have idle: "\<forall>w \<in> snd ` set example_wakeups. \<forall>out. supervisor_poll w = Some (Ok out) \<longrightarrow>
      (\<exists>env next_event startup_tasks s s'.
        supervise (env :: (nat, nat, nat, nat, nat) supervisor_env) next_event startup_tasks s = Some (out, s'))"
    by (simp add: example_wakeups_def)
  have signals: "\<forall>x \<in> fst ` set example_wakeups. \<exists>registered signals. x = signal_handler registered signals"
    by (auto simp: example_wakeups_def)
  have ok: "run_result (Ok StopSignalReceived) = Ok ()" by (simp add: run_result_def)
  from run_succeeds_only_on_signal [OF idle signals run ok] run show ?thesis by simp
qed

end
