(* ===== verification/Channels.thy ===== *)
theory Channels
  imports Service Supervisor
begin

text \<open>
  The two bounded channels between the event loop (\<open>chain-ops/src/service/mod.rs\<close>) and the
  supervisor (\<open>chain-ops/src/supervisor/mod.rs\<close>): task handles one way, task results the
  other.  Sending on a full channel waits, and either side handles one thing at a time, so
  each could be waiting for the other.  The model keeps what matters for that: how full the
  channels are, and what each side is in the middle of.
\<close>

section \<open>The two loops\<close>

record channels =
  results_queued :: nat    \<comment> \<open>results sent and not yet received by the supervisor\<close>
  handles_queued :: nat    \<comment> \<open>handles sent and not yet received by the event loop\<close>
  joined_tasks :: nat      \<comment> \<open>tasks in the event loop's task set\<close>
  delivering :: bool       \<comment> \<open>the event loop is sending a result\<close>
  spawning :: nat          \<comment> \<open>tasks the supervisor still has to start for the current event\<close>

datatype channel_action =
    TakeHandle | JoinTask | DeliverResult | ReceiveResult nat | OtherEvent nat | SendHandle

text \<open>
  Both \<open>select!\<close>s are biased: the event loop joins a task only when no handle is queued,
  the supervisor turns to commands and deferred restarts only when no result is queued.
  An event makes the supervisor start at most \<open>batch\<close> tasks.
\<close>

inductive channel_step :: "nat \<Rightarrow> channel_action \<Rightarrow> channels \<Rightarrow> channels \<Rightarrow> bool" for batch where
  take_handle: "\<not> delivering c \<Longrightarrow> 0 < handles_queued c \<Longrightarrow>
    channel_step batch TakeHandle c
      (c\<lparr>handles_queued := handles_queued c - 1, joined_tasks := joined_tasks c + 1\<rparr>)"
| join_task: "\<not> delivering c \<Longrightarrow> handles_queued c = 0 \<Longrightarrow> 0 < joined_tasks c \<Longrightarrow>
    channel_step batch JoinTask c (c\<lparr>joined_tasks := joined_tasks c - 1, delivering := True\<rparr>)"
| deliver_result: "delivering c \<Longrightarrow> results_queued c < bounded_channel_capacity \<Longrightarrow>
    channel_step batch DeliverResult c (c\<lparr>results_queued := results_queued c + 1, delivering := False\<rparr>)"
| receive_result: "spawning c = 0 \<Longrightarrow> 0 < results_queued c \<Longrightarrow> n \<le> batch \<Longrightarrow>
    channel_step batch (ReceiveResult n) c (c\<lparr>results_queued := results_queued c - 1, spawning := n\<rparr>)"
| other_event: "spawning c = 0 \<Longrightarrow> results_queued c = 0 \<Longrightarrow> n \<le> batch \<Longrightarrow>
    channel_step batch (OtherEvent n) c (c\<lparr>spawning := n\<rparr>)"
| send_handle: "0 < spawning c \<Longrightarrow> handles_queued c < bounded_channel_capacity \<Longrightarrow>
    channel_step batch SendHandle c (c\<lparr>handles_queued := handles_queued c + 1, spawning := spawning c - 1\<rparr>)"

text \<open>At first the supervisor is starting its initial tasks.\<close>

inductive channels_reachable :: "nat \<Rightarrow> channels \<Rightarrow> bool" for batch where
  start: "n \<le> batch \<Longrightarrow> channels_reachable batch
    \<lparr>results_queued = 0, handles_queued = 0, joined_tasks = 0, delivering = False, spawning = n\<rparr>"
| step: "channels_reachable batch c \<Longrightarrow> channel_step batch a c c' \<Longrightarrow> channels_reachable batch c'"

inductive_cases channel_step_elim: "channel_step batch a c c'"


section \<open>No deadlock\<close>

text \<open>
  While a result waits for a full channel, the supervisor has received none since the event
  loop found the channel of handles empty: all it can have sent is what one event started.
\<close>

definition channels_inv :: "nat \<Rightarrow> channels \<Rightarrow> bool" where
  "channels_inv batch c \<longleftrightarrow>
     results_queued c \<le> bounded_channel_capacity \<and> handles_queued c \<le> bounded_channel_capacity \<and>
     spawning c \<le> batch \<and>
     (delivering c \<longrightarrow> results_queued c = bounded_channel_capacity \<longrightarrow> handles_queued c + spawning c \<le> batch)"

lemma channel_step_inv: "channel_step batch a c c' \<Longrightarrow> channels_inv batch c \<Longrightarrow> channels_inv batch c'"
  by (erule channel_step_elim) (auto simp: channels_inv_def bounded_channel_capacity_def)

lemma channels_reachable_inv: "channels_reachable batch c \<Longrightarrow> channels_inv batch c"
  by (induction rule: channels_reachable.induct)
    (auto simp: channel_step_inv, simp add: channels_inv_def bounded_channel_capacity_def)

text \<open>
  Something that is under way can move: a handle or a result can be taken over, whatever the
  supervisor then has to do for the result.
\<close>

definition can_move :: "nat \<Rightarrow> channels \<Rightarrow> bool" where
  "can_move batch c \<longleftrightarrow>
     (\<exists>a \<in> {TakeHandle, DeliverResult, SendHandle}. \<exists>c'. channel_step batch a c c') \<or>
     (\<forall>n \<le> batch. \<exists>c'. channel_step batch (ReceiveResult n) c c')"

lemma can_moveI:
  assumes "channel_step batch a c c'" and "a \<in> {TakeHandle, DeliverResult, SendHandle}"
  shows "can_move batch c"
  using assms unfolding can_move_def by blast

lemma inv_can_move:
  assumes "channels_inv batch c" and "batch \<le> bounded_channel_capacity" and "delivering c \<or> 0 < spawning c"
  shows "can_move batch c"
proof -
  consider "delivering c" "results_queued c < bounded_channel_capacity"
    | "0 < spawning c" "handles_queued c < bounded_channel_capacity"
    | "\<not> delivering c" "0 < handles_queued c"
    | "spawning c = 0" "0 < results_queued c"
    using assms by (force simp: channels_inv_def bounded_channel_capacity_def)
  then show ?thesis
  proof cases
    case 4
    then show ?thesis unfolding can_move_def by (blast intro: channel_step.receive_result)
  qed (auto intro: can_moveI channel_step.intros)
qed

section \<open>How many tasks an event starts\<close>

text \<open>\<open>spawned\<close> counts the calls of the spawner.\<close>

definition counts_spawns :: "('a, 'chan, 'tok, 'task, 's) supervisor_env \<Rightarrow> ('s \<Rightarrow> nat) \<Rightarrow> bool" where
  "counts_spawns env spawned \<longleftrightarrow>
     (\<forall>i task st s. spawned (snd (spawn env i task st s)) = Suc (spawned s)) \<and>
     (\<forall>token s. spawned (drop_token env token s) = spawned s) \<and>
     (\<forall>s. spawned (snd (new_channel env s)) = spawned s) \<and>
     (\<forall>a tx s. spawned (snd (into_task env a tx s)) = spawned s) \<and>
     (\<forall>s r s'. recv_result env s = Some (r, s') \<longrightarrow> spawned s' = spawned s)"

lemma task_run_spawns:
  assumes "counts_spawns env spawned" and "task_run env task sv s = (r, sv', s')"
  shows "spawned s' = Suc (spawned s)"
proof -
  obtain q s1 where sp: "spawn env (task_identifier env task) task
      (if bt_get (task_states sv) (task_identifier env task) = None then New else Restart) s = (q, s1)"
    by fastforce
  have "spawned s1 = Suc (spawned s)" using assms(1) sp unfolding counts_spawns_def by (metis snd_conv)
  moreover have "spawned (drop_token env token s1) = spawned s1" for token
    using assms(1) unfolding counts_spawns_def by blast
  ultimately show ?thesis
    using assms(2) sp by (auto simp: task_run_def Let_def split: sum.splits option.splits)
qed

lemma create_task_spawns:
  assumes "counts_spawns env spawned" and "create_task env i sv s = (r, sv', s')"
  shows "spawned s' = spawned s"
  using assms unfolding create_task_def counts_spawns_def
  by (auto split: task_id.splits prod.splits) (metis snd_conv)+

lemma run_task_spawns:
  assumes "counts_spawns env spawned" and "run_task env i sv s = (r, sv', s')"
  shows "spawned s' \<le> spawned s + 1"
proof -
  obtain c sv1 s1 where c: "create_task env i sv s = (c, sv1, s1)"
    by (cases "create_task env i sv s") auto
  note count = create_task_spawns [OF assms(1) c]
  show ?thesis
  proof (cases c rule: panics.cases)
    case (3 task)
    with assms(2) c have "task_run env task sv1 s1 = (r, sv', s')" by (simp add: run_task_def)
    from task_run_spawns [OF assms(1) this] count show ?thesis by simp
  qed (use assms(2) c count in \<open>auto simp: run_task_def place_on_restart_queue_def split: option.splits\<close>)
qed

lemma run_tasks_spawns:
  assumes "counts_spawns env spawned"
  shows "run_tasks ctx env as sv s = (r, sv', s') \<Longrightarrow> spawned s' \<le> spawned s + length as"
proof (induction as arbitrary: sv s)
  case (Cons a as)
  obtain r1 sv1 s1 where run: "run_task env (IdApplicationDefined a) sv s = (r1, sv1, s1)"
    by (cases "run_task env (IdApplicationDefined a) sv s") auto
  note count = run_task_spawns [OF assms run]
  show ?case
  proof (cases r1)
    case (Inr u)
    with Cons.prems run have "run_tasks ctx env as sv1 s1 = (r, sv', s')" by simp
    from Cons.IH [OF this] count show ?thesis by simp
  qed (use Cons.prems run count in auto)
qed simp

lemma drop_states_spawns:
  "counts_spawns env spawned \<Longrightarrow> spawned (drop_states env states s) = spawned s"
  unfolding drop_states_def
  by (induction states arbitrary: s) (auto simp: counts_spawns_def)

lemma await_reports_spawns:
  assumes "counts_spawns env spawned"
  shows "await_reports env n s = Some (r, s') \<Longrightarrow> spawned s' = spawned s"
proof (induction n arbitrary: s)
  case (Suc n)
  from Suc.prems obtain q s1 where recv: "recv_result env s = Some (q, s1)"
    by (auto split: option.splits)
  have "spawned s1 = spawned s" using assms recv unfolding counts_spawns_def by blast
  with Suc recv show ?case by (auto split: option.splits task_id.splits)
qed simp

lemma handle_task_result_spawns:
  assumes "counts_spawns env spawned" and "handle_task_result env report sv s = Some (r, sv', s')"
  shows "spawned s' = spawned s"
  using assms
  by (auto simp: handle_task_result_def cancel_tasks_def Let_def drop_states_spawns
      dest: await_reports_spawns [OF assms(1)] split: task_id.splits)

lemma restart_exited_spawns:
  assumes "counts_spawns env spawned" and "restart_exited env i sv s = (r, sv', s')"
  shows "spawned s' \<le> spawned s + 1"
proof -
  have "spawned (drop_token env token s) = spawned s" for token
    using assms(1) unfolding counts_spawns_def by blast
  with assms(2) show ?thesis
    by (auto simp: restart_exited_def place_on_restart_queue_def dest: run_task_spawns [OF assms(1)]
        split: option.splits if_splits prod.splits)
qed

lemma supervisor_step_spawns:
  assumes "counts_spawns env spawned" and "supervisor_step env event sv s = Some (r, sv', s')"
    and "\<And>p. length (protocol_task_set_ids env p) \<le> batch" and "1 \<le> batch"
  shows "spawned s' \<le> spawned s + batch"
proof (cases event)
  case (TaskResultReceived report)
  with assms(2) obtain r1 sv1 s1 where result: "handle_task_result env report sv s = Some (r1, sv1, s1)"
    by (auto simp: supervisor_step_def handle_task_result_and_restart_def split: option.splits)
  note count = handle_task_result_spawns [OF assms(1) result]
  show ?thesis
  proof (cases r1)
    case (Inr u)
    with assms(2) TaskResultReceived result have "restart_exited env (fst report) sv1 s1 = (r, sv', s')"
      by (simp add: supervisor_step_def handle_task_result_and_restart_def)
    from restart_exited_spawns [OF assms(1) this] count assms(4) show ?thesis by simp
  qed (use assms(2) TaskResultReceived result count in
      \<open>simp add: supervisor_step_def handle_task_result_and_restart_def\<close>)
next
  case (CommandReceived command)
  show ?thesis
  proof (cases command)
    case (ProtocolAdded p)
    with CommandReceived assms(2) obtain q where
      "run_tasks None env (protocol_task_set_ids env p) sv s = (q, sv', s')"
      by (auto simp: supervisor_step_def handle_protocol_command_def split: prod.splits)
    from run_tasks_spawns [OF assms(1) this] assms(3) [of p] show ?thesis by simp
  qed (use CommandReceived assms(2) in
      \<open>auto simp: supervisor_step_def handle_protocol_command_def Let_def drop_states_spawns [OF assms(1)]\<close>)
next
  case RestartDue
  with assms(2) obtain i sv1 where "run_task env i sv1 s = (r, sv', s')"
    by (auto simp: supervisor_step_def split: option.splits)
  from run_task_spawns [OF assms(1) this] assms(4) show ?thesis by simp
qed (use assms(2) in \<open>simp add: supervisor_step_def\<close>)

lemma start_tasks_spawns:
  assumes "counts_spawns env spawned" and "start_tasks env c d as sv s = (r, sv', s')"
  shows "spawned s' \<le> spawned s + (3 + length as)"
  using assms(2)
  by (auto simp: start_tasks_def split: prod.splits sum.splits
      dest!: task_run_spawns [OF assms(1)] run_tasks_spawns [OF assms(1)])


definition example_counting :: "(nat, unit, unit, nat, nat) supervisor_env" where
  "example_counting =
     \<lparr>spawn = \<lambda>i t st s. (Ok (), Suc s), drop_token = \<lambda>_ s. s, new_channel = \<lambda>s. ((), s),
      into_task = \<lambda>a tx s. (Ok a, s), application_id = \<lambda>t. t, application_protocol = \<lambda>_. Some ''x'',
      protocol_task_set_ids = \<lambda>_. [1], instant_now = \<lambda>s. s, instant_checked_add = \<lambda>t d. Some (t + d),
      recv_result = \<lambda>s. None\<rparr>"


end
