(* ===== verification/Restart_Queue.thy ===== *)
theory Restart_Queue
  imports Supervisor
begin

text \<open>
  The supervisor's queue of deferred restarts (\<open>place_on_restart_queue\<close> and
  \<open>next_restart_task_future\<close> of \<open>chain-ops/src/supervisor/mod.rs\<close>) over time: how long an entry
  waits, and what becomes of the entries of protocols that come and go.  Entries are taken
  in the order they were placed, although their delays differ.
\<close>

section \<open>Runs of the supervisor in time\<close>

text \<open>
  The clock never goes back, whatever is called, and an instant is only given when it is
  representable.
\<close>

definition clocked :: "('a, 'chan, 'tok, 'task, 's) supervisor_env \<Rightarrow> bool" where
  "clocked env \<longleftrightarrow>
     (\<forall>i task st s. instant_now env s \<le> instant_now env (snd (spawn env i task st s))) \<and>
     (\<forall>token s. instant_now env s \<le> instant_now env (drop_token env token s)) \<and>
     (\<forall>s. instant_now env s \<le> instant_now env (snd (new_channel env s))) \<and>
     (\<forall>a tx s. instant_now env s \<le> instant_now env (snd (into_task env a tx s))) \<and>
     (\<forall>s r s'. recv_result env s = Some (r, s') \<longrightarrow> instant_now env s \<le> instant_now env s') \<and>
     (\<forall>t d r. instant_checked_add env t d = Some r \<longrightarrow> r = t + d)"

inductive supervisor_timed ::
  "('a::linorder, 'chan, 'tok, 'task, 's) supervisor_env \<Rightarrow> 'a list \<Rightarrow> ('a, 'chan, 'tok) supervisor \<Rightarrow> 's \<Rightarrow> bool"
  for env :: "('a::linorder, 'chan, 'tok, 'task, 's) supervisor_env" and as :: "'a list" where
  started: "supervisor_new env as s = (Ok sv, s') \<Longrightarrow> supervisor_timed env as sv s'"
| elapsed: "supervisor_timed env as sv s \<Longrightarrow> instant_now env s \<le> instant_now env s' \<Longrightarrow>
    supervisor_timed env as sv s'"
| step: "supervisor_timed env as sv s \<Longrightarrow> supervisor_step env event sv s = Some (Ok u, sv', s') \<Longrightarrow>
    supervisor_timed env as sv' s'"


section \<open>What the operations do to the queue\<close>

text \<open>When an entry was placed.\<close>

definition placed_at :: "nat \<times> 'a task_id \<Rightarrow> nat" where
  "placed_at e = fst e - restart_delay (snd e)"

text \<open>Between two instants entries were added at the end, in the order of their times.\<close>

definition entries_between :: "nat \<Rightarrow> nat \<Rightarrow> (nat \<times> 'a task_id) list \<Rightarrow> bool" where
  "entries_between t t' es \<longleftrightarrow> t \<le> t' \<and> sorted (map placed_at es) \<and>
     (\<forall>e \<in> set es. t \<le> placed_at e \<and> placed_at e \<le> t' \<and> fst e = placed_at e + restart_delay (snd e))"

definition queue_grows ::
  "('a, 'chan, 'tok, 'task, 's) supervisor_env \<Rightarrow> ('a, 'chan, 'tok) supervisor \<Rightarrow> 's \<Rightarrow>
     ('a, 'chan, 'tok) supervisor \<Rightarrow> 's \<Rightarrow> bool" where
  "queue_grows env sv s sv' s' \<longleftrightarrow>
     (\<exists>es. restart_queue sv' = restart_queue sv @ es \<and> entries_between (instant_now env s) (instant_now env s') es)"

lemma entries_between_append:
  assumes "entries_between t t' es" and "entries_between t' t'' es'"
  shows "entries_between t t'' (es @ es')"
  using assms by (fastforce simp: entries_between_def sorted_append)

lemma queue_grows_trans:
  "queue_grows env sv s sv' s' \<Longrightarrow> queue_grows env sv' s' sv'' s'' \<Longrightarrow> queue_grows env sv s sv'' s''"
  unfolding queue_grows_def by (metis append.assoc entries_between_append)

lemma queue_grows_same:
  "restart_queue sv' = restart_queue sv \<Longrightarrow> instant_now env s \<le> instant_now env s' \<Longrightarrow>
     queue_grows env sv s sv' s'"
  by (simp add: queue_grows_def entries_between_def)

lemma clocked_add: "clocked env \<Longrightarrow> instant_checked_add env t d = Some r \<Longrightarrow> r = t + d"
  by (simp add: clocked_def)

lemma place_on_restart_queue_grows:
  assumes "clocked env" and "place_on_restart_queue env i sv s = (r, sv', s')"
  shows "queue_grows env sv s sv' s'"
  using assms(2)
  by (auto simp: place_on_restart_queue_def queue_grows_def entries_between_def placed_at_def
      dest: clocked_add [OF assms(1)] split: option.splits)

lemma drop_states_clock:
  "clocked env \<Longrightarrow> instant_now env s \<le> instant_now env (drop_states env states s)"
proof -
  assume c: "clocked env"
  have "instant_now env s \<le> instant_now env (fold (\<lambda>(i, st). drop_token env (cancellation_token st)) states s)"
  proof (induction states arbitrary: s)
    case (Cons p states)
    obtain i st where p: "p = (i, st)" by fastforce
    have "instant_now env s \<le> instant_now env (drop_token env (cancellation_token st) s)"
      using c by (simp add: clocked_def)
    also note Cons.IH
    finally show ?case by (simp add: p)
  qed simp
  then show ?thesis by (simp add: drop_states_def)
qed

lemma task_run_grows:
  assumes "clocked env" and "task_run env task sv s = (r, sv', s')"
  shows "queue_grows env sv s sv' s'"
proof (rule queue_grows_same)
  show "restart_queue sv' = restart_queue sv" by (rule task_run_cases(1) [OF assms(2)])
  obtain q s1 where sp: "spawn env (task_identifier env task) task
      (if bt_get (task_states sv) (task_identifier env task) = None then New else Restart) s = (q, s1)"
    by fastforce
  have "instant_now env s \<le> instant_now env s1" using assms(1) sp unfolding clocked_def by (metis snd_conv)
  moreover have "instant_now env s1 \<le> instant_now env (drop_token env token s1)" for token
    using assms(1) unfolding clocked_def by blast
  ultimately show "instant_now env s \<le> instant_now env s'"
    using assms(2) sp
    by (auto simp: task_run_def Let_def intro: order_trans split: sum.splits option.splits)
qed

lemma create_task_grows:
  assumes "clocked env" and "create_task env i sv s = (r, sv', s')"
  shows "queue_grows env sv s sv' s'"
proof (rule queue_grows_same)
  show "restart_queue sv' = restart_queue sv" by (rule create_task_cases(2) [OF assms(2)])
  have "instant_now env s \<le> instant_now env (snd (new_channel env s))"
    "instant_now env s \<le> instant_now env (snd (into_task env a tx s))" for a tx
    using assms(1) unfolding clocked_def by blast+
  with assms(2) show "instant_now env s \<le> instant_now env s'"
    by (auto simp: create_task_def split: task_id.splits prod.splits) (metis snd_conv)
qed

lemma run_task_grows:
  assumes "clocked env" and "run_task env i sv s = (r, sv', s')"
  shows "queue_grows env sv s sv' s'"
proof -
  obtain c sv1 s1 where c: "create_task env i sv s = (c, sv1, s1)"
    by (cases "create_task env i sv s") auto
  note grows = create_task_grows [OF assms(1) c]
  have "queue_grows env sv1 s1 sv' s'"
  proof (cases c rule: panics.cases)
    case (2 ms)
    with assms(2) c have "place_on_restart_queue env i sv1 s1 = (r, sv', s')" by (simp add: run_task_def)
    then show ?thesis by (rule place_on_restart_queue_grows [OF assms(1)])
  next
    case (3 task)
    with assms(2) c have "task_run env task sv1 s1 = (r, sv', s')" by (simp add: run_task_def)
    then show ?thesis by (rule task_run_grows [OF assms(1)])
  qed (use assms(2) c in \<open>simp add: run_task_def queue_grows_same\<close>)
  with grows show ?thesis by (rule queue_grows_trans)
qed

lemma run_tasks_grows:
  assumes "clocked env"
  shows "run_tasks ctx env as sv s = (r, sv', s') \<Longrightarrow> queue_grows env sv s sv' s'"
proof (induction as arbitrary: sv s)
  case (Cons a as)
  obtain r1 sv1 s1 where run: "run_task env (IdApplicationDefined a) sv s = (r1, sv1, s1)"
    by (cases "run_task env (IdApplicationDefined a) sv s") auto
  note grows = run_task_grows [OF assms run]
  show ?case
  proof (cases r1)
    case (Inr u)
    with Cons.prems run have "run_tasks ctx env as sv1 s1 = (r, sv', s')" by simp
    with Cons.IH grows show ?thesis by (blast intro: queue_grows_trans)
  qed (use Cons.prems run grows in auto)
qed (simp add: queue_grows_same)

lemma await_reports_clock:
  assumes "clocked env"
  shows "await_reports env n s = Some (r, s') \<Longrightarrow> instant_now env s \<le> instant_now env s'"
proof (induction n arbitrary: s)
  case (Suc n)
  from Suc.prems obtain q s1 where recv: "recv_result env s = Some (q, s1)"
    by (auto split: option.splits)
  then have "instant_now env s \<le> instant_now env s1" using assms unfolding clocked_def by blast
  with Suc recv show ?case
    by (auto intro: order_trans split: option.splits task_id.splits)
qed simp

lemma handle_task_result_grows:
  assumes "clocked env" and "handle_task_result env report sv s = Some (r, sv', s')"
  shows "queue_grows env sv s sv' s'"
proof (cases "fst report")
  case IdBroadcast
  with assms(2) obtain r1 where
    await: "await_reports env (length (task_states sv)) (drop_states env (task_states sv) s) = Some (r1, s')"
    and sv': "sv' = sv\<lparr>task_states := []\<rparr>"
    by (auto simp: handle_task_result_def cancel_tasks_def Let_def)
  have "instant_now env s \<le> instant_now env s'"
    using drop_states_clock [OF assms(1)] await_reports_clock [OF assms(1) await] by (rule order_trans)
  with sv' show ?thesis by (simp add: queue_grows_same)
qed (use assms(2) in \<open>simp_all add: handle_task_result_def queue_grows_same\<close>)

lemma restart_exited_grows:
  assumes "clocked env" and "restart_exited env i sv s = (r, sv', s')"
  shows "queue_grows env sv s sv' s'"
proof (cases "bt_get (task_states sv) i")
  case (Some st)
  show ?thesis
  proof (cases "retry st \<ge> MAX_CONSEQUENT_RETRIES")
    case True
    let ?sv = "sv\<lparr>task_states := bt_remove i (task_states sv)\<rparr>"
    let ?s = "drop_token env (cancellation_token st) s"
    from assms(2) Some True obtain q where "place_on_restart_queue env i ?sv ?s = (q, sv', s')"
      by (auto simp: restart_exited_def split: prod.splits)
    from place_on_restart_queue_grows [OF assms(1) this] have "queue_grows env ?sv ?s sv' s'" .
    moreover have "queue_grows env sv s ?sv ?s"
      using assms(1) by (intro queue_grows_same) (simp_all add: clocked_def)
    ultimately show ?thesis by (blast intro: queue_grows_trans)
  next
    case False
    with assms(2) Some obtain q where "run_task env i sv s = (q, sv', s')"
      by (auto simp: restart_exited_def split: prod.splits)
    then show ?thesis by (rule run_task_grows [OF assms(1)])
  qed
qed (use assms(2) in \<open>simp add: restart_exited_def queue_grows_same\<close>)

lemma handle_protocol_command_grows:
  assumes "clocked env" and "handle_protocol_command env command sv s = (r, sv', s')"
  shows "queue_grows env sv s sv' s'"
  using assms(2) run_tasks_grows [OF assms(1)]
  by (cases command)
    (auto simp: handle_protocol_command_def Let_def intro!: queue_grows_same drop_states_clock [OF assms(1)])

text \<open>A step of the supervisor takes at most the first entry out, and only adds at the end.\<close>

lemma supervisor_step_grows:
  assumes "clocked env" and "supervisor_step env event sv s = Some (r, sv', s')"
  obtains sv1 where "queue_grows env sv1 s sv' s'"
    and "restart_queue sv1 = restart_queue sv \<or> restart_queue sv1 = tl (restart_queue sv)"
proof (cases event)
  case (TaskResultReceived report)
  with assms(2) obtain r1 sv1 s1 where result: "handle_task_result env report sv s = Some (r1, sv1, s1)"
    by (auto simp: supervisor_step_def handle_task_result_and_restart_def split: option.splits)
  note grows = handle_task_result_grows [OF assms(1) result]
  have "queue_grows env sv1 s1 sv' s'"
  proof (cases r1)
    case (Inr u)
    with assms(2) TaskResultReceived result have "restart_exited env (fst report) sv1 s1 = (r, sv', s')"
      by (simp add: supervisor_step_def handle_task_result_and_restart_def)
    then show ?thesis by (rule restart_exited_grows [OF assms(1)])
  qed (use assms(2) TaskResultReceived result in
      \<open>simp add: supervisor_step_def handle_task_result_and_restart_def queue_grows_same\<close>)
  with grows that show thesis by (blast intro: queue_grows_trans)
next
  case TaskResultsClosed
  with assms(2) have "sv' = sv" "s' = s" by (auto simp: supervisor_step_def)
  then show thesis by (intro that [of sv]) (simp_all add: queue_grows_same)
next
  case (CommandReceived command)
  with assms(2) obtain q where "handle_protocol_command env command sv s = (q, sv', s')"
    by (auto simp: supervisor_step_def split: prod.splits)
  from handle_protocol_command_grows [OF assms(1) this] that show thesis by blast
next
  case RestartDue
  with assms(2) obtain i sv1 where next': "next_restart_task env sv s = Some (i, sv1)"
    and run: "run_task env i sv1 s = (r, sv', s')"
    by (auto simp: supervisor_step_def split: option.splits)
  from next' have "restart_queue sv1 = tl (restart_queue sv)"
    by (auto simp: next_restart_task_def split: list.splits if_splits)
  with run_task_grows [OF assms(1) run] that show thesis by blast
qed


section \<open>How long an entry waits\<close>

definition queue_inv :: "('a, 'chan, 'tok, 'task, 's) supervisor_env \<Rightarrow> ('a, 'chan, 'tok) supervisor \<Rightarrow> 's \<Rightarrow> bool" where
  "queue_inv env sv s \<longleftrightarrow> entries_between 0 (instant_now env s) (restart_queue sv)"

lemma queue_grows_inv: "queue_inv env sv s \<Longrightarrow> queue_grows env sv s sv' s' \<Longrightarrow> queue_inv env sv' s'"
  unfolding queue_inv_def queue_grows_def by (auto intro: entries_between_append)

lemma queue_inv_tl:
  "queue_inv env sv s \<Longrightarrow> restart_queue sv1 = restart_queue sv \<or> restart_queue sv1 = tl (restart_queue sv) \<Longrightarrow>
     queue_inv env sv1 s"
  by (cases "restart_queue sv") (auto simp: queue_inv_def entries_between_def)

lemma start_tasks_grows:
  assumes "clocked env" and "start_tasks env c d as sv s = (r, sv', s')"
  shows "queue_grows env sv s sv' s'"
proof -
  obtain r1 sv1 s1 where 1: "task_run env TaskBalanceReporter sv s = (r1, sv1, s1)"
    by (cases "task_run env TaskBalanceReporter sv s") auto
  obtain r2 sv2 s2 where 2: "task_run env (TaskBroadcast c) sv1 s1 = (r2, sv2, s2)"
    by (cases "task_run env (TaskBroadcast c) sv1 s1") auto
  let ?w = "TaskProtocolWatcher (protocol_watcher_new (application_protocol env) (task_states sv2)) d"
  obtain r3 sv3 s3 where 3: "task_run env ?w sv2 s2 = (r3, sv3, s3)"
    by (cases "task_run env ?w sv2 s2") auto
  note grows = task_run_grows [OF assms(1)]
  have "queue_grows env sv s sv2 s2" using grows [OF 1] grows [OF 2] by (rule queue_grows_trans)
  moreover from this grows [OF 3] have "queue_grows env sv s sv3 s3" by (rule queue_grows_trans)
  ultimately show ?thesis
    using assms(2) 1 2 3 grows [OF 1]
    by (auto simp: start_tasks_def dest: run_tasks_grows [OF assms(1)] intro: queue_grows_trans split: sum.splits)
qed

lemma supervisor_timed_inv:
  assumes "clocked env"
  shows "supervisor_timed env as sv s \<Longrightarrow> queue_inv env sv s"
proof (induction rule: supervisor_timed.induct)
  case (started s sv s')
  then obtain c d s1 where start: "start_tasks env c d as
      \<lparr>task_states = [], restart_queue = [], transaction_tx = c, protocol_watcher_rx = d\<rparr> s1 = (Ok (), sv, s')"
    by (auto simp: supervisor_new_def split: prod.splits sum.splits)
  show ?case
    by (rule queue_grows_inv [OF _ start_tasks_grows [OF assms start]])
      (simp add: queue_inv_def entries_between_def)
next
  case (elapsed sv s s')
  then show ?case by (fastforce simp: queue_inv_def entries_between_def)
next
  case (step sv s event u sv' s')
  from supervisor_step_grows [OF assms step(2)] obtain sv1 where "queue_grows env sv1 s sv' s'"
    "restart_queue sv1 = restart_queue sv \<or> restart_queue sv1 = tl (restart_queue sv)" .
  with step.IH show ?case by (blast intro: queue_grows_inv queue_inv_tl)
qed

text \<open>
  C17: no deferred restart is starved: once 180 seconds have passed since an entry was placed
  (its own delay and up to 170 seconds more for a built-in task, nothing more for an
  application-defined one), the first entry of the queue is due, so that the supervisor
  takes one entry after the other until this one is served.
\<close>

theorem restart_wait_bounded:
  assumes "clocked env" and "supervisor_timed env as sv s" and "(t, i) \<in> set (restart_queue sv)"
    and "t + (180 * 10 ^ 9 - restart_delay i) \<le> instant_now env s"
  shows "\<exists>j sv'. next_restart_task env sv s = Some (j, sv') \<and> restart_queue sv' = tl (restart_queue sv)"
proof -
  have inv: "entries_between 0 (instant_now env s) (restart_queue sv)"
    using supervisor_timed_inv [OF assms(1,2)] by (simp add: queue_inv_def)
  obtain t0 j queue where q: "restart_queue sv = (t0, j) # queue"
    using assms(3) by (cases "restart_queue sv") auto
  have "placed_at (t0, j) \<le> placed_at (t, i)"
    using inv assms(3) q by (auto simp: entries_between_def)
  moreover have "t0 = placed_at (t0, j) + restart_delay j" "t = placed_at (t, i) + restart_delay i"
    using inv assms(3) q by (fastforce simp: entries_between_def)+
  moreover have "restart_delay j \<le> 180 * 10 ^ 9" "restart_delay i \<le> 180 * 10 ^ 9"
    by (simp_all add: restart_delay_def split: task_id.split)
  ultimately have "t0 \<le> instant_now env s" using assms(4) by linarith
  with q show ?thesis by (simp add: next_restart_task_def)
qed

section \<open>A deferred watcher in the small world\<close>

lemma example_clocked: "clocked example_sup_env"
  by (auto simp: clocked_def example_sup_env_def split: option.splits list.splits)

lemma example_starts: "starts_succeed example_sup_env"
  by (simp add: starts_succeed_def example_sup_env_def)

lemma timed_exit:
  assumes "supervisor_timed env as sv s"
    and "handle_task_result_and_restart env (i, outcome) sv s = Some (Ok u, sv', s')"
  shows "supervisor_timed env as sv' s'"
  using assms(1) by (rule supervisor_timed.step [of _ _ _ _ "TaskResultReceived (i, outcome)"])
    (simp add: supervisor_step_def assms(2))

lemma exit_restarts_again:
  assumes "starts_succeed env" and "i \<noteq> IdBroadcast"
    and "bt_get (task_states sv) i = Some st" and "retry st < MAX_CONSEQUENT_RETRIES"
  shows "\<exists>sv' s' st'. handle_task_result_and_restart env (i, outcome) sv s = Some (Ok (), sv', s') \<and>
    bt_get (task_states sv') i = Some st' \<and> retry st' = saturating_add (retry st) 1 \<and>
    restart_queue sv' = restart_queue sv"
  by (rule exit_restarts [OF assms, of outcome s]) simp

lemma example_deferred:
  obtains sv s t where "supervisor_timed example_sup_env [] sv s"
    and "restart_queue sv = [(t + restart_delay (IdProtocolWatcher :: nat task_id), IdProtocolWatcher)]"
proof -
  let ?w = "IdProtocolWatcher :: nat task_id" and ?r = "handle_task_result_and_restart example_sup_env"
  have w: "?w \<noteq> IdBroadcast" by simp
  note start = supervisor_timed.started [OF example_started]
  have e0: "bt_get (task_states example_supervisor) ?w = Some (state_new 4)" "restart_queue example_supervisor = []"
    "retry (state_new (4 :: nat)) < MAX_CONSEQUENT_RETRIES"
    by (simp_all add: example_supervisor_def state_new_def MAX_CONSEQUENT_RETRIES_def)
  obtain sv1 s1 st1 where 1: "?r (?w, TaskPanicked) example_supervisor
        (5, [(4, IdProtocolWatcher), (3, IdBroadcast), (2, IdBalanceReporter)], []) = Some (Ok (), sv1, s1)"
      "bt_get (task_states sv1) ?w = Some st1" "retry st1 = 1" "restart_queue sv1 = []"
    using exit_restarts_again [OF example_starts w e0(1,3), of TaskPanicked
        "(5, [(4, IdProtocolWatcher), (3, IdBroadcast), (2, IdBalanceReporter)], [])"] e0(2)
    by (auto simp: state_new_def int_ops)
  have "retry st1 < MAX_CONSEQUENT_RETRIES" using 1(3) by (simp add: MAX_CONSEQUENT_RETRIES_def)
  with 1(3,4) obtain sv2 s2 st2 where 2: "?r (?w, TaskPanicked) sv1 s1 = Some (Ok (), sv2, s2)"
      "bt_get (task_states sv2) ?w = Some st2" "retry st2 = 2" "restart_queue sv2 = []"
    using exit_restarts_again [OF example_starts w 1(2), of TaskPanicked s1] by (auto simp: int_ops)
  have "MAX_CONSEQUENT_RETRIES \<le> retry st2" using 2(3) by (simp add: MAX_CONSEQUENT_RETRIES_def)
  from exit_defers [OF example_starts w 2(2) this, of TaskPanicked s2] obtain sv3 s3 t where
    3: "?r (?w, TaskPanicked) sv2 s2 = Some (Ok (), sv3, s3)"
      "restart_queue sv3 = restart_queue sv2 @ [(t + restart_delay ?w, ?w)]" by metis
  note 3(2) [unfolded 2(4) append_Nil]
  from that [OF timed_exit [OF timed_exit [OF timed_exit [OF start 1(1)] 2(1)] 3(1)] this] show thesis .
qed

theorem restart_wait_bounded_witness:
  "\<exists>sv s j sv'. supervisor_timed example_sup_env [] sv s \<and> next_restart_task example_sup_env sv s = Some (j, sv')"
proof -
  obtain sv s t where timed: "supervisor_timed example_sup_env [] sv s"
    and q: "restart_queue sv = [(t + restart_delay (IdProtocolWatcher :: nat task_id), IdProtocolWatcher)]"
    by (rule example_deferred)
  define s' :: "nat \<times> (nat \<times> nat task_id) list \<times> nat task_report list"
    where "s' = (t + 180 * 10 ^ 9 + instant_now example_sup_env s, [], [])"
  have now: "instant_now example_sup_env s' = t + 180 * 10 ^ 9 + instant_now example_sup_env s"
    by (simp add: s'_def example_sup_env_def)
  have timed': "supervisor_timed example_sup_env [] sv s'"
    using timed by (rule supervisor_timed.elapsed) (simp add: now)
  have "(t + restart_delay (IdProtocolWatcher :: nat task_id), IdProtocolWatcher) \<in> set (restart_queue sv)"
    "t + restart_delay (IdProtocolWatcher :: nat task_id) + (180 * 10 ^ 9 - restart_delay (IdProtocolWatcher :: nat task_id))
      \<le> instant_now example_sup_env s'"
    by (simp_all add: q now restart_delay_def)
  from restart_wait_bounded [OF example_clocked timed' this] timed' show ?thesis by blast
qed


section \<open>Entries that wait too long, or should not be there\<close>

text \<open>
  The bound is needed: a built-in task is due ten seconds after it was placed, but nothing
  is taken from the queue as long as an application-defined task is at its head and its
  three minutes have not passed.
\<close>

lemma built_in_waits_behind_application:
  assumes "clocked env" and "restart_queue sv = []"
    and "place_on_restart_queue env (IdApplicationDefined a) sv s = (Ok u, sv1, s1)"
    and "place_on_restart_queue env IdProtocolWatcher sv1 s2 = (Ok v, sv2, s3)"
    and "instant_now env s4 < instant_now env s + 180 * 10 ^ 9"
  shows "(instant_now env s2 + 10 * 10 ^ 9, IdProtocolWatcher) \<in> set (restart_queue sv2) \<and>
    next_restart_task env sv2 s4 = None"
  using assms(2-5)
  by (auto simp: place_on_restart_queue_def next_restart_task_def restart_delay_def
      dest: clocked_add [OF assms(1)] split: option.splits)

text \<open>
  Removing a protocol leaves its entries in the queue: a task of a protocol that is gone is
  started when its entry is due.
\<close>

lemma run_task_starts:
  assumes "starts_succeed env"
  obtains sv' s' where "run_task env i sv s = (Ok (), sv', s')" and "bt_get (task_states sv') i \<noteq> None"
    and "restart_queue sv' = restart_queue sv"
proof -
  obtain task sv1 s1 where c: "create_task env i sv s = (Ok task, sv1, s1)"
      "task_identifier env task = i" "task_states sv1 = task_states sv" "restart_queue sv1 = restart_queue sv"
    by (rule create_task_succeeds [OF assms(1)])
  from assms(1) obtain token s2 where
    "spawn env i task (if bt_get (task_states sv) i = None then New else Restart) s1 = (Ok token, s2)"
    unfolding starts_succeed_def by blast
  with c that show thesis
    by (cases "bt_get (task_states sv) i") (auto simp: run_task_def task_run_def Let_def bt_get_insert)
qed

lemma removed_protocol_restarts:
  assumes "starts_succeed env"
    and "application_protocol env a = Some p" and "restart_queue sv = (t, IdApplicationDefined a) # queue"
    and "handle_protocol_command env (ProtocolRemoved p) sv s = (r, sv1, s1)" and "t \<le> instant_now env s2"
  shows "\<exists>sv2 s3. supervisor_step env RestartDue sv1 s2 = Some (Ok (), sv2, s3) \<and>
    bt_get (task_states sv2) (IdApplicationDefined a) \<noteq> None"
proof -
  have queue: "restart_queue sv1 = restart_queue sv"
    using assms(4) by (auto simp: handle_protocol_command_def Let_def)
  obtain sv2 s3 where "run_task env (IdApplicationDefined a) (sv1\<lparr>restart_queue := queue\<rparr>) s2 = (Ok (), sv2, s3)"
    "bt_get (task_states sv2) (IdApplicationDefined a) \<noteq> None"
    by (rule run_task_starts [OF assms(1)])
  with queue assms(3,5) show ?thesis by (simp add: supervisor_step_def next_restart_task_def)
qed

text \<open>
  A watcher that is restarted while all tasks of a registered protocol wait in the queue
  reports the protocol as new, and its task is then both running and waiting.
\<close>

lemma deferred_protocol_added_again:
  assumes "starts_succeed env"
    and "\<forall>i \<in> fst ` set (task_states sv). id_protocol (application_protocol env) i \<noteq> Some p"
    and "p \<in> set active" and "protocol_task_set_ids env p = [a]"
    and "(t, IdApplicationDefined a) \<in> set (restart_queue sv)"
    and "handle_protocol_command env (ProtocolAdded p) sv s = (r, sv1, s1)"
  shows "ProtocolAdded p \<in> set (protocols_diff_commands
      (protocol_watcher_new (application_protocol env) (task_states sv)) (bs_collect active))"
    and "bt_get (task_states sv1) (IdApplicationDefined a) \<noteq> None"
    and "(t, IdApplicationDefined a) \<in> set (restart_queue sv1)"
proof -
  show "ProtocolAdded p \<in> set (protocols_diff_commands
      (protocol_watcher_new (application_protocol env) (task_states sv)) (bs_collect active))"
  proof -
    have "p \<notin> set (protocol_watcher_new (application_protocol env) (task_states sv))"
      using assms(2) by (force simp: protocol_watcher_new_def map_filter_def)
    with assms(3) show ?thesis by (simp add: protocols_diff_commands_def)
  qed
  obtain sv' s' where "run_task env (IdApplicationDefined a) sv s = (Ok (), sv', s')"
      "bt_get (task_states sv') (IdApplicationDefined a) \<noteq> None" "restart_queue sv' = restart_queue sv"
    by (rule run_task_starts [OF assms(1)])
  with assms(4,6) have "sv' = sv1" by (simp add: handle_protocol_command_def)
  with \<open>bt_get (task_states sv') _ \<noteq> None\<close> \<open>restart_queue sv' = _\<close> assms(5)
  show "bt_get (task_states sv1) (IdApplicationDefined a) \<noteq> None"
    and "(t, IdApplicationDefined a) \<in> set (restart_queue sv1)" by simp_all
qed

text \<open>
  C19: a task that was started while an entry for it still waits in the queue does not survive
  that entry: when it is due, the healthy run is replaced, and the reports of the runs
  cancelled by the replacements are taken for failures, until the task is stopped and its
  restart deferred once more.
\<close>

theorem duplicate_entry_stops_task:
  assumes "starts_succeed env" and "i \<noteq> IdBroadcast"
    and "bt_get (task_states sv) i = Some (state_new token)"
    and "restart_queue sv = (t, i) # queue" and "t \<le> instant_now env s"
  shows "\<exists>sv1 s1. supervisor_step env RestartDue sv s = Some (Ok (), sv1, s1) \<and>
    bt_get (task_states sv1) i \<noteq> None \<and>
    (\<forall>s2. \<exists>sv3 s3 t'. handle_reports env [(i, TaskCancelled), (i, TaskCancelled)] sv1 s2 = Some (Ok (), sv3, s3) \<and>
      bt_get (task_states sv3) i = None \<and> restart_queue sv3 = queue @ [(t' + restart_delay i, i)])"
proof -
  let ?sv = "sv\<lparr>restart_queue := queue\<rparr>"
  have "bt_get (task_states ?sv) i = Some (state_new token)" using assms(3) by simp
  from run_task_restarts [OF assms(1) this, of s] obtain token1 sv1 s1 where
    run: "run_task env i ?sv s = (Ok (), sv1, s1)"
    and st1: "task_states sv1 = bt_insert i (replace_and_increment (state_new token) token1) (task_states ?sv)"
    and q1: "restart_queue sv1 = restart_queue ?sv" .
  have step: "supervisor_step env RestartDue sv s = Some (Ok (), sv1, s1)"
    using assms(4,5) by (simp add: supervisor_step_def next_restart_task_def run)
  let ?st = "replace_and_increment (state_new token) token1"
  have e1: "bt_get (task_states sv1) i = Some ?st" by (simp add: st1 bt_get_insert)
  have r1: "retry ?st = 1" by (simp add: replace_and_increment_def state_new_def int_ops)
  have "\<exists>sv3 s3 t'. handle_reports env [(i, TaskCancelled), (i, TaskCancelled)] sv1 s2 = Some (Ok (), sv3, s3) \<and>
      bt_get (task_states sv3) i = None \<and> restart_queue sv3 = queue @ [(t' + restart_delay i, i)]" for s2
  proof -
    have "retry ?st < MAX_CONSEQUENT_RETRIES" by (simp add: r1 MAX_CONSEQUENT_RETRIES_def)
    from exit_restarts_again [OF assms(1,2) e1 this, of TaskCancelled s2] obtain sv2 s2' st2 where
      2: "handle_task_result_and_restart env (i, TaskCancelled) sv1 s2 = Some (Ok (), sv2, s2')"
        "bt_get (task_states sv2) i = Some st2" "retry st2 = saturating_add (retry ?st) 1"
        "restart_queue sv2 = queue"
      by (auto simp: q1)
    have "MAX_CONSEQUENT_RETRIES \<le> retry st2" by (simp add: 2(3) r1 MAX_CONSEQUENT_RETRIES_def int_ops)
    from exit_defers [OF assms(1,2) 2(2) this, of TaskCancelled s2'] obtain sv3 s3 t' where
      "handle_task_result_and_restart env (i, TaskCancelled) sv2 s2' = Some (Ok (), sv3, s3)"
      "bt_get (task_states sv3) = (bt_get (task_states sv2))(i := None)"
      "restart_queue sv3 = restart_queue sv2 @ [(t' + restart_delay i, i)]" by blast
    with 2 show ?thesis by simp
  qed
  with step e1 show ?thesis by auto
qed

definition example_duplicate :: "(nat, nat, nat) supervisor" where
  "example_duplicate =
     \<lparr>task_states = [(IdApplicationDefined 1, state_new 5)], restart_queue = [(10, IdApplicationDefined 1)],
      transaction_tx = 0, protocol_watcher_rx = 1\<rparr>"

theorem duplicate_entry_stops_task_witness:
  "\<exists>sv1 s1. supervisor_step example_sup_env RestartDue example_duplicate (20, [(5, IdApplicationDefined 1)], []) =
      Some (Ok (), sv1, s1) \<and> bt_get (task_states sv1) (IdApplicationDefined 1) \<noteq> None"
proof -
  have "bt_get (task_states example_duplicate) (IdApplicationDefined 1) = Some (state_new 5)"
    "restart_queue example_duplicate = (10, IdApplicationDefined 1) # []"
    "10 \<le> instant_now example_sup_env (20, [(5, IdApplicationDefined 1)], [])"
    by (simp_all add: example_duplicate_def example_sup_env_def)
  from duplicate_entry_stops_task [OF example_starts _ this] show ?thesis by fastforce
qed

end
