(* ===== verification/Log.thy ===== *)
theory Log
  imports Env
begin

text \<open>
  \<open>chain-ops/src/log.rs\<close>: the choice of the log format and the writer that splits the log
  into one file per hour.  The file system and the clock are parameters over a state
  \<open>'s\<close>; a path is the list of its segments.  The subscriber that formats the lines is
  third-party code and is not modelled.
\<close>

section \<open>Choosing the format\<close>

datatype var_error = VarNotPresent | VarNotUnicode

definition output_json :: "string + var_error \<Rightarrow> bool res" where
  "output_json variable =
     (case variable of
        Inl text \<Rightarrow> Ok (text \<in> set [''1'', ''Y'', ''y'', ''yes'', ''true''])
      | Inr VarNotPresent \<Rightarrow> Ok False
      | Inr VarNotUnicode \<Rightarrow>
          Err [''Failed to determine whether logging should be in machine-readable JSON format!'',
               ''environment variable was not valid unicode''])"

definition log_init :: "string + var_error \<Rightarrow> (bool \<Rightarrow> 'path \<Rightarrow> ('s, unit) eff) \<Rightarrow> 'path \<Rightarrow> ('s, unit) eff" where
  "log_init variable try_init logs_directory =
     bind_eff (lift_eff (output_json variable)) (\<lambda>json.
       context_eff ''Failed to initialize logging!'' (try_init json logs_directory))"


section \<open>The writer\<close>

record date_and_hour =
  date_hour :: u32
  date_day :: u32
  date_month :: u32
  date_year :: "32 word"

type_synonym path = "string list"

record 'f segmented_writer =
  directory_path :: path
  log_file :: "(date_and_hour \<times> 'f) option"

record ('f, 's) file_system =
  utc_now :: "'s \<Rightarrow> date_and_hour"
  path_exists :: "path \<Rightarrow> 's \<Rightarrow> bool"
  create_dir :: "path \<Rightarrow> ('s, unit) eff"
  open_append :: "path \<Rightarrow> ('s, 'f) eff"
  file_write :: "'f \<Rightarrow> string \<Rightarrow> ('s, nat) eff"
  file_flush :: "'f \<Rightarrow> ('s, unit) eff"

definition make_writer :: "path \<Rightarrow> 'f segmented_writer" where
  "make_writer directory = \<lparr>directory_path = directory, log_file = None\<rparr>"

text \<open>The year is a signed integer; \<open>{:0>2}\<close> pads on the left to two characters.\<close>

definition signed_to_string :: "int \<Rightarrow> string" where
  "signed_to_string n = (if n < 0 then CHR ''-'' # to_dec (nat (- n)) else to_dec (nat n))"

definition pad_two :: "string \<Rightarrow> string" where
  "pad_two text = replicate (2 - length text) (CHR ''0'') @ text"

definition directory_segments :: "date_and_hour \<Rightarrow> string list" where
  "directory_segments d =
     [''year-'' @ pad_two (signed_to_string (sint (date_year d))),
      ''month-'' @ pad_two (to_dec (unat (date_month d))),
      ''day-'' @ pad_two (to_dec (unat (date_day d)))]"

definition file_segment :: "date_and_hour \<Rightarrow> string" where
  "file_segment d = ''hour-'' @ pad_two (to_dec (unat (date_hour d))) @ ''.log''"

fun create_segments :: "('f, 's) file_system \<Rightarrow> path \<Rightarrow> string list \<Rightarrow> ('s, path) eff" where
  "create_segments fs file_path [] s = (Ok file_path, s)"
| "create_segments fs file_path (segment # segments) s =
     (let file_path' = file_path @ [segment] in
      if path_exists fs file_path' s then create_segments fs file_path' segments s
      else (case create_dir fs file_path' s of
          (Inl e, s') \<Rightarrow> (Inl e, s')
        | (Inr _, s') \<Rightarrow> create_segments fs file_path' segments s'))"

definition open_file ::
  "('f, 's) file_system \<Rightarrow> date_and_hour \<Rightarrow> 'f segmented_writer \<Rightarrow> 's \<Rightarrow> 'f res \<times> 'f segmented_writer \<times> 's" where
  "open_file fs d w s =
     (case create_segments fs (directory_path w) (directory_segments d) s of
        (Inl e, s1) \<Rightarrow> (Inl e, w, s1)
      | (Inr file_path, s1) \<Rightarrow>
          (case open_append fs (file_path @ [file_segment d]) s1 of
             (Inl e, s2) \<Rightarrow> (Inl e, w, s2)
           | (Inr file, s2) \<Rightarrow> (Ok file, w\<lparr>log_file := Some (d, file)\<rparr>, s2)))"

definition writer_write ::
  "('f, 's) file_system \<Rightarrow> string \<Rightarrow> 'f segmented_writer \<Rightarrow> 's \<Rightarrow> nat res \<times> 'f segmented_writer \<times> 's" where
  "writer_write fs buf w s =
     (let now = utc_now fs s in
      case (case log_file w of
              Some (d, file) \<Rightarrow>
                if d = now then (Ok file, w, s) else open_file fs now (w\<lparr>log_file := None\<rparr>) s
            | None \<Rightarrow> open_file fs now (w\<lparr>log_file := None\<rparr>) s) of
        (Inl e, w', s') \<Rightarrow> (Inl e, w', s')
      | (Inr file, w', s') \<Rightarrow> (case file_write fs file buf s' of (r, s'') \<Rightarrow> (r, w', s'')))"

definition writer_flush :: "('f, 's) file_system \<Rightarrow> 'f segmented_writer \<Rightarrow> ('s, unit) eff" where
  "writer_flush fs w s =
     (case log_file w of None \<Rightarrow> (Ok (), s) | Some (d, file) \<Rightarrow> file_flush fs file s)"


section \<open>One file per hour\<close>

text \<open>The writers that a factory's writer can become.\<close>

inductive writer_reachable :: "('f, 's) file_system \<Rightarrow> path \<Rightarrow> 'f segmented_writer \<Rightarrow> bool"
  for fs directory where
  fresh: "writer_reachable fs directory (make_writer directory)"
| wrote: "writer_reachable fs directory w \<Longrightarrow> writer_write fs buf w s = (r, w', s') \<Longrightarrow>
    writer_reachable fs directory w'"

definition log_path :: "path \<Rightarrow> date_and_hour \<Rightarrow> path" where
  "log_path directory d = directory @ directory_segments d @ [file_segment d]"

definition writer_wf :: "('f \<Rightarrow> path) \<Rightarrow> path \<Rightarrow> 'f segmented_writer \<Rightarrow> bool" where
  "writer_wf path_of directory w \<longleftrightarrow>
     directory_path w = directory \<and>
     (case log_file w of None \<Rightarrow> True | Some (d, file) \<Rightarrow> path_of file = log_path directory d)"

text \<open>\<open>path_of\<close> tells under which path a file was opened.\<close>

definition opens_at :: "('f, 's) file_system \<Rightarrow> ('f \<Rightarrow> path) \<Rightarrow> bool" where
  "opens_at fs path_of \<longleftrightarrow> (\<forall>p s f s'. open_append fs p s = (Ok f, s') \<longrightarrow> path_of f = p)"

lemma create_segments_path:
  "create_segments fs file_path segments s = (Ok p, s') \<Longrightarrow> p = file_path @ segments"
  by (induction fs file_path segments s rule: create_segments.induct)
    (auto simp: Let_def split: if_splits prod.splits sum.splits)

lemma open_file_wf:
  assumes "opens_at fs path_of"
    and "writer_wf path_of directory w" and "open_file fs d w s = (r, w', s')"
  shows "writer_wf path_of directory w' \<and>
    (\<forall>file. r = Ok file \<longrightarrow> log_file w' = Some (d, file) \<and> path_of file = log_path directory d)"
proof -
  have opened: "path_of f = p" if "open_append fs p s = (Ok f, s')" for p s f s'
    using that assms(1) unfolding opens_at_def by blast
  from assms(2,3) show ?thesis
    by (auto simp: open_file_def writer_wf_def log_path_def
        split: prod.splits sum.splits option.splits dest!: create_segments_path dest: opened)
qed

text \<open>The two cases of a write: the file at hand, or a newly opened one.\<close>

lemma writer_write_cases:
  assumes "opens_at fs path_of"
    and "writer_wf path_of directory w" and "writer_write fs buf w s = (r, w', s')"
  shows "writer_wf path_of directory w' \<and>
    (is_ok r \<longrightarrow> (\<exists>file s1. log_file w' = Some (utc_now fs s, file) \<and>
      path_of file = log_path directory (utc_now fs s) \<and> file_write fs file buf s1 = (r, s')))"
proof -
  let ?now = "utc_now fs s"
  obtain q w1 s1 where at: "(case log_file w of
      Some (d, file) \<Rightarrow> if d = ?now then (Ok file, w, s) else open_file fs ?now (w\<lparr>log_file := None\<rparr>) s
    | None \<Rightarrow> open_file fs ?now (w\<lparr>log_file := None\<rparr>) s) = (q, w1, s1)" by (metis prod_cases3)
  have wf0: "writer_wf path_of directory (w\<lparr>log_file := None\<rparr>)" using assms(2) by (simp add: writer_wf_def)
  from at consider f where "log_file w = Some (?now, f)" "(q, w1, s1) = (Ok f, w, s)"
    | "open_file fs ?now (w\<lparr>log_file := None\<rparr>) s = (q, w1, s1)"
    by (cases "log_file w"; cases "the (log_file w)"; cases "fst (the (log_file w)) = ?now") simp_all
  then have "writer_wf path_of directory w1 \<and>
      (\<forall>file. q = Ok file \<longrightarrow> log_file w1 = Some (?now, file) \<and> path_of file = log_path directory ?now)"
  proof cases
    case 2
    from open_file_wf [OF assms(1) wf0 this] show ?thesis .
  qed (use assms(2) in \<open>simp add: writer_wf_def\<close>)
  with assms(3) at show ?thesis
    by (auto simp: writer_write_def Let_def split: sum.splits prod.splits)
qed

lemma writer_reachable_wf:
  assumes "opens_at fs path_of"
  shows "writer_reachable fs directory w \<Longrightarrow> writer_wf path_of directory w"
proof (induction rule: writer_reachable.induct)
  case (wrote w buf s r w' s')
  from writer_write_cases [OF assms wrote.IH wrote.hyps(2)] show ?case by blast
qed (simp add: writer_wf_def make_writer_def)


section \<open>Distinct hours have distinct files\<close>

lemma dec_val_pad_two: "dec_val (pad_two text) = dec_val text"
  by (simp add: pad_two_def)

lemma pad_to_dec_inject [simp]: "pad_two (to_dec m) = pad_two (to_dec n) \<longleftrightarrow> m = n"
  by (metis dec_val_pad_two dec_val_to_dec)

lemma minus_not_in_to_dec: "CHR ''-'' \<notin> set (to_dec n)"
  using to_dec_digits [of n] by (auto simp: all_digits_def list_all_iff is_ascii_digit_def)

lemma pad_signed_inject [simp]:
  "pad_two (signed_to_string m) = pad_two (signed_to_string n) \<longleftrightarrow> m = n"
proof
  assume eq: "pad_two (signed_to_string m) = pad_two (signed_to_string n)"
  have neg: "CHR ''-'' \<in> set (pad_two (signed_to_string k)) \<longleftrightarrow> k < 0" for k
    using minus_not_in_to_dec by (auto simp: pad_two_def signed_to_string_def)
  have unpadded: "pad_two (signed_to_string k) = CHR ''-'' # to_dec (nat (- k))" if "k < 0" for k
  proof -
    have "0 < length (to_dec (nat (- k)))" by simp
    with that show ?thesis unfolding pad_two_def signed_to_string_def by (simp del: length_greater_0_conv)
  qed
  show "m = n"
  proof (cases "m < 0")
    case True
    with eq neg [of m] neg [of n] have "n < 0" by simp
    with True eq have "nat (- m) = nat (- n)" by (metis unpadded dec_val_to_dec list.inject)
    with True \<open>n < 0\<close> show ?thesis by simp
  next
    case False
    with eq neg [of m] neg [of n] have "\<not> n < 0" by simp
    with False eq show ?thesis by (simp add: signed_to_string_def)
  qed
qed simp

lemma log_path_inject: "log_path directory d = log_path directory d' \<longleftrightarrow> d = d'"
  by (cases d; cases d') (auto simp: log_path_def directory_segments_def file_segment_def
      intro: signed_word_eqI word_unat_eq_iff [THEN iffD2])

text \<open>
  C39: whatever was written before, a successful write goes to a file that was opened under
  the path of the hour the clock shows, and that file is kept for the next write; different
  hours have different paths, so no line ends up in another hour's file.
\<close>

theorem write_goes_to_current_hour:
  assumes "opens_at fs path_of"
    and "writer_reachable fs directory w" and "writer_write fs buf w s = (Ok n, w', s')"
  shows "\<exists>file s1. file_write fs file buf s1 = (Ok n, s') \<and>
    log_file w' = Some (utc_now fs s, file) \<and>
    (\<forall>d. path_of file = log_path directory d \<longleftrightarrow> d = utc_now fs s)"
proof -
  have "writer_wf path_of directory w" by (rule writer_reachable_wf [OF assms(1,2)])
  from writer_write_cases [OF assms(1) this assms(3)] obtain f s1 where
    "log_file w' = Some (utc_now fs s, f)" "path_of f = log_path directory (utc_now fs s)"
    "file_write fs f buf s1 = (Ok n, s')" by auto
  then show ?thesis by (auto simp: log_path_inject)
qed

definition example_disk :: "(path, (path \<times> string) list) file_system" where
  "example_disk =
     \<lparr>utc_now = \<lambda>s. \<lparr>date_hour = of_nat (length s), date_day = 1, date_month = 2, date_year = 2024\<rparr>,
      path_exists = \<lambda>p s. False, create_dir = \<lambda>p s. (Ok (), s), open_append = \<lambda>p s. (Ok p, s),
      file_write = \<lambda>f buf s. (Ok (length buf), s @ [(f, buf)]), file_flush = \<lambda>f s. (Ok (), s)\<rparr>"

theorem write_goes_to_current_hour_witness:
  "\<exists>n w' s' file. writer_write example_disk ''line'' (make_writer [''logs'']) [] = (Ok n, w', s') \<and>
    log_file w' = Some (utc_now example_disk [], file) \<and>
    (\<forall>d. file = log_path [''logs''] d \<longleftrightarrow> d = utc_now example_disk [])"
proof -
  obtain n w' s' where run: "writer_write example_disk ''line'' (make_writer [''logs'']) [] = (Ok n, w', s')"
    by (simp add: writer_write_def example_disk_def make_writer_def open_file_def directory_segments_def Let_def)
  have opens: "opens_at example_disk (\<lambda>f. f)" by (simp add: opens_at_def example_disk_def)
  from write_goes_to_current_hour [OF opens writer_reachable.fresh run] run
  show ?thesis by blast
qed

end
