(* ===== verification/Bound_Checked.thy ===== *)
theory Bound_Checked
  imports Digits
begin

text \<open>
  \<open>market-data-feeder/src/providers/bound_checked.rs\<close>: an unsigned byte whose value is kept
  between two bounds.  The bounds, \<open>MIN\<close> and \<open>MAX\<close> in the code, are constant parameters of the type there and
  arguments here; the field is private, so a value exists only as a result of the
  operations below.
\<close>

section \<open>The type and its operations\<close>

datatype bounded_u8 = U8 (u8_get: u8)

text \<open>
  Instantiating the type with bounds in the wrong order does not compile; no argument of
  the theorems depends on it, as such a type has no values.
\<close>

definition u8_new :: "u8 \<Rightarrow> u8 \<Rightarrow> u8 \<Rightarrow> bounded_u8 option" where
  "u8_new lower upper value = (if lower \<le> value \<and> value \<le> upper then Some (U8 value) else None)"

definition u8_debug :: "bounded_u8 \<Rightarrow> string" where
  "u8_debug a = to_dec (unat (u8_get a))"

definition u8_eq :: "bounded_u8 \<Rightarrow> u8 \<Rightarrow> bool" where
  "u8_eq a other \<longleftrightarrow> u8_get a = other"

definition u8_partial_cmp :: "bounded_u8 \<Rightarrow> u8 \<Rightarrow> ordering option" where
  "u8_partial_cmp a other = Some (cmp (u8_get a) other)"

text \<open>Subtracting a byte checks the lower bound only.\<close>

definition u8_sub_u8 :: "u8 \<Rightarrow> u8 \<Rightarrow> bounded_u8 \<Rightarrow> u8 \<Rightarrow> bounded_u8 option" where
  "u8_sub_u8 lower upper a rhs =
     Option.bind (checked_sub (u8_get a) rhs) (\<lambda>result. if lower \<le> result then Some (U8 result) else None)"

definition u8_sub :: "u8 \<Rightarrow> u8 \<Rightarrow> bounded_u8 \<Rightarrow> bounded_u8 \<Rightarrow> bounded_u8 option" where
  "u8_sub lower upper a rhs = u8_sub_u8 lower upper a (u8_get rhs)"

definition u8_from_sub :: "u8 \<Rightarrow> u8 \<Rightarrow> u8 \<Rightarrow> bounded_u8 \<Rightarrow> bounded_u8 option" where
  "u8_from_sub lower upper a rhs = Option.bind (checked_sub a (u8_get rhs)) (u8_new lower upper)"

text \<open>The range of the values that the property tests draw, for a range they ask for.\<close>

definition u8_arbitrary_range :: "u8 \<Rightarrow> u8 \<Rightarrow> (u8 \<times> u8) option \<Rightarrow> u8 \<times> u8" where
  "u8_arbitrary_range lower upper range' =
     (case range' of Some (from, to) \<Rightarrow> (min lower from, max upper to) | None \<Rightarrow> (lower, upper))"

text \<open>The derived order is that of the only field.\<close>

instantiation bounded_u8 :: linorder
begin

definition less_eq_bounded_u8 :: "bounded_u8 \<Rightarrow> bounded_u8 \<Rightarrow> bool" where
  "less_eq_bounded_u8 a b \<longleftrightarrow> u8_get a \<le> u8_get b"

definition less_bounded_u8 :: "bounded_u8 \<Rightarrow> bounded_u8 \<Rightarrow> bool" where
  "less_bounded_u8 a b \<longleftrightarrow> u8_get a < u8_get b"

instance
  by intro_classes (auto simp: less_eq_bounded_u8_def less_bounded_u8_def bounded_u8.expand)

end


section \<open>Values of the type\<close>

text \<open>Everything that a client can build.\<close>

inductive u8_built :: "u8 \<Rightarrow> u8 \<Rightarrow> bounded_u8 \<Rightarrow> bool" for lower upper where
  new: "u8_new lower upper value = Some a \<Longrightarrow> u8_built lower upper a"
| sub: "u8_built lower upper a \<Longrightarrow> u8_built lower upper b \<Longrightarrow> u8_sub lower upper a b = Some c \<Longrightarrow> u8_built lower upper c"
| sub_u8: "u8_built lower upper a \<Longrightarrow> u8_sub_u8 lower upper a rhs = Some c \<Longrightarrow> u8_built lower upper c"
| from_sub: "u8_built lower upper b \<Longrightarrow> u8_from_sub lower upper value b = Some c \<Longrightarrow> u8_built lower upper c"

definition in_range :: "u8 \<Rightarrow> u8 \<Rightarrow> bounded_u8 \<Rightarrow> bool" where
  "in_range lower upper a \<longleftrightarrow> lower \<le> u8_get a \<and> u8_get a \<le> upper"

text \<open>Subtraction of whole numbers, kept when the difference lies between the bounds.\<close>

definition bounded_difference :: "u8 \<Rightarrow> u8 \<Rightarrow> u8 \<Rightarrow> u8 \<Rightarrow> int option" where
  "bounded_difference lower upper x y =
     (let d = uint x - uint y in if uint lower \<le> d \<and> d \<le> uint upper then Some d else None)"

abbreviation u8_value :: "bounded_u8 \<Rightarrow> int" where
  "u8_value a \<equiv> uint (u8_get a)"

lemma u8_new_difference:
  "map_option u8_value (Option.bind (checked_sub x y) (u8_new lower upper)) = bounded_difference lower upper x y"
proof (cases "y \<le> x")
  case True
  then have "uint (x - y) = uint x - uint y" using uint_sub_lem [of y x] by (simp add: word_le_def)
  with True show ?thesis by (simp add: u8_new_def checked_sub_def bounded_difference_def Let_def word_le_def)
next
  case False
  then have "uint x < uint y" by (simp add: word_le_def)
  with uint_ge_0 [of lower] have "\<not> uint lower \<le> uint x - uint y" by linarith
  with False show ?thesis by (simp add: checked_sub_def bounded_difference_def Let_def)
qed

text \<open>For a value within the bounds the upper bound needs no check.\<close>

lemma u8_sub_u8_new:
  assumes "in_range lower upper a"
  shows "u8_sub_u8 lower upper a rhs = Option.bind (checked_sub (u8_get a) rhs) (u8_new lower upper)"
  using assms
  by (auto simp: u8_sub_u8_def u8_new_def checked_sub_def in_range_def word_le_nat_alt unat_sub_if_le)

lemma u8_new_range: "u8_new lower upper value = Some a \<Longrightarrow> in_range lower upper a"
  by (auto simp: u8_new_def in_range_def split: if_splits)

lemma u8_built_range: "u8_built lower upper a \<Longrightarrow> in_range lower upper a"
proof (induction rule: u8_built.induct)
  case (sub a b c)
  then show ?case by (auto simp: u8_sub_def u8_sub_u8_new bind_eq_Some_conv dest: u8_new_range)
next
  case (sub_u8 a rhs c)
  then show ?case by (auto simp: u8_sub_u8_new bind_eq_Some_conv dest: u8_new_range)
qed (auto simp: u8_from_sub_def bind_eq_Some_conv dest: u8_new_range)

text \<open>
  C31: every value of the type that can be built lies between its bounds, and each of the
  three subtractions gives exactly the difference of the whole numbers when it lies
  between the bounds, and nothing otherwise.
\<close>

theorem bounded_u8_sound:
  assumes "u8_built lower upper a" and "u8_built lower upper b"
  shows "in_range lower upper a \<and>
    map_option u8_value (u8_sub lower upper a b) = bounded_difference lower upper (u8_get a) (u8_get b) \<and>
    map_option u8_value (u8_sub_u8 lower upper a x) = bounded_difference lower upper (u8_get a) x \<and>
    map_option u8_value (u8_from_sub lower upper x b) = bounded_difference lower upper x (u8_get b)"
  using u8_built_range [OF assms(1)]
  by (simp add: u8_sub_def u8_sub_u8_new u8_from_sub_def u8_new_difference)

lemma example_built: "u8_built 5 20 (U8 20)" "u8_built 5 20 (U8 10)"
  by (rule u8_built.new [of _ _ 20], simp add: u8_new_def)
    (rule u8_built.new [of _ _ 10], simp add: u8_new_def)

theorem bounded_u8_sound_witness:
  "u8_sub 5 20 (U8 20) (U8 10) = Some (U8 10) \<and> u8_sub_u8 5 20 (U8 20) 16 = None \<and>
    u8_from_sub 5 20 31 (U8 10) = None"
  using bounded_u8_sound [OF example_built, of 16] bounded_u8_sound [OF example_built, of 31]
  by (simp add: u8_sub_def u8_sub_u8_def u8_from_sub_def u8_new_def checked_sub_def bounded_difference_def)

text \<open>
  A test that asks for a range of its own also gets values outside the bounds: the two
  ranges are joined, not intersected.
\<close>

lemma arbitrary_leaves_range:
  assumes "from < lower" and "from \<le> to"
  shows "\<exists>value. fst (u8_arbitrary_range lower upper (Some (from, to))) \<le> value \<and>
    value \<le> snd (u8_arbitrary_range lower upper (Some (from, to))) \<and> \<not> in_range lower upper (U8 value)"
  using assms
  by (intro exI [of _ "min from lower"])
    (auto simp: u8_arbitrary_range_def in_range_def min_def le_max_iff_disj)

end
