(* ===== verification/Price_Tests.thy ===== *)
theory Price_Tests
  imports Osmosis Complex_Main
begin

text \<open>
  The tests of \<open>market-data-feeder/src/providers/osmosis/test/\<close>: the second computation of a
  price with which the tests compare the provider's result, and the cases that the
  property test draws.  The tests' big integers are a parameter; their fractions are
  rational numbers.
\<close>

section \<open>The tests' own computation\<close>

definition prop_assert :: "bool \<Rightarrow> unit res" where
  "prop_assert b = (if b then Ok () else Err [''assertion failed''])"

definition abs_diff :: "u8 \<Rightarrow> u8 \<Rightarrow> u8" where
  "abs_diff a b = (if a < b then b - a else a - b)"

definition kept_digits :: "string \<Rightarrow> u8 \<Rightarrow> u8 \<Rightarrow> (string \<times> u8) res" where
  "kept_digits spot_price base_exponent quote_exponent =
     (if greater_than_max_quote_value spot_price
      then
        and_then (str_prefix (length MAX_QUOTE_VALUE) spot_price) (\<lambda>prefix.
        let len = (if prefix < MAX_QUOTE_VALUE then length MAX_QUOTE_VALUE else length MAX_QUOTE_VALUE - 1) in
        and_then (usize_sub (length spot_price) len) (\<lambda>longer.
        and_then (int_conversion (usize_try_into longer)) (\<lambda>excess.
        and_then (prop_assert (excess \<le> base_exponent)) (\<lambda>_.
        and_then (prop_assert (excess \<le> quote_exponent)) (\<lambda>_.
        and_then (str_prefix len spot_price) (\<lambda>spot_price.
        map_res (\<lambda>quote_exponent. (spot_price, quote_exponent)) (sub_or_panic quote_exponent excess)))))))
      else Ok (spot_price, quote_exponent))"

definition calculate_and_assert_against_computed ::
  "(string \<Rightarrow> nat res) \<Rightarrow> string \<Rightarrow> u8 \<Rightarrow> u8 \<Rightarrow> decimal \<Rightarrow> decimal \<Rightarrow> rat res" where
  "calculate_and_assert_against_computed parse spot_price base_digits quote_digits base quote =
     (let spot_price = trim_start_zeroes spot_price in
      and_then (prop_assert (spot_price \<noteq> [])) (\<lambda>_.
      and_then (prop_assert
        (abs_diff base_digits (decimal_places base) = abs_diff quote_digits (decimal_places quote))) (\<lambda>_.
      and_then (prop_assert (length (amount base) \<le> 39)) (\<lambda>_.
      and_then (prop_assert (length (amount quote) \<le> 39)) (\<lambda>_.
      and_then (add_or_panic (36 :: u16) (ucast quote_digits)) (\<lambda>sum.
      and_then (case checked_sub sum (ucast base_digits) of
          Some difference \<Rightarrow> Ok difference
        | None \<Rightarrow> panic ''called Option::unwrap() on a None value'') (\<lambda>difference.
      and_then (int_conversion (try_into difference)) (\<lambda>quote_exponent.
      (case trim_end_zeroes 36 quote_exponent spot_price of (spot_price, base_exponent, quote_exponent) \<Rightarrow>
      and_then (kept_digits spot_price base_exponent quote_exponent) (\<lambda>(spot_price, quote_exponent).
      and_then (parse (amount quote)) (\<lambda>quote_amount.
      and_then (parse (amount base)) (\<lambda>base_amount.
      and_then (parse spot_price) (\<lambda>price.
      let actual = of_nat (quote_amount * 10 ^ unat (decimal_places base)) /
                   of_nat (base_amount * 10 ^ unat (decimal_places quote));
          expected = of_nat price / of_nat (10 ^ unat quote_exponent) in
      map_res (\<lambda>_. actual) (prop_assert (actual = expected)))))))))))))))"

text \<open>
  The cases of the property test: the filter that it applies to the prices it draws, and
  the test itself.
\<close>

definition generate_test_case :: "u8 \<Rightarrow> u8 \<Rightarrow> string \<Rightarrow> (u8 \<times> u8 \<times> string) option" where
  "generate_test_case quote_digits base_digits spot_price =
     (let minimal_exponent = min 36 (36 + quote_digits - base_digits);
          trimmed = trim_start_zeroes spot_price in
      if unat minimal_exponent \<le> length trimmed \<and>
         greater_than_max_quote_value (take (length trimmed - unat minimal_exponent) trimmed)
      then None else Some (base_digits, quote_digits, spot_price))"

definition saturating_sub :: "u8 \<Rightarrow> u8 \<Rightarrow> u8" where
  "saturating_sub a b = (if b \<le> a then a - b else 0)"

definition base_digits_range :: "u8 \<Rightarrow> u8 \<times> u8" where
  "base_digits_range quote_digits = (saturating_sub quote_digits 219, saturating_add quote_digits 36)"

definition property_test :: "(string \<Rightarrow> nat res) \<Rightarrow> u8 \<times> u8 \<times> string \<Rightarrow> rat res" where
  "property_test parse = (\<lambda>(base_digits, quote_digits, spot_price).
     and_then (normalized_price spot_price base_digits quote_digits) (\<lambda>(base, quote).
       calculate_and_assert_against_computed parse spot_price base_digits quote_digits
         (as_inner base) (as_inner quote)))"


section \<open>What the property test covers\<close>

lemma canonical_trimmed:
  "all_digits spot \<Longrightarrow> 0 < dec_val spot \<Longrightarrow> canonical (trim_start_zeroes spot)"
  using trim_start_zeroes_canonical [of spot] trim_start_zeroes_Nil_iff [of spot] by simp

lemma base_digits_range_iff:
  "b \<in> {fst (base_digits_range q)..snd (base_digits_range q)} \<longleftrightarrow>
     unat b \<le> 36 + unat q \<and> 36 + unat q - unat b < 256"
proof -
  have "unat (saturating_sub q 219) = unat q - 219"
    by (auto simp: saturating_sub_def unat_sub_if_le word_le_nat_alt)
  moreover have "unat (saturating_add q 36) = min (unat q + 36) 255"
    by (simp add: unat_saturating_add)
  ultimately show ?thesis
    using unat_u8_less [of b] by (auto simp: base_digits_range_def word_le_nat_alt simp del: unat_u8_less)
qed

lemma wrapping_exponent:
  fixes b q :: u8
  assumes "unat b \<le> 36 + unat q" and "36 + unat q - unat b < 256"
  shows "unat (36 + q - b) = 36 + unat q - unat b"
proof -
  have "36 + q - b = of_nat (36 + unat q - unat b)" using assms(1) by (simp add: of_nat_diff)
  then show ?thesis using assms(2) by (simp add: unat_of_nat)
qed

text \<open>
  Among the digit strings the filter keeps exactly the prices that the provider accepts:
  the property test never discards an accepted price, and no case it draws is rejected.
\<close>

lemma generated_iff_accepted:
  assumes "all_digits spot" and "0 < dec_val spot"
    and "b \<in> {fst (base_digits_range q)..snd (base_digits_range q)}"
  shows "generate_test_case q b spot = Some (b, q, spot) \<longleftrightarrow> is_ok (normalized_price spot b q)"
proof -
  let ?s = "trim_start_zeroes spot" and ?m = "min 36 (36 + unat q - unat b)"
  note range = assms(3) [unfolded base_digits_range_iff]
  have s: "canonical ?s" "dec_val ?s = dec_val spot"
    using canonical_trimmed [OF assms(1,2)] by (simp_all add: trim_start_zeroes_spec)
  have m: "unat (min 36 (36 + q - b)) = ?m"
    using range wrapping_exponent [of b q] by (simp add: min_def word_le_nat_alt)
  obtain e where e: "initial_quote_exponent b q = Ok e" "unat e = 36 + unat q - unat b"
    using range ex_u8_iff [of "36 + unat q - unat b" "\<lambda>_. True"] by (auto simp: initial_quote_exponent_eq_Ok)
  have take: "dec_val (take (length ?s - ?m) ?s) = dec_val spot div 10 ^ ?m" if "?m \<le> length ?s"
    using that dec_val_take [of ?s "length ?s - ?m"] s by (simp add: canonical_def)
  have "(?m \<le> length ?s \<and> greater_than_max_quote_value (take (length ?s - ?m) ?s)) \<longleftrightarrow>
      u128_max < dec_val spot div 10 ^ ?m"
  proof (cases "?m < length ?s")
    case True
    then have "canonical (take (length ?s - ?m) ?s)" using canonical_take [OF s(1)] by simp
    from greater_than_max_iff [OF this] take True show ?thesis by simp
  next
    case False
    then have "(10 :: nat) ^ length ?s \<le> 10 ^ ?m" by (intro power_increasing) linarith+
    moreover have "dec_val spot < 10 ^ length ?s" using dec_val_less [of ?s] s by (simp add: canonical_def)
    ultimately have "dec_val spot < 10 ^ ?m" by (rule less_le_trans [rotated])
    then have "dec_val spot div 10 ^ ?m = 0" by simp
    moreover have "\<not> greater_than_max_quote_value []"
      by (simp add: greater_than_max_quote_value_def compare_with_max_quote_value_def cmp_def)
    ultimately show ?thesis using False by simp
  qed
  then show ?thesis
    using normalized_price_digits(1) [OF assms(1,2), of b q] e m by (simp add: generate_test_case_def Let_def)
qed


section \<open>Where the tests' computation agrees\<close>

lemma trim_end_loop_stops:
  "trim_end_loop b q s = (t, b', q') \<Longrightarrow> t \<noteq> [] \<Longrightarrow> hd t \<noteq> CHR ''0'' \<or> b' = 0 \<or> q' = 0"
  by (induction b q s rule: trim_end_loop.induct) (auto split: if_splits)

lemma trim_end_zeroes_steps:
  assumes "canonical s" and "trim_end_zeroes b q s = (t, b', q')"
  obtains z where "s = t @ replicate z (CHR ''0'')" and "canonical t"
    and "unat b = z + unat b'" and "unat q = z + unat q'" and "last t \<noteq> CHR ''0'' \<or> b' = 0 \<or> q' = 0"
proof -
  from assms(2) have loop: "trim_end_loop b q (rev s) = (rev t, b', q')"
    by (auto simp: trim_end_zeroes_def split: prod.splits)
  then obtain z where z: "rev s = replicate z (CHR ''0'') @ rev t" "unat b = z + unat b'" "unat q = z + unat q'"
    using trim_end_loop_spec by blast
  from z(1) have s: "s = t @ replicate z (CHR ''0'')" by (metis rev_append rev_replicate rev_rev_ident)
  moreover from this assms(1) have "t \<noteq> []" by (cases z) (auto simp: canonical_def)
  moreover from this have "last t \<noteq> CHR ''0'' \<or> b' = 0 \<or> q' = 0"
    using trim_end_loop_stops [OF loop] by (simp add: hd_rev)
  ultimately show thesis using that [of z] canonical_prefix [of t] assms(1) z(2,3) by simp
qed

text \<open>The steps behind an accepted price.\<close>

lemma normalized_price_steps:
  assumes "normalized_price spot b q = Ok (base, quote)"
  obtains e t b1 q1 b2 q2 where "canonical (trim_start_zeroes spot)" and "initial_quote_exponent b q = Ok e"
    and "trim_end_zeroes 36 e (trim_start_zeroes spot) = (t, b1, q1)" and "canonical t"
    and "reduce_exponents (dropped_digits t) b1 q1 = Some (b2, q2)"
    and "as_inner base = decimal_new (to_dec (10 ^ unat b2)) b2"
    and "as_inner quote = decimal_new (to_dec (dec_val t div 10 ^ dropped_digits t)) q2"
proof -
  let ?s = "trim_start_zeroes spot"
  have spot: "all_digits spot" "0 < dec_val spot" using assms normalized_price_rejects [of spot b q] by fastforce+
  then have s: "canonical ?s" by (rule canonical_trimmed)
  then obtain e where e: "initial_quote_exponent b q = Ok e"
    using assms normalized_price_digits(2) [OF spot] by blast
  obtain t b1 q1 where t: "trim_end_zeroes 36 e ?s = (t, b1, q1)" by (metis prod_cases3)
  obtain z where ct: "canonical t" and b1: "36 = z + unat b1"
    by (rule trim_end_zeroes_spec [OF s t]) simp
  have "and_then (drop_excess_digits t b1 q1) price_amounts = Ok (base, quote)"
    using assms s e t by (simp add: normalized_price_unfold canonical_def)
  then obtain b2 q2 where red: "reduce_exponents (dropped_digits t) b1 q1 = Some (b2, q2)"
      and amounts: "price_amounts (to_dec (dec_val t div 10 ^ dropped_digits t), b2, q2) = Ok (base, quote)"
    by (cases "reduce_exponents (dropped_digits t) b1 q1") (auto simp: drop_excess_digits_eq [OF ct])
  moreover have "unat b2 \<le> 36" using red b1 by (simp add: reduce_exponents_eq_Some)
  moreover have "dec_val t div 10 ^ dropped_digits t \<le> u128_max"
    using dropped_digits_le_iff [OF ct, of "dropped_digits t"] by simp
  ultimately show thesis using that [OF s e t ct red] by (auto simp: price_amounts_Ok)
qed

lemma unat_abs_diff:
  "unat (abs_diff a b) = (if unat a < unat b then unat b - unat a else unat a - unat b)"
  by (simp add: abs_diff_def unat_sub_if_le word_less_nat_alt word_le_nat_alt)

lemma prop_assert_simps [simp]:
  "prop_assert True = Ok ()" "prop_assert b = Ok x \<longleftrightarrow> b"
  by (simp_all add: prop_assert_def)

lemma kept_digits_Ok:
  assumes "canonical t" and "u128_max < dec_val t" and "len = (if take 39 t < MAX_QUOTE_VALUE then 39 else 38)"
  shows "kept_digits t b1 q1 = Ok (k, q3) \<longleftrightarrow>
    length t - len \<le> unat b1 \<and> length t - len \<le> unat q1 \<and> k = take len t \<and>
    unat q3 = unat q1 - (length t - len)"
proof -
  have len: "39 \<le> length t" "len \<le> length t" "(if take 39 t < MAX_QUOTE_VALUE then 39 else 39 - 1) = len"
    using excess_digits_spec(1) [OF assms(1,2)] assms(3) by auto
  have "kept_digits t b1 q1 = Ok (k, q3) \<longleftrightarrow> (\<exists>x :: u8. unat x = length t - len \<and> x \<le> b1 \<and> x \<le> q1 \<and>
      k = take len t \<and> q3 = q1 - x)"
    using assms(2) len
    by (auto simp: kept_digits_def greater_than_max_iff [OF assms(1)] str_prefix_def usize_sub_def Let_def
        usize_try_into_Some sub_or_panic_def checked_sub_def)
  also have "\<dots> \<longleftrightarrow> length t - len \<le> unat b1 \<and> length t - len \<le> unat q1 \<and> k = take len t \<and>
      unat q3 = unat q1 - (length t - len)"
    using unat_u8_less [of b1] ex_u8_iff [of "length t - len" "\<lambda>_. True"]
    by (auto simp: word_le_nat_alt word_unat_eq_iff unat_sub_if_le simp del: unat_u8_less)
  finally show ?thesis .
qed

text \<open>
  The tests shorten a price as the provider does, except when its leading 39 digits are
  those of the largest value and more follow.
\<close>

lemma kept_digits_agree:
  assumes "canonical t" and "reduce_exponents (dropped_digits t) b1 q1 = Some (b2, q2)"
    and "\<not> (39 < length t \<and> take 39 t = MAX_QUOTE_VALUE)"
  shows "kept_digits t b1 q1 = Ok (to_dec (dec_val t div 10 ^ dropped_digits t), q2)"
proof (cases "u128_max < dec_val t")
  case False
  with assms show ?thesis
    by (simp add: kept_digits_def greater_than_max_iff dropped_digits_def to_dec_dec_val
        reduce_exponents_eq_Some word_unat_eq_iff)
next
  case True
  note spec = excess_digits_spec [OF assms(1) True]
  let ?x = "excess_digits t" and ?len = "if take 39 t < MAX_QUOTE_VALUE then 39 else 38 :: nat"
  have x: "dropped_digits t = ?x" using True by (simp add: dropped_digits_def)
  have "take 39 t \<noteq> MAX_QUOTE_VALUE"
    using assms(3) spec(1) True by (cases "length t = 39") auto
  then have "?len = length t - ?x" "length t - ?len = ?x"
    using spec(1) by (auto simp: excess_digits_def)
  then show ?thesis
    using assms(2) dropped_digits_value [OF assms(1)]
    by (simp add: kept_digits_Ok [OF assms(1) True refl] x reduce_exponents_eq_Some)
qed

lemma kept_digits_differ:
  assumes "canonical t" and "reduce_exponents (dropped_digits t) b1 q1 = Some (b2, q2)"
    and "39 < length t" and "take 39 t = MAX_QUOTE_VALUE" and "kept_digits t b1 q1 = Ok (k, q3)"
  shows "dec_val t div 10 ^ dropped_digits t = u128_max" and "k = take 38 MAX_QUOTE_VALUE"
    and "unat q2 = Suc (unat q3)"
proof -
  have big: "u128_max < dec_val t"
    using canonical_length_less [of MAX_QUOTE_VALUE t] assms(1,3) by simp
  have x: "dropped_digits t = length t - 39" using big assms(4) by (simp add: dropped_digits_def excess_digits_def)
  show "dec_val t div 10 ^ dropped_digits t = u128_max"
    using dec_val_take [of t 39] assms(1,4) by (simp add: x canonical_def)
  have kept: "k = take 38 t" "length t - 38 \<le> unat q1" "unat q3 = unat q1 - (length t - 38)"
    using assms(4,5) by (simp_all add: kept_digits_Ok [OF assms(1) big refl])
  show "k = take 38 MAX_QUOTE_VALUE" using kept(1) assms(3) by (simp flip: assms(4))
  have "unat q2 = unat q1 - (length t - 39)" using assms(2) by (simp add: x reduce_exponents_eq_Some)
  with kept assms(3) show "unat q2 = Suc (unat q3)" by linarith
qed

text \<open>What is assumed of the tests' big integers: they read what consists of digits.\<close>

definition reads_digits :: "(string \<Rightarrow> nat res) \<Rightarrow> bool" where
  "reads_digits parse \<longleftrightarrow> (\<forall>s. s \<noteq> [] \<and> all_digits s \<longrightarrow> parse s = Ok (dec_val s))"

definition price_value :: "decimal \<Rightarrow> rat" where
  "price_value d = of_nat (dec_val (amount d)) / of_nat (10 ^ unat (decimal_places d))"

lemma computed_reduces:
  assumes "reads_digits parse" and "canonical (trim_start_zeroes spot)"
    and "initial_quote_exponent b q = Ok e" and "trim_end_zeroes 36 e (trim_start_zeroes spot) = (t, b1, q1)"
    and "canonical t" and "reduce_exponents (dropped_digits t) b1 q1 = Some (b2, q2)"
    and "quote = decimal_new (to_dec (dec_val t div 10 ^ dropped_digits t)) q2"
  shows "calculate_and_assert_against_computed parse spot b q (decimal_new (to_dec (10 ^ unat b2)) b2) quote =
    and_then (kept_digits t b1 q1) (\<lambda>(k, q3). and_then (parse k) (\<lambda>p.
      map_res (\<lambda>_. price_value quote) (prop_assert (price_value quote = of_nat p / of_nat (10 ^ unat q3)))))"
proof -
  let ?n = "dec_val t div 10 ^ dropped_digits t"
  obtain z where z: "36 = z + unat b1" "unat e = z + unat q1"
    by (rule trim_end_zeroes_steps [OF assms(2,4)]) auto
  have e: "unat b \<le> 36 + unat q" "unat e = 36 + unat q - unat b"
    using assms(3) by (simp_all add: initial_quote_exponent_eq_Ok)
  have red: "dropped_digits t \<le> unat b1" "dropped_digits t \<le> unat q1"
      "unat b2 = unat b1 - dropped_digits t" "unat q2 = unat q1 - dropped_digits t"
    using assms(6) by (simp_all add: reduce_exponents_eq_Some)
  have "unat (abs_diff b b2) = unat (abs_diff q q2)"
    unfolding unat_abs_diff using z e red by auto
  then have diff: "abs_diff b b2 = abs_diff q q2" by (simp add: word_unat_eq_iff)
  have "?n \<le> u128_max" using dropped_digits_le_iff [OF assms(5), of "dropped_digits t"] by simp
  then have len: "length (to_dec ?n) \<le> 39" "length (to_dec (10 ^ unat b2)) \<le> 39"
    using canonical_length_less [of MAX_QUOTE_VALUE "to_dec ?n"] canonical_to_dec [of ?n] z red
    by (cases "?n = 0"; force simp: to_dec_power to_dec.simps [of 0])+
  have conv: "and_then (add_or_panic (36 :: u16) (ucast q)) (\<lambda>sum.
      and_then (case checked_sub sum (ucast b) of Some difference \<Rightarrow> Ok difference
        | None \<Rightarrow> panic ''called Option::unwrap() on a None value'') (\<lambda>difference.
      and_then (int_conversion (try_into difference)) f)) = f e" for f :: "u8 \<Rightarrow> rat res"
    using assms(3) by (auto simp: initial_quote_exponent_def split: option.splits)
  have parse: "parse (to_dec m) = Ok m" for m
    using assms(1) to_dec_digits [of m] by (simp add: reads_digits_def)
  show ?thesis
    using assms(2,4) len diff
    by (simp add: calculate_and_assert_against_computed_def Let_def conv parse canonical_def
        price_value_def assms(7) case_prod_beta)
qed

text \<open>
  Prices that start with the digits of the largest value and go on with other digits
  than zeroes: the provider keeps the 39 digits, as they fit, the tests expect 38.
\<close>

definition starts_with_max :: "string \<Rightarrow> bool" where
  "starts_with_max s \<longleftrightarrow>
     take 39 s = MAX_QUOTE_VALUE \<and> \<not> list_all (\<lambda>c. c = CHR ''0'') (drop 39 s)"

lemma starts_with_max_iff:
  assumes "s = t @ replicate z (CHR ''0'')" and "canonical t"
    and "last t \<noteq> CHR ''0'' \<or> b1 = 0 \<or> q1 = 0"
    and "reduce_exponents (dropped_digits t) b1 q1 = Some (b2, q2)"
  shows "starts_with_max s \<longleftrightarrow> 39 < length t \<and> take 39 t = MAX_QUOTE_VALUE"
proof (cases "39 < length t")
  case True
  have "last t \<noteq> CHR ''0''" if "take 39 t = MAX_QUOTE_VALUE"
  proof -
    have "u128_max < dec_val t" using canonical_length_less [of MAX_QUOTE_VALUE t] assms(2) True by simp
    then have "0 < dropped_digits t" using excess_digits_spec(2) [OF assms(2)] by (simp add: dropped_digits_def)
    with assms(3,4) show ?thesis by (auto simp: reduce_exponents_eq_Some)
  qed
  moreover have "last t \<in> set (drop 39 t)" using True by (metis drop_eq_Nil last_drop last_in_set leD)
  ultimately show ?thesis using True by (auto simp: starts_with_max_def assms(1) list_all_iff)
next
  case False
  then have "list_all (\<lambda>c. c = CHR ''0'') (drop 39 s)" by (simp add: assms(1) list_all_iff)
  with False show ?thesis by (simp add: starts_with_max_def)
qed

lemma one_place_more:
  "(of_nat a / of_nat (10 ^ Suc n) :: rat) = of_nat b / of_nat (10 ^ n) \<longleftrightarrow> a = 10 * b"
proof -
  have "(of_nat a / of_nat (10 ^ Suc n) :: rat) = of_nat b / of_nat (10 ^ n) \<longleftrightarrow>
      (of_nat a :: rat) = of_nat (10 * b)"
    by (simp add: divide_eq_eq mult.commute)
  then show ?thesis by (simp only: of_nat_eq_iff)
qed

lemma max_value_differs:
  assumes "unat q2 = Suc (unat q3)"
  shows "(of_nat u128_max / of_nat (10 ^ unat q2) :: rat) \<noteq>
    of_nat (dec_val (take 38 MAX_QUOTE_VALUE)) / of_nat (10 ^ unat q3)"
proof -
  have "dec_val (take 38 MAX_QUOTE_VALUE) = u128_max div 10" using dec_val_take [of MAX_QUOTE_VALUE 38] by simp
  then have "u128_max \<noteq> 10 * dec_val (take 38 MAX_QUOTE_VALUE)" by simp
  then show ?thesis unfolding assms one_place_more .
qed

text \<open>
  The property test passes on an accepted price exactly when the price does not start
  with the digits of the largest value; it then gives the value of the quote amount.
\<close>

theorem property_test_passes_iff:
  assumes "reads_digits parse" and "normalized_price spot b q = Ok (base, quote)"
  shows "property_test parse (b, q, spot) = Ok v \<longleftrightarrow>
    \<not> starts_with_max (trim_start_zeroes spot) \<and> v = price_value (as_inner quote)"
proof -
  let ?s = "trim_start_zeroes spot"
  from assms(2) obtain e t b1 q1 b2 q2 where s: "canonical ?s" and e: "initial_quote_exponent b q = Ok e"
    and t: "trim_end_zeroes 36 e ?s = (t, b1, q1)" "canonical t"
    and red: "reduce_exponents (dropped_digits t) b1 q1 = Some (b2, q2)"
    and base: "as_inner base = decimal_new (to_dec (10 ^ unat b2)) b2"
    and quote: "as_inner quote = decimal_new (to_dec (dec_val t div 10 ^ dropped_digits t)) q2"
    by (rule normalized_price_steps)
  have test: "property_test parse (b, q, spot) = and_then (kept_digits t b1 q1) (\<lambda>(k, q3). and_then (parse k) (\<lambda>p.
      map_res (\<lambda>_. price_value (as_inner quote)) (prop_assert (price_value (as_inner quote) = of_nat p / of_nat (10 ^ unat q3)))))"
    using computed_reduces [OF assms(1) s e t red quote] by (simp add: property_test_def assms(2) base)
  have "starts_with_max ?s \<longleftrightarrow> 39 < length t \<and> take 39 t = MAX_QUOTE_VALUE"
    by (rule trim_end_zeroes_steps [OF s t(1)]) (rule starts_with_max_iff [OF _ t(2) _ red])
  moreover have "property_test parse (b, q, spot) = Ok (price_value (as_inner quote))"
    if "\<not> (39 < length t \<and> take 39 t = MAX_QUOTE_VALUE)"
    using assms(1) to_dec_digits
    by (simp add: test kept_digits_agree [OF t(2) red that] reads_digits_def quote price_value_def)
  moreover have "property_test parse (b, q, spot) \<noteq> Ok v" if "39 < length t" "take 39 t = MAX_QUOTE_VALUE"
  proof
    assume "property_test parse (b, q, spot) = Ok v"
    then obtain k q3 p where kept: "kept_digits t b1 q1 = Ok (k, q3)" and p: "parse k = Ok p"
      and eq: "price_value (as_inner quote) = of_nat p / of_nat (10 ^ unat q3)"
      by (auto simp: test split: prod.splits)
    note differ = kept_digits_differ [OF t(2) red that kept]
    have "p = dec_val (take 38 MAX_QUOTE_VALUE)"
      using assms(1) p by (simp add: differ(2) reads_digits_def max_quote_defs is_ascii_digit_def)
    with eq max_value_differs [OF differ(3)] show False
      by (simp add: quote price_value_def differ(1))
  qed
  ultimately show ?thesis by auto
qed

end
