(* ===== verification/Unit_Tests.thy ===== *)
theory Unit_Tests
  imports Price_Tests Price_Format Balance_Reporter TaskSet
begin

text \<open>
  The examples of the repository's unit tests, evaluated on the definitions of this
  development: the model gives the results that the tests expect of the code.
\<close>

section \<open>Spot prices\<close>

text \<open>The assertions that \<open>calculate_and_assert_against_manual\<close> makes about the two amounts.\<close>

definition calculate_and_assert_against_manual :: "string \<Rightarrow> u8 \<Rightarrow> u8 \<Rightarrow> u8 \<Rightarrow> string \<Rightarrow> u8 \<Rightarrow> bool" where
  "calculate_and_assert_against_manual spot_price base_decimal_digits quote_decimal_digits
       base_digits quote_amount quote_digits \<longleftrightarrow>
     (case normalized_price spot_price base_decimal_digits quote_decimal_digits of
        Inl _ \<Rightarrow> False
      | Inr (base, quote) \<Rightarrow>
          (let base = as_inner base; quote = as_inner quote in
           amount base \<noteq> [] \<and> take 1 (amount base) = ''1'' \<and>
           length (drop 1 (amount base)) = unat (decimal_places base) \<and>
           trim_zeroes_end (drop 1 (amount base)) = [] \<and>
           decimal_places base = base_digits \<and> \<not> greater_than_max_quote_value (amount base) \<and>
           amount quote \<noteq> [] \<and> amount quote = quote_amount \<and>
           decimal_places quote = quote_digits \<and> \<not> greater_than_max_quote_value (amount quote)))"

text \<open>The assertions hold when a price fits after its trailing zeroes were trimmed.\<close>

lemma manual_if_fits:
  assumes "canonical (trim_start_zeroes spot)" and "unat b \<le> 36 + unat q" and "36 + unat q - unat b < 256"
    and "trim_end_zeroes 36 (36 + q - b) (trim_start_zeroes spot) = (t, b1, q1)" and "dec_val t \<le> u128_max"
  shows "calculate_and_assert_against_manual spot b q b1 t q1"
proof -
  obtain z where t: "canonical t" and b1: "36 = z + unat b1"
    by (rule trim_end_zeroes_spec [OF assms(1,4)]) simp
  have "initial_quote_exponent b q = Ok (36 + q - b)"
    using assms(2) wrapping_exponent [OF assms(2,3)] by (simp add: initial_quote_exponent_eq_Ok)
  moreover have "drop_excess_digits t b1 q1 = Ok (t, b1, q1)"
    using assms(5) greater_than_max_iff [OF t] by (simp add: drop_excess_digits_def)
  ultimately have price: "normalized_price spot b q =
      Ok (Amount (decimal_new (to_dec (10 ^ unat b1)) b1), Amount (decimal_new t q1))"
    using assms(1,4,5) b1 price_amounts_Ok [of "dec_val t" b1 q1] to_dec_dec_val [OF t]
    by (simp add: normalized_price_unfold canonical_def)
  have "(10 :: nat) ^ unat b1 \<le> 10 ^ 36" using b1 by (intro power_increasing) simp_all
  then have "\<not> greater_than_max_quote_value (to_dec (10 ^ unat b1))"
    using greater_than_max_iff [OF canonical_to_dec, of "10 ^ unat b1"] by simp
  moreover have "\<not> greater_than_max_quote_value t" using assms(5) greater_than_max_iff [OF t] by simp
  moreover have "trim_zeroes_end (replicate n (CHR ''0'')) = []" for n
    by (simp add: trim_zeroes_end_def dropWhile_eq_Nil_conv)
  ultimately show ?thesis
    using t by (simp add: calculate_and_assert_against_manual_def price to_dec_power canonical_def)
qed

lemmas trim_eval = trim_start_zeroes_def trim_end_zeroes_def canonical_def is_ascii_digit_def digit_val_def

lemma equal_digits_real_data:
  "calculate_and_assert_against_manual ''12521940695999309011000000000000000000'' 6 6 18 ''12521940695999309011'' 18"
  by (rule manual_if_fits; simp add: trim_eval)+

lemma equal_digits:
  "calculate_and_assert_against_manual ''1941974700000000000000000000000000'' 6 6 10 ''19419747'' 10"
  "calculate_and_assert_against_manual ''001941974700000000000000000000000000'' 6 6 10 ''19419747'' 10"
  "calculate_and_assert_against_manual ''194197470000000000000000000000000000'' 6 6 8 ''19419747'' 8"
  "calculate_and_assert_against_manual ''24602951060000000000000000000000000000'' 6 6 8 ''2460295106'' 8"
  "calculate_and_assert_against_manual ''74167359355013376000000000000000000'' 6 6 18 ''74167359355013376'' 18"
  by (rule manual_if_fits; simp add: trim_eval)+

lemma more_to_less_digits_real_data:
  "calculate_and_assert_against_manual ''1673949300000000000000000000'' 12 6 16 ''16739493'' 10"
  by (rule manual_if_fits; simp add: trim_eval)+

lemma more_to_less_digits:
  "calculate_and_assert_against_manual ''1'' 36 0 36 ''1'' 0"
  "calculate_and_assert_against_manual ''10'' 36 0 36 ''10'' 0"
  "calculate_and_assert_against_manual ''1000000000000000000000000000000000000'' 36 0 36 ''1000000000000000000000000000000000000'' 0"
  "calculate_and_assert_against_manual ''100000000000000000000000000000000000000'' 36 0 36 ''100000000000000000000000000000000000000'' 0"
  "calculate_and_assert_against_manual ''340282366920938463463374607431768211455'' 36 0 36 ''340282366920938463463374607431768211455'' 0"
  "calculate_and_assert_against_manual ''6724762410000000000000000000'' 18 6 17 ''672476241'' 5"
  "calculate_and_assert_against_manual ''6724762415000000000000000000'' 18 6 18 ''6724762415'' 6"
  "calculate_and_assert_against_manual ''6724762415300000000000000000'' 18 6 19 ''67247624153'' 7"
  by (rule manual_if_fits; simp add: trim_eval)+

lemma less_to_more_digits_real_data:
  "calculate_and_assert_against_manual ''146191139329904908308095408000000000000000000'' 6 18 18 ''146191139329904908308095408'' 30"
  by (rule manual_if_fits; simp add: trim_eval)+

lemma less_to_more_digits:
  "calculate_and_assert_against_manual ''2000000000000000000000000000000000002'' 0 1 36 ''2000000000000000000000000000000000002'' 37"
  "calculate_and_assert_against_manual ''2000000000000000000000000000000000000'' 6 7 0 ''2'' 1"
  "calculate_and_assert_against_manual ''20000000000000000000000000000000000000'' 6 7 0 ''20'' 1"
  "calculate_and_assert_against_manual ''200000000000000000000000000000000000000'' 6 7 0 ''200'' 1"
  "calculate_and_assert_against_manual ''280135606978566858130324052000000000000000000000'' 6 18 15 ''280135606978566858130324052'' 27"
  "calculate_and_assert_against_manual ''280135606978566858130324052500000000000000000000'' 6 18 16 ''2801356069785668581303240525'' 28"
  "calculate_and_assert_against_manual ''280135606978566858130324052510000000000000000000'' 6 18 17 ''28013560697856685813032405251'' 29"
  by (rule manual_if_fits; simp add: trim_eval)+

text \<open>
  A case that the property test can draw and on which it fails, although the provider's
  result is right: both fit, and the provider's has one digit more.
\<close>

lemma property_test_fails:
  defines "spot \<equiv> ''3402823669209384634633746074317682114551''"
  shows "generate_test_case 6 6 spot = Some (6, 6, spot)"
    and "calculate_and_assert_against_manual spot 6 6 35 ''340282366920938463463374607431768211455'' 35"
    and "property_test (\<lambda>s. Ok (dec_val s)) (6, 6, spot) \<noteq> Ok v"
proof -
  show "generate_test_case 6 6 spot = Some (6, 6, spot)"
    by (simp add: spot_def generate_test_case_def normalized_price_eval)
  show "calculate_and_assert_against_manual spot 6 6 35 ''340282366920938463463374607431768211455'' 35"
    by (simp add: spot_def calculate_and_assert_against_manual_def normalized_price_eval trim_zeroes_end_def
        usize_sub_def str_prefix_def reduce_exponents_def)
  then obtain base quote where "normalized_price spot 6 6 = Ok (base, quote)"
    by (auto simp: calculate_and_assert_against_manual_def split: sum.splits prod.splits)
  moreover have "starts_with_max (trim_start_zeroes spot)"
    by (simp add: spot_def starts_with_max_def trim_start_zeroes_def max_quote_defs)
  ultimately show "property_test (\<lambda>s. Ok (dec_val s)) (6, 6, spot) \<noteq> Ok v"
    using property_test_passes_iff [of "\<lambda>s. Ok (dec_val s)" spot 6 6 base quote v]
    by (simp add: reads_digits_def)
qed

lemma max_quote_value_assertions:
  "compare_with_max_quote_value ''40282366920938463463374607431768211455'' = Less"
  "compare_with_max_quote_value ''240282366920938463463374607431768211455'' = Less"
  "compare_with_max_quote_value ''330282366920938463463374607431768211455'' = Less"
  "compare_with_max_quote_value ''340282366920938463463374607431768211445'' = Less"
  "compare_with_max_quote_value ''340282366920938463463374607431768211454'' = Less"
  "compare_with_max_quote_value ''340282366920938463463374607431768211455'' = Equal"
  "compare_with_max_quote_value ''340282366920938463463374607431768211456'' = Greater"
  "compare_with_max_quote_value ''340282366920938463463374607431768211465'' = Greater"
  "compare_with_max_quote_value ''350282366920938463463374607431768211455'' = Greater"
  "compare_with_max_quote_value ''440282366920938463463374607431768211455'' = Greater"
  "compare_with_max_quote_value ''1340282366920938463463374607431768211455'' = Greater"
  by (simp_all add: compare_with_max_quote_value_def max_quote_defs cmp_def)


section \<open>Printed amounts\<close>

lemma test_amount_formatting:
  "format_amount ''1'' = Ok ''1''"
  "format_amount ''12'' = Ok ''12''"
  "format_amount ''123'' = Ok ''123''"
  "format_amount ''1234'' = Ok ''1 234''"
  "format_amount ''12345'' = Ok ''12 345''"
  "format_amount ''123456'' = Ok ''123 456''"
  "format_amount ''1234567'' = Ok ''1 234 567''"
  by (simp_all add: format_amount_def string_insert_def upt_rec Let_def)

lemma test_pretty_price_formatting:
  "pretty_formatted_price ''NLS'' (Amount (decimal_new ''100000000000000000'' 17)) ''USDC_NOBLE''
     (Amount (decimal_new ''1811002280600015'' 17)) = ''1.0 NLS ~ 0.01811002280600015 USDC_NOBLE''"
  "pretty_formatted_price ''WETH'' (Amount (decimal_new ''10000000000000000000'' 19)) ''OSMO''
     (Amount (decimal_new ''67247624153'' 7)) = ''1.0 WETH ~ 6724.7624153 OSMO''"
  by (simp_all add: pretty_formatted_price_def formatted_amount_def process_amount_def
      trim_zeroes_end_def pad_to_one_def Let_def)


section \<open>Task sets\<close>

text \<open>
  Three tasks that end after fifteen, five and ten seconds, the last with a panic.  The
  test's clock is advanced to the next end whenever the set is pending.
\<close>

definition sleeping :: "nat \<Rightarrow> nat \<times> 'e option \<Rightarrow> ('e + unit) option" where
  "sleeping now = (\<lambda>(ends, failure).
     if ends \<le> now then Some (case failure of None \<Rightarrow> Inr () | Some e \<Rightarrow> Inl e) else None)"

definition test_set :: "(nat, nat \<times> string option) task_set" where
  "test_set = add_handle 3 (10, Some ''panic'') (add_handle 2 (5, None) (add_handle 1 (15, None) task_set_new))"

definition after_joins :: "nat list \<Rightarrow> (nat, nat \<times> string option) task_set res" where
  "after_joins moments = fold (\<lambda>now r. and_then r (\<lambda>ts. map_res snd (join_next (sleeping now) ts))) moments (Ok test_set)"

definition joined_at :: "nat list \<Rightarrow> nat \<Rightarrow> (nat \<times> (string + unit)) option poll res" where
  "joined_at moments now = and_then (after_joins moments) (\<lambda>ts. map_res fst (join_next (sleeping now) ts))"

lemmas task_set_eval = joined_at_def after_joins_def test_set_def sleeping_def add_handle_def task_set_new_def
  join_next_def swap_remove_def upt_rec

lemma test_task_set:
  "joined_at [] 4 = Ok Pending"
  "joined_at [] 5 = Ok (Ready (Some (2, Inr ())))"
  "joined_at [5] 10 = Ok (Ready (Some (3, Inl ''panic'')))"
  "joined_at [5, 10] 15 = Ok (Ready (Some (1, Inr ())))"
  "joined_at [5, 10, 15] 15 = Ok (Ready None)"
  by (simp_all add: task_set_eval)

end
