(* ===== verification/Delivery.thy ===== *)
theory Delivery
  imports Broadcast
begin

text \<open>
  The broadcaster over a whole sequence of packages (\<open>Broadcast::run\<close> of
  \<open>chain-ops/src/task/broadcast.rs\<close>): once it has found the account's sequence number, it
  keeps it, and each further package needs a single transaction.
\<close>

section \<open>The attempt that counts\<close>

definition accepted :: "tx_response res \<Rightarrow> bool" where
  "accepted r \<longleftrightarrow> (case r of Inl _ \<Rightarrow> False | Inr response \<Rightarrow> code response \<noteq> SIGNATURE_VERIFICATION_ERROR_CODE)"

text \<open>
  An observation of the world that only an accepted transaction changes.
\<close>

definition quiet :: "('raw, 's) broadcast_env \<Rightarrow> ('s \<Rightarrow> 'x) \<Rightarrow> bool" where
  "quiet env obs \<longleftrightarrow>
     (\<forall>raw s. obs (snd (simulate env raw s)) = obs s) \<and>
     (\<forall>a s. obs (snd (query_account env a s)) = obs s) \<and>
     (\<forall>d s. obs (sleep env d s) = obs s) \<and>
     (\<forall>raw s. \<not> accepted (fst (sync env raw s)) \<longrightarrow> obs (snd (sync env raw s)) = obs s)"

lemma quiet_simps:
  assumes "quiet env obs"
  shows "simulate env raw s = (g, s') \<Longrightarrow> obs s' = obs s"
    and "query_account env a s = (r, s') \<Longrightarrow> obs s' = obs s"
    and "obs (sleep env d s) = obs s"
    and "sync env raw s = (q, s') \<Longrightarrow> \<not> accepted q \<Longrightarrow> obs s' = obs s"
  using assms unfolding quiet_def by (metis fst_conv snd_conv)+

lemma simulate_and_sign_quiet:
  assumes "quiet env obs" and "simulate_and_sign_tx cr env b tx hard fallback s = (r, s')"
  shows "obs s' = obs s"
  using assms(2)
  by (auto simp: simulate_and_sign_tx_def quiet_simps(1) [OF assms(1)] split: sum.splits prod.splits failure.splits)

lemma fetch_sequence_number_quiet:
  assumes "quiet env obs" and "fetch_sequence_number (query_account env) sg s = (r, sg', s')"
  shows "obs s' = obs s"
  using assms(2) quiet_simps(2) [OF assms(1)]
  by (auto simp: fetch_sequence_number_def split: prod.splits sum.splits)

lemma process_response_quiet:
  assumes "quiet env obs" and "process_response env response b s = (r, b', s')"
  shows "obs s' = obs s"
  using assms(2)
  by (auto simp: process_response_def Let_def split: if_splits sum.splits prod.splits
      dest: fetch_sequence_number_quiet [OF assms(1)])

text \<open>The broadcaster never changes its account, only the sequence number.\<close>

definition same_account :: "'key signer \<Rightarrow> 'key signer \<Rightarrow> bool" where
  "same_account sg sg' \<longleftrightarrow> sg\<lparr>sequence_number := 0\<rparr> = sg'\<lparr>sequence_number := 0\<rparr>"

lemma same_account_iff: "same_account sg sg' \<longleftrightarrow> sg' = sg\<lparr>sequence_number := sequence_number sg'\<rparr>"
  by (cases sg; cases sg') (auto simp: same_account_def)

lemma same_account_simps [simp]: "same_account sg sg" "same_account sg (sg'\<lparr>sequence_number := n\<rparr>) = same_account sg sg'"
  by (simp_all add: same_account_def)

lemma same_account_trans [trans]: "same_account a b \<Longrightarrow> same_account b c \<Longrightarrow> same_account a c"
  by (simp add: same_account_def)

lemma process_response_account:
  assumes "process_response env response b s = (r, b', s')"
  shows "same_account (signer b) (signer b')"
  using assms
  by (auto simp: process_response_def Let_def increment_sequence_number_def fetch_sequence_number_def
      split: if_splits sum.splits prod.splits)

text \<open>
  When a response is fed back, it is the node's answer to a transaction that was simulated
  and signed in a world in which no transaction had been accepted yet.
\<close>

definition last_attempt ::
  "('key, 'body, 'doc, 'raw) cosmrs \<Rightarrow> ('raw, 's) broadcast_env \<Rightarrow> ('s \<Rightarrow> 'x) \<Rightarrow> 'body tx_package \<Rightarrow>
     'key broadcast \<Rightarrow> 's \<Rightarrow> tx_response \<Rightarrow> 'key broadcast \<Rightarrow> 's \<Rightarrow> bool" where
  "last_attempt cr env obs pkg b s response b' s' \<longleftrightarrow>
     (\<exists>b0 t raw t1 t2. same_account (signer b) (signer b0) \<and> (broadcast_wf b \<longrightarrow> broadcast_wf b0) \<and> obs t = obs s \<and>
        simulate_and_sign_tx cr env b0 (tx_body pkg) (hard_gas_limit pkg) (fallback_gas pkg) t = (Ok raw, t1) \<and>
        obs t1 = obs s \<and> sync env raw t1 = (Ok response, t2) \<and> process_response env response b0 t2 = (Ok True, b', s'))"

lemma last_attempt_now:
  assumes "quiet env obs"
    and "simulate_and_sign_tx cr env b (tx_body pkg) (hard_gas_limit pkg) (fallback_gas pkg) s = (Ok raw, s1)"
    and "sync env raw s1 = (Ok response, s2)" and "process_response env response b s2 = (Ok True, b', s')"
  shows "last_attempt cr env obs pkg b s response b' s'"
  unfolding last_attempt_def
  by (intro exI [of _ b] exI [of _ s] exI [of _ raw] exI [of _ s1] exI [of _ s2])
    (simp add: assms(2-4) simulate_and_sign_quiet [OF assms(1,2)])

lemma last_attempt_later:
  assumes "last_attempt cr env obs pkg b1 s1 response b' s'" and "same_account (signer b) (signer b1)"
    and "broadcast_wf b \<longrightarrow> broadcast_wf b1" and "obs s1 = obs s"
  shows "last_attempt cr env obs pkg b s response b' s'"
proof -
  from assms(1) obtain b0 t raw t1 t2 where "same_account (signer b1) (signer b0)" "broadcast_wf b1 \<longrightarrow> broadcast_wf b0"
    "obs t = obs s1" "obs t1 = obs s1" "sync env raw t1 = (Ok response, t2)"
    "simulate_and_sign_tx cr env b0 (tx_body pkg) (hard_gas_limit pkg) (fallback_gas pkg) t = (Ok raw, t1)"
    "process_response env response b0 t2 = (Ok True, b', s')"
    unfolding last_attempt_def by blast
  with assms(2-4) same_account_trans [OF assms(2)] show ?thesis
    unfolding last_attempt_def
    by (intro exI [of _ b0] exI [of _ t] exI [of _ raw] exI [of _ t1] exI [of _ t2]) simp
qed

lemma broadcast_tx_last_attempt:
  assumes "broadcast_tx cr env pkg b s = Some (r, Some response, b', s')"
    and "quiet env obs" and "package_expiration pkg = NoExpiration"
  shows "last_attempt cr env obs pkg b s response b' s'"
proof -
  let ?P = "\<lambda>cr env pkg b s out. quiet env obs \<longrightarrow> package_expiration pkg = NoExpiration \<longrightarrow>
    (case out of (r, fb, b', s') \<Rightarrow> \<forall>response. fb = Some response \<longrightarrow> last_attempt cr env obs pkg b s response b' s')"
  have "?P cr env pkg b s (r, Some response, b', s')"
  proof (rule broadcast_tx.raw_induct [of ?P, OF _ assms(1)], goal_cases)
    case (1 f cr env pkg b s out)
    show ?case
    proof (intro impI)
      assume q: "quiet env obs" and e: "package_expiration pkg = NoExpiration"
      obtain signed s1 where sign:
        "simulate_and_sign_tx cr env b (tx_body pkg) (hard_gas_limit pkg) (fallback_gas pkg) s = (signed, s1)"
        by fastforce
      show "case out of (r, fb, b', s') \<Rightarrow>
          \<forall>response. fb = Some response \<longrightarrow> last_attempt cr env obs pkg b s response b' s'"
      proof (cases signed)
        case (Inl e)
        with 1(2) sign show ?thesis by (auto split: prod.splits)
      next
        case (Inr raw)
        note quiet1 = simulate_and_sign_quiet [OF q sign]
        obtain answer s2 where sync: "sync env raw s1 = (answer, s2)" by fastforce
        note unfolded = 1(2) [simplified sign Inr broadcast_with_expiration_def e with_expiration.simps prod.case sum.case sync]
        show ?thesis
        proof (cases answer rule: panics.cases)
          case (2 ms)
          with unfolded have again: "f cr env pkg b (sleep env (retry_delay_duration b) s2) = Some out" by simp
          have "\<not> accepted answer" by (simp add: 2 accepted_def)
          then have "obs (sleep env (retry_delay_duration b) s2) = obs s"
            using quiet_simps(3) [OF q] quiet_simps(4) [OF q sync] quiet1 by simp
          with 1(1) [OF again] q e show ?thesis by (auto split: prod.splits intro: last_attempt_later)
        next
          case (3 response)
          obtain r1 b1 s3 where pr: "process_response env response b s2 = (r1, b1, s3)" by (metis prod_cases3)
          show ?thesis
          proof (cases r1)
            case (Inl e)
            with unfolded pr 3 show ?thesis by auto
          next
            case finished: (Inr finished)
            show ?thesis
            proof (cases finished)
              case True
              with unfolded pr 3 finished sign Inr sync show ?thesis
                by (auto intro: last_attempt_now [OF q])
            next
              case False
              with unfolded pr 3 finished have again:
                "f cr env pkg b1 (sleep env (retry_delay_duration b1) s3) = Some out" by simp
              have "code response = 32" using process_response_done [of env response b s2] pr finished False by simp
              then have "\<not> accepted answer" by (simp add: 3 accepted_def SIGNATURE_VERIFICATION_ERROR_CODE_def)
              then have "obs (sleep env (retry_delay_duration b1) s3) = obs s"
                using quiet_simps(3) [OF q] quiet_simps(4) [OF q sync] quiet1 process_response_quiet [OF q pr] by simp
              with 1(1) [OF again] q e process_response_account [OF pr] process_response_wf [OF pr]
              show ?thesis by (auto split: prod.splits intro: last_attempt_later)
            qed
          qed
        qed (use unfolded in auto)
      qed
    qed
  qed
  with assms(2,3) show ?thesis by simp
qed



section \<open>The sequence number is kept\<close>

text \<open>
  The documented behaviour of a node when no one else uses the account: an accepted
  transaction moves its sequence number on, any other leaves it alone.
\<close>

definition owned_account :: "('raw, 's) broadcast_env \<Rightarrow> ('s \<Rightarrow> u64) \<Rightarrow> bool" where
  "owned_account env chain_sequence \<longleftrightarrow>
     (\<forall>raw s response s'. sync env raw s = (Ok response, s') \<longrightarrow>
        chain_sequence s' = chain_sequence s + (if code response = 0 then 1 else 0))"

text \<open>The broadcaster knows the account's sequence number.\<close>

definition in_sequence :: "('s \<Rightarrow> u64) \<Rightarrow> 'key signer \<Rightarrow> 'key broadcast \<Rightarrow> 's \<Rightarrow> bool" where
  "in_sequence chain_sequence sg b s \<longleftrightarrow>
     broadcast_wf b \<and> same_account sg (signer b) \<and> sequence_number (signer b) = chain_sequence s"

lemma process_response_in_sequence:
  assumes node: "sequence_checking_node cr env raw_sequence chain_sequence attempts sg pkg"
    and sg: "same_account sg (signer b)" and wf: "broadcast_wf b" and "code response \<noteq> 32"
    and "unat (sequence_number (signer b)) + 1 < 2 ^ 64"
    and chain: "chain_sequence t = sequence_number (signer b) + (if code response = 0 then 1 else 0)"
    and pr: "process_response env response b t = (Ok True, b', s')"
  shows "in_sequence chain_sequence sg b' s'" and "chain_sequence s' = chain_sequence t"
    and "code response = 0 \<Longrightarrow> s' = t"
proof -
  have inc: "increment_sequence_number (signer b) = Ok ((signer b)\<lparr>sequence_number := sequence_number (signer b) + 1\<rparr>)"
    using assms(5) by (rule increment_sequence_number_eq)
  have id: "account_id (signer b) = account_id sg" using sg by (cases sg; cases "signer b") (simp add: same_account_def)
  obtain t' where fetch: "fetch_sequence_number (query_account env) (signer b) t =
       (Ok (), (signer b)\<lparr>sequence_number := chain_sequence t\<rparr>, t')" "chain_sequence t' = chain_sequence t"
    by (rule query_account_returns [OF node id])
  have "broadcast_wf b'" using process_response_wf [OF pr wf] .
  moreover have "same_account sg (signer b')" using same_account_trans [OF sg process_response_account [OF pr]] .
  moreover have "sequence_number (signer b') = chain_sequence t \<and> chain_sequence s' = chain_sequence t \<and>
      (code response = 0 \<longrightarrow> s' = t)"
    using pr inc fetch chain assms(4)
    by (auto simp: process_response_def Let_def tx_code_from_def SIGNATURE_VERIFICATION_ERROR_CODE_def
        split: if_splits sum.splits prod.splits)
  ultimately show "in_sequence chain_sequence sg b' s'" and "chain_sequence s' = chain_sequence t"
    and "code response = 0 \<Longrightarrow> s' = t"
    by (simp_all add: in_sequence_def)
qed

text \<open>
  One package: the response fed back answers a transaction with the account's current
  sequence number, and afterwards the broadcaster knows the next one.
\<close>

lemma deliver_one:
  assumes node: "sequence_checking_node cr env raw_sequence chain_sequence attempts sg pkg"
    and own: "owned_account env chain_sequence" and quiet: "quiet env (\<lambda>s. (chain_sequence s, obs s))"
    and exp: "package_expiration pkg = NoExpiration" and b: "same_account sg (signer b)" "broadcast_wf b"
    and "unat (sequence_number (signer b)) + 5 < 2 ^ 64" and bound: "unat (chain_sequence s) + 1 < 2 ^ 64"
  obtains response b' s' b0 t raw t1 t2 where
    "broadcast_tx cr env pkg b s = Some (Ok (), Some response, b', s')" and "code response \<noteq> 32"
    and "attempts s' \<le> attempts s + (if sequence_number (signer b) = chain_sequence s then 1 else 6)"
    and "in_sequence chain_sequence sg b' s'"
    and "chain_sequence s' = chain_sequence s + (if code response = 0 then 1 else 0)"
    and "signer b0 = sg\<lparr>sequence_number := chain_sequence s\<rparr>" and "obs t = obs s" and "obs t1 = obs s"
    and "simulate_and_sign_tx cr env b0 (tx_body pkg) (hard_gas_limit pkg) (fallback_gas pkg) t = (Ok raw, t1)"
    and "raw_sequence raw = chain_sequence t1" and "sync env raw t1 = (Ok response, t2)" and "obs s' = obs t2"
    and "code response = 0 \<Longrightarrow> s' = t2"
proof -
  let ?n = "sequence_number (signer b)"
  have sg: "signer b = sg\<lparr>sequence_number := ?n\<rparr>" using b(1) by (simp add: same_account_iff)
  have wf: "consecutive_errors b < 5" using b(2) by (simp add: broadcast_wf_def)
  obtain response b' s' where bt: "broadcast_tx cr env pkg b s = Some (Ok (), Some response, b', s')"
    and code: "code response \<noteq> 32" and att: "attempts s' \<le> attempts s + (if ?n = chain_sequence s then 1 else 6)"
  proof (cases "?n = chain_sequence s")
    case True
    then show thesis using that broadcast_tx_reaches_matching [OF node _ exp wf bound] sg by fastforce
  next
    case False
    have "unat ?n + (5 - unat (consecutive_errors b)) < 2 ^ 64" using assms(7) by linarith
    with broadcast_tx_reaches_node [OF node exp sg wf _ bound] obtain response b' s' where
      "broadcast_tx cr env pkg b s = Some (Ok (), Some response, b', s')" "code response \<noteq> 32"
      "attempts s' \<le> attempts s + (6 - unat (consecutive_errors b))" by blast
    with False show thesis by (intro that [of response b' s']) auto
  qed
  from broadcast_tx_last_attempt [OF bt quiet exp] obtain b0 t raw t1 t2 where
    b0: "same_account (signer b) (signer b0)" "broadcast_wf b0" and obs: "chain_sequence t = chain_sequence s"
      "obs t = obs s" "chain_sequence t1 = chain_sequence s" "obs t1 = obs s"
    and sign: "simulate_and_sign_tx cr env b0 (tx_body pkg) (hard_gas_limit pkg) (fallback_gas pkg) t = (Ok raw, t1)"
    and sync: "sync env raw t1 = (Ok response, t2)" and pr: "process_response env response b0 t2 = (Ok True, b', s')"
    unfolding last_attempt_def using b(2) by auto
  have sg0: "signer b0 = sg\<lparr>sequence_number := sequence_number (signer b0)\<rparr>"
    using same_account_trans [OF b(1) b0(1)] by (simp add: same_account_iff)
  have raw: "raw_sequence raw = sequence_number (signer b0)"
    using simulate_and_sign_returns [OF node sg0, of "hard_gas_limit pkg" "fallback_gas pkg" t] sign by auto
  moreover have "raw_sequence raw = chain_sequence t1"
    using node sync code unfolding sequence_checking_node_def by (metis Inr_inject prod.inject)
  ultimately have seq: "sequence_number (signer b0) = chain_sequence s" using obs by simp
  have chain2: "chain_sequence t2 = chain_sequence s + (if code response = 0 then 1 else 0)"
    using own sync obs(3) by (simp add: owned_account_def)
  have bound0: "unat (sequence_number (signer b0)) + 1 < 2 ^ 64" using bound seq by simp
  note after = process_response_in_sequence
    [OF node same_account_trans [OF b(1) b0(1)] b0(2) code bound0 chain2 [folded seq] pr]
  have "obs s' = obs t2" using process_response_quiet [OF quiet pr] by simp
  with bt code att after chain2 sg0 seq obs sign sync \<open>raw_sequence raw = chain_sequence t1\<close> show thesis
    by (intro that [of response b' s' b0 t t1 raw t2]) simp_all
qed



section \<open>A whole run\<close>

text \<open>What the broadcaster relies on, for every package of a run.\<close>

definition deliverable ::
  "('key, 'body, 'doc, 'raw) cosmrs \<Rightarrow> ('raw, 's) broadcast_env \<Rightarrow> ('raw \<Rightarrow> u64) \<Rightarrow> ('s \<Rightarrow> u64) \<Rightarrow>
     ('s \<Rightarrow> nat) \<Rightarrow> 'key signer \<Rightarrow> 'body tx_package \<Rightarrow> bool" where
  "deliverable cr env raw_sequence chain_sequence attempts sg pkg \<longleftrightarrow>
     sequence_checking_node cr env raw_sequence chain_sequence attempts sg pkg \<and>
     package_expiration pkg = NoExpiration \<and> fallback_gas pkg \<le> hard_gas_limit pkg"

text \<open>
  A response that answers a package: the node gave it for a transaction that holds the
  package's body, signed by the broadcaster with at most the package's hard gas limit.
\<close>

definition answers ::
  "('key, 'body, 'doc, 'raw) cosmrs \<Rightarrow> ('raw, 's) broadcast_env \<Rightarrow> 'key signer \<Rightarrow> 'body tx_package \<Rightarrow>
     tx_response \<Rightarrow> bool" where
  "answers cr env sg pkg response \<longleftrightarrow> code response \<noteq> SIGNATURE_VERIFICATION_ERROR_CODE \<and>
     (\<exists>n limit raw t t'. signer_tx cr (sg\<lparr>sequence_number := n\<rparr>) (tx_body pkg) limit = Ok raw \<and>
        limit \<le> hard_gas_limit pkg \<and> sync env raw t = (Ok response, t'))"

lemma deliver_package:
  assumes pkg: "deliverable cr env raw_sequence chain_sequence attempts sg pkg"
    and own: "owned_account env chain_sequence" and quiet: "quiet env chain_sequence"
    and b: "same_account sg (signer b)" "broadcast_wf b"
    and "unat (sequence_number (signer b)) + 5 < 2 ^ 64" and "unat (chain_sequence s) + 1 < 2 ^ 64"
  obtains response b' s' where "broadcast_tx cr env pkg b s = Some (Ok (), Some response, b', s')"
    and "answers cr env sg pkg response" and "in_sequence chain_sequence sg b' s'"
    and "unat (chain_sequence s') \<le> unat (chain_sequence s) + 1"
    and "attempts s' \<le> attempts s + (if sequence_number (signer b) = chain_sequence s then 1 else 6)"
proof -
  have node: "sequence_checking_node cr env raw_sequence chain_sequence attempts sg pkg"
    and exp: "package_expiration pkg = NoExpiration" and le: "fallback_gas pkg \<le> hard_gas_limit pkg"
    using pkg by (simp_all add: deliverable_def)
  have "quiet env (\<lambda>s. (chain_sequence s, ()))" using quiet by (simp add: quiet_def)
  from deliver_one [OF node own this exp b assms(6,7)] obtain response b' s' b0 t t1 raw t2 where
    bt: "broadcast_tx cr env pkg b s = Some (Ok (), Some response, b', s')" and code: "code response \<noteq> 32"
    and att: "attempts s' \<le> attempts s + (if sequence_number (signer b) = chain_sequence s then 1 else 6)"
    and seq: "in_sequence chain_sequence sg b' s'"
    and chain: "chain_sequence s' = chain_sequence s + (if code response = 0 then 1 else 0)"
    and b0: "signer b0 = sg\<lparr>sequence_number := chain_sequence s\<rparr>"
    and sign: "simulate_and_sign_tx cr env b0 (tx_body pkg) (hard_gas_limit pkg) (fallback_gas pkg) t = (Ok raw, t1)"
    and sync: "sync env raw t1 = (Ok response, t2)"
    by metis
  obtain limit where "signer_tx cr (signer b0) (tx_body pkg) limit = Ok raw" "limit \<le> hard_gas_limit pkg"
    using signed_gas_within_limit [OF sign le] by blast
  then have "answers cr env sg pkg response"
    using b0 sync code unfolding answers_def SIGNATURE_VERIFICATION_ERROR_CODE_def by metis
  moreover have "unat (chain_sequence s') \<le> unat (chain_sequence s) + 1"
    using assms(7) by (simp add: chain unat_word_ariths)
  ultimately show thesis using that bt seq att by blast
qed

lemma broadcast_run_step:
  assumes "broadcast_tx cr env pkg b s = Some (Ok (), Some response, b1, s1)"
    and "broadcast_run cr env pkgs b1 (sleep env (delay_duration b1) s1) = Some (r, map Some responses, b', s')"
  shows "broadcast_run cr env (pkg # pkgs) b s = Some (r, map Some (response # responses), b', s')"
  using assms by simp

lemma broadcast_run_in_sequence:
  assumes "owned_account env chain_sequence" and "quiet env chain_sequence"
  shows "list_all (deliverable cr env raw_sequence chain_sequence attempts sg) pkgs \<Longrightarrow>
    in_sequence chain_sequence sg b s \<Longrightarrow> unat (chain_sequence s) + length pkgs + 5 < 2 ^ 64 \<Longrightarrow>
    \<exists>responses b' s'. broadcast_run cr env pkgs b s =
        Some (Err [''Transaction receiving channel closed!''], map Some responses, b', s') \<and>
      list_all2 (answers cr env sg) pkgs responses \<and> attempts s' \<le> attempts s + length pkgs"
proof (induction pkgs arbitrary: b s)
  case Nil
  then show ?case by simp
next
  case (Cons pkg pkgs)
  have b: "same_account sg (signer b)" "broadcast_wf b" "sequence_number (signer b) = chain_sequence s"
    using Cons.prems(2) by (simp_all add: in_sequence_def)
  have pkg: "deliverable cr env raw_sequence chain_sequence attempts sg pkg" using Cons.prems(1) by simp
  have bounds: "unat (sequence_number (signer b)) + 5 < 2 ^ 64" "unat (chain_sequence s) + 1 < 2 ^ 64"
    using Cons.prems(3) b(3) by simp_all
  obtain response b1 s1 where bt: "broadcast_tx cr env pkg b s = Some (Ok (), Some response, b1, s1)"
      and ans: "answers cr env sg pkg response" and seq: "in_sequence chain_sequence sg b1 s1"
      and chain: "unat (chain_sequence s1) \<le> unat (chain_sequence s) + 1" and att: "attempts s1 \<le> attempts s + 1"
    by (rule deliver_package [OF pkg assms b(1,2) bounds]) (use b(3) in simp)
  let ?s = "sleep env (delay_duration b1) s1"
  have sleep: "chain_sequence ?s = chain_sequence s1" "attempts ?s = attempts s1"
    using pkg by (simp_all add: deliverable_def sequence_checking_node_def)
  have "in_sequence chain_sequence sg b1 ?s" using seq sleep by (simp add: in_sequence_def)
  moreover have "unat (chain_sequence ?s) + length pkgs + 5 < 2 ^ 64" using Cons.prems(3) chain sleep by simp
  ultimately obtain responses b' s' where run: "broadcast_run cr env pkgs b1 ?s =
      Some (Err [''Transaction receiving channel closed!''], map Some responses, b', s')"
      "list_all2 (answers cr env sg) pkgs responses" "attempts s' \<le> attempts ?s + length pkgs"
    using Cons.IH [of b1 ?s] Cons.prems(1) by auto
  with broadcast_run_step [OF bt run(1)] ans att sleep show ?case
    by (intro exI [of _ "response # responses"] exI [of _ b'] exI [of _ s']) simp
qed



end
