(* ===== verification/Alarms_Delivery.thy ===== *)
theory Alarms_Delivery
  imports Alarms Delivery
begin

text \<open>
  From an alarm to the chain: an alarms generator
  (\<open>alarms-dispatcher/src/task/alarms_generator.rs\<close>), the broadcaster
  (\<open>chain-ops/src/task/broadcast.rs\<close>) to which it sends its packages, and the waiting for their
  inclusion (\<open>chain-ops/src/tx.rs\<close>), put together over one node.
\<close>

section \<open>The generator over the broadcaster\<close>

text \<open>
  The broadcaster takes the packages in the order in which they were sent: first those of
  other tasks that were sent before, then the generator's.  The result is that of
  broadcasting the last one.
\<close>

fun serve ::
  "('key, 'body, 'doc, 'raw) cosmrs \<Rightarrow> ('raw, 's) broadcast_env \<Rightarrow> 'body tx_package list \<Rightarrow> 'body tx_package \<Rightarrow>
     'key broadcast \<Rightarrow> 's \<Rightarrow> (unit res \<times> tx_response option \<times> 'key broadcast \<times> 's) option" where
  "serve cr env [] pkg b s = broadcast_tx cr env pkg b s"
| "serve cr env (p # ps) pkg b s =
     (case broadcast_tx cr env p b s of
        None \<Rightarrow> None
      | Some (Inl e, fb, b', s') \<Rightarrow> Some (Inl e, None, b', s')
      | Some (Inr _, fb, b', s') \<Rightarrow> serve cr env ps pkg b' (sleep env (delay_duration b') s'))"

text \<open>
  The receiver of the response gets an error when the package is dropped without one.  A
  broadcaster that never gets to an end would leave it waiting for ever; that this does not
  happen is part of what is shown below.
\<close>

definition await_feedback ::
  "('key, 'body, 'doc, 'raw) cosmrs \<Rightarrow> ('raw, 's) broadcast_env \<Rightarrow> 'body tx_package list \<times> 'body tx_package \<Rightarrow>
     ('key broadcast \<times> 's, tx_response) eff" where
  "await_feedback cr env = (\<lambda>(before, pkg) (b, s).
     (case serve cr env before pkg b s of
        Some (Inr _, Some response, b', s') \<Rightarrow> (Ok response, (b', s'))
      | Some (_, _, b', s') \<Rightarrow> (Err [''channel closed''], (b', s'))
      | None \<Rightarrow> (Err [''channel closed''], (b, s))))"

definition beside :: "('s \<Rightarrow> 'a \<times> 's) \<Rightarrow> 'b \<times> 's \<Rightarrow> 'a \<times> ('b \<times> 's)" where
  "beside f = (\<lambda>(b, s). case f s of (r, s') \<Rightarrow> (r, (b, s')))"

text \<open>\<open>before s\<close> are the packages of other tasks that the broadcaster has not taken yet in \<open>s\<close>.\<close>

definition served_alarms_env ::
  "('key, 'any tx_body, 'doc, 'raw) cosmrs \<Rightarrow> ('raw, 's) broadcast_env \<Rightarrow>
     ('s \<Rightarrow> 'any tx_body tx_package list) \<Rightarrow> ('any, 'chan, 'rx, 's) alarms_env \<Rightarrow>
     ('any, 'chan, 'any tx_body tx_package list \<times> 'any tx_body tx_package, 'key broadcast \<times> 's) alarms_env" where
  "served_alarms_env cr env before base =
     \<lparr>smart_version = \<lambda>a m. beside (smart_version base a m),
      smart_status = \<lambda>a m. beside (smart_status base a m),
      send_package = \<lambda>_ pkg (b, s). (Ok (before s, pkg), (b, s)),
      await_response = await_feedback cr env,
      alarms_tx_env =
        \<lparr>query_tx = \<lambda>hash. beside (query_tx (alarms_tx_env base) hash),
         env_sleep = \<lambda>d (b, s). (b, env_sleep (alarms_tx_env base) d s),
         clock = \<lambda>(b, s). clock (alarms_tx_env base) s\<rparr>,
      alarms_decoders = alarms_decoders base,
      alarms_sleep = \<lambda>d (b, s). (b, alarms_sleep base d s)\<rparr>"


section \<open>The node and its contract\<close>

text \<open>
  What is relied on of the code outside of the repository.  Signing: a transaction shows
  its body and its gas limit.  The node: it checks sequence numbers, no one else uses the
  account, a simulation tells the gas that the call needs.  The contract: a call that
  comes with enough gas is included in time and dispatches as many pending alarms as it
  may; transactions with other bodies leave its alarms alone.
\<close>

definition shows_body_and_gas ::
  "('key, 'body, 'doc, 'raw) cosmrs \<Rightarrow> 'key signer \<Rightarrow> ('raw \<Rightarrow> 'body) \<Rightarrow> ('raw \<Rightarrow> gas) \<Rightarrow> bool" where
  "shows_body_and_gas cr sg raw_body raw_gas \<longleftrightarrow>
     (\<forall>n body limit raw. signer_tx cr (sg\<lparr>sequence_number := n\<rparr>) body limit = Ok raw \<longrightarrow>
        raw_body raw = body \<and> raw_gas raw = limit)"

definition alarms_contract ::
  "('raw, 's) broadcast_env \<Rightarrow> ('any, 'chan, 'rx, 's) alarms_env \<Rightarrow> ('any, 'chan) alarms_generator \<Rightarrow>
     ('raw \<Rightarrow> 'any tx_body) \<Rightarrow> ('raw \<Rightarrow> gas) \<Rightarrow> ('raw \<Rightarrow> u64) \<Rightarrow> ('s \<Rightarrow> u64) \<Rightarrow> ('s \<Rightarrow> gas) \<Rightarrow> ('s \<Rightarrow> nat) \<Rightarrow> bool" where
  "alarms_contract env base gen raw_body raw_gas raw_sequence chain_sequence needed pending \<longleftrightarrow>
     (\<forall>raw s. \<exists>s'. simulate env raw s = (Ok (needed s), s')) \<and>
     (\<forall>raw s. raw_body raw \<noteq> generator_tx_body gen \<longrightarrow> pending (snd (sync env raw s)) = pending s) \<and>
     (\<forall>raw s. raw_body raw = generator_tx_body gen \<and> raw_sequence raw = chain_sequence s \<and> needed s \<le> raw_gas raw \<longrightarrow>
        (\<exists>response s1 delivered s2 k. sync env raw s = (Ok response, s1) \<and> code response = 0 \<and>
           query_tx (alarms_tx_env base) (txhash response) s1 = (Ok (Some delivered), s2) \<and>
           clock (alarms_tx_env base) s2 \<le> clock (alarms_tx_env base) s1 + generator_timeout_duration gen * 5 \<and>
           code delivered = 0 \<and> decode_execute_response (alarms_decoders base) delivered = Ok k \<and>
           unat k = min (pending s) (unat (alarms_per_message gen)) \<and> pending s2 = pending s - unat k \<and>
           chain_sequence s2 = chain_sequence s1))"

definition others_deliverable ::
  "('key, 'any tx_body, 'doc, 'raw) cosmrs \<Rightarrow> ('raw, 's) broadcast_env \<Rightarrow> ('raw \<Rightarrow> u64) \<Rightarrow> ('s \<Rightarrow> u64) \<Rightarrow>
     ('s \<Rightarrow> nat) \<Rightarrow> 'key signer \<Rightarrow> ('any, 'chan) alarms_generator \<Rightarrow> nat \<Rightarrow> ('s \<Rightarrow> 'any tx_body tx_package list) \<Rightarrow> bool" where
  "others_deliverable cr env raw_sequence chain_sequence attempts sg gen most before \<longleftrightarrow>
     (\<forall>s. length (before s) \<le> most \<and>
        list_all (\<lambda>pkg. deliverable cr env raw_sequence chain_sequence attempts sg pkg \<and>
          tx_body pkg \<noteq> generator_tx_body gen) (before s))"

text \<open>
  The broadcaster can go on as long as the account's sequence number is not used up by
  the calls that the pending alarms may take and the packages between them.
\<close>

definition can_serve ::
  "('s \<Rightarrow> u64) \<Rightarrow> 'key signer \<Rightarrow> nat \<Rightarrow> ('s \<Rightarrow> nat) \<Rightarrow> 'key broadcast \<times> 's \<Rightarrow> bool" where
  "can_serve chain_sequence sg most pending = (\<lambda>(b, s).
     consecutive_errors b < 5 \<and> same_account sg (signer b) \<and> unat (sequence_number (signer b)) + 5 < 2 ^ 64 \<and>
     unat (chain_sequence s) + (pending s + 1) * (most + 1) + 5 < 2 ^ 64)"


section \<open>The packages of other tasks\<close>

lemma serve_others:
  assumes own: "owned_account env chain_sequence" and quiet: "quiet env (\<lambda>s. (chain_sequence s, pending s, needed s))"
    and shows_body: "shows_body_and_gas cr sg raw_body raw_gas"
    and contract: "alarms_contract env base gen raw_body raw_gas raw_sequence chain_sequence needed pending"
  shows "list_all (\<lambda>pkg. deliverable cr env raw_sequence chain_sequence attempts sg pkg \<and>
      tx_body pkg \<noteq> generator_tx_body gen) ps \<Longrightarrow>
    same_account sg (signer b) \<Longrightarrow> broadcast_wf b \<Longrightarrow> unat (sequence_number (signer b)) + 5 < 2 ^ 64 \<Longrightarrow>
    unat (chain_sequence s) + length ps + 5 < 2 ^ 64 \<Longrightarrow>
    \<exists>b' s'. serve cr env ps pkg b s = broadcast_tx cr env pkg b' s' \<and> same_account sg (signer b') \<and>
      broadcast_wf b' \<and> unat (sequence_number (signer b')) + 5 < 2 ^ 64 \<and> pending s' = pending s \<and>
      unat (chain_sequence s') \<le> unat (chain_sequence s) + length ps"
proof (induction ps arbitrary: b s)
  case Nil
  then show ?case by auto
next
  case (Cons p ps)
  have p: "sequence_checking_node cr env raw_sequence chain_sequence attempts sg p"
      "package_expiration p = NoExpiration" "fallback_gas p \<le> hard_gas_limit p" "tx_body p \<noteq> generator_tx_body gen"
    using Cons.prems(1) by (simp_all add: deliverable_def)
  have "unat (chain_sequence s) + 1 < 2 ^ 64" using Cons.prems(5) by simp
  from deliver_one [OF p(1) own quiet p(2) Cons.prems(2-4) this]
  obtain response b1 s1 b0 t t1 raw t2 where bt: "broadcast_tx cr env p b s = Some (Ok (), Some response, b1, s1)"
    and seq: "in_sequence chain_sequence sg b1 s1"
    and chain: "chain_sequence s1 = chain_sequence s + (if code response = 0 then 1 else 0)"
    and b0: "signer b0 = sg\<lparr>sequence_number := chain_sequence s\<rparr>"
    and obs: "(pending t1, needed t1) = (pending s, needed s)" "(pending s1, needed s1) = (pending t2, needed t2)"
    and sign: "simulate_and_sign_tx cr env b0 (tx_body p) (hard_gas_limit p) (fallback_gas p) t = (Ok raw, t1)"
    and sync: "sync env raw t1 = (Ok response, t2)" by metis
  obtain limit where "signer_tx cr (signer b0) (tx_body p) limit = Ok raw"
    using signed_gas_within_limit [OF sign p(3)] by blast
  then have "raw_body raw = tx_body p" using shows_body b0 unfolding shows_body_and_gas_def by metis
  then have "pending t2 = pending t1" using contract p(4) sync unfolding alarms_contract_def by (metis snd_conv)
  then have pending: "pending s1 = pending s" using obs by simp
  have chain_le: "unat (chain_sequence s1) \<le> unat (chain_sequence s) + 1"
    using Cons.prems(5) by (simp add: chain unat_word_ariths)
  let ?s = "sleep env (delay_duration b1) s1"
  have sleep: "chain_sequence ?s = chain_sequence s1" "pending ?s = pending s1"
    using quiet_simps(3) [OF quiet] by simp_all
  have b1: "same_account sg (signer b1)" "broadcast_wf b1" "sequence_number (signer b1) = chain_sequence s1"
    using seq by (simp_all add: in_sequence_def)
  have "unat (sequence_number (signer b1)) + 5 < 2 ^ 64" "unat (chain_sequence ?s) + length ps + 5 < 2 ^ 64"
    using chain_le Cons.prems(5) b1(3) sleep by simp_all
  from Cons.IH [OF _ b1(1,2) this] Cons.prems(1) show ?case
    using bt pending chain_le sleep by fastforce
qed


section \<open>The generator's own package\<close>

lemma signed_with_enough_gas:
  assumes "gas_conf_wf (gas_and_fee_conf (signer b))"
    and "gas_adjustment_denominator (gas_and_fee_conf (signer b)) \<le> gas_adjustment_numerator (gas_and_fee_conf (signer b))"
    and sim: "\<And>raw s. \<exists>s'. simulate env raw s = (Ok (needed s), s')" and "needed t \<le> hard"
    and sign: "simulate_and_sign_tx cr env b tx hard fallback t = (Ok raw, t1)"
  shows "\<exists>limit. signer_tx cr (signer b) tx limit = Ok raw \<and> needed t \<le> limit"
proof -
  let ?conf = "gas_and_fee_conf (signer b)"
  from sign obtain raw0 where "signer_tx cr (signer b) tx hard = Ok raw0"
    by (auto simp: simulate_and_sign_tx_def split: sum.splits)
  with sign sim [of raw0 t] have "tx_with_gas_adjustment cr (signer b) tx (needed t) hard = Ok raw"
    by (auto simp: simulate_and_sign_tx_def)
  then obtain adjusted where adj: "calculate_gas ?conf (needed t) = Ok adjusted"
      and raw: "signer_tx cr (signer b) tx (min adjusted hard) = Ok raw"
    by (auto simp: tx_with_gas_adjustment_def min_def)
  let ?num = "unat (gas_adjustment_numerator ?conf)" and ?den = "unat (gas_adjustment_denominator ?conf)"
  have "unat adjusted = unat (needed t) * ?num div ?den"
    using adj by (auto simp: calculate_gas_eq [OF assms(1)] Let_def unat_of_nat split: if_splits)
  moreover have "0 < ?den" using assms(1) by (simp add: gas_conf_wf_def unat_gt_0)
  then have "unat (needed t) = unat (needed t) * ?den div ?den" by simp
  moreover have "unat (needed t) * ?den div ?den \<le> unat (needed t) * ?num div ?den"
    using assms(2) by (intro div_le_mono mult_le_mono2) (simp add: word_le_nat_alt)
  ultimately have "needed t \<le> adjusted" by (simp add: word_le_nat_alt)
  with assms(4) raw show ?thesis by (intro exI [of _ "min adjusted hard"]) simp
qed

lemma serve_delivers:
  assumes own: "owned_account env chain_sequence" and quiet: "quiet env (\<lambda>s. (chain_sequence s, pending s, needed s))"
    and shows_body: "shows_body_and_gas cr sg raw_body raw_gas"
    and contract: "alarms_contract env base gen raw_body raw_gas raw_sequence chain_sequence needed pending"
    and others: "others_deliverable cr env raw_sequence chain_sequence attempts sg gen most before"
    and node: "sequence_checking_node cr env raw_sequence chain_sequence attempts sg (alarms_package gen hard_limit f)"
    and conf: "gas_conf_wf (gas_and_fee_conf sg)"
      "gas_adjustment_denominator (gas_and_fee_conf sg) \<le> gas_adjustment_numerator (gas_and_fee_conf sg)"
    and needed: "\<And>s. needed s \<le> hard_limit" and ready: "can_serve chain_sequence sg most pending (b, s)"
  obtains response b' s' delivered s2 k where
    "serve cr env (before s) (alarms_package gen hard_limit f) b s = Some (Ok (), Some response, b', s')"
    and "code response = 0" and "in_sequence chain_sequence sg b' s'"
    and "query_tx (alarms_tx_env base) (txhash response) s' = (Ok (Some delivered), s2)"
    and "clock (alarms_tx_env base) s2 \<le> clock (alarms_tx_env base) s' + generator_timeout_duration gen * 5"
    and "code delivered = 0" and "decode_execute_response (alarms_decoders base) delivered = Ok k"
    and "unat k = min (pending s) (unat (alarms_per_message gen))" and "pending s2 = pending s - unat k"
    and "chain_sequence s2 = chain_sequence s'"
    and "unat (chain_sequence s2) \<le> unat (chain_sequence s) + most + 1"
proof -
  let ?pkg = "alarms_package gen hard_limit f"
  have len: "length (before s) \<le> most" using others by (simp add: others_deliverable_def)
  have room: "unat (chain_sequence s) + most + 1 + 5 < 2 ^ 64" using ready by (simp add: can_serve_def)
  have b: "same_account sg (signer b)" "broadcast_wf b" "unat (sequence_number (signer b)) + 5 < 2 ^ 64"
    using ready by (simp_all add: can_serve_def broadcast_wf_def)
  have "list_all (\<lambda>pkg. deliverable cr env raw_sequence chain_sequence attempts sg pkg \<and>
      tx_body pkg \<noteq> generator_tx_body gen) (before s)"
    using others by (simp add: others_deliverable_def)
  from serve_others [OF own quiet shows_body contract this b, of s ?pkg] len room
  obtain b1 s1 where serve: "serve cr env (before s) ?pkg b s = broadcast_tx cr env ?pkg b1 s1"
      and b1: "same_account sg (signer b1)" "broadcast_wf b1" "unat (sequence_number (signer b1)) + 5 < 2 ^ 64"
      and s1: "pending s1 = pending s" "unat (chain_sequence s1) \<le> unat (chain_sequence s) + length (before s)"
    by auto
  have "package_expiration ?pkg = NoExpiration" "unat (chain_sequence s1) + 1 < 2 ^ 64"
    using s1(2) len room by (simp_all add: alarms_package_def)
  from deliver_one [OF node own quiet this(1) b1 this(2)]
  obtain response b' s' b0 t t1 raw t2 where bt: "broadcast_tx cr env ?pkg b1 s1 = Some (Ok (), Some response, b', s')"
    and seq: "in_sequence chain_sequence sg b' s'"
    and chain: "chain_sequence s' = chain_sequence s1 + (if code response = 0 then 1 else 0)"
    and b0: "signer b0 = sg\<lparr>sequence_number := chain_sequence s1\<rparr>"
    and obs: "(pending t, needed t) = (pending s1, needed s1)" "(pending t1, needed t1) = (pending s1, needed s1)"
    and sign: "simulate_and_sign_tx cr env b0 (tx_body ?pkg) (hard_gas_limit ?pkg) (fallback_gas ?pkg) t = (Ok raw, t1)"
    and raw_seq: "raw_sequence raw = chain_sequence t1" and sync: "sync env raw t1 = (Ok response, t2)"
    and now: "code response = 0 \<longrightarrow> s' = t2" by metis
  have sim: "\<And>raw s. \<exists>s'. simulate env raw s = (Ok (needed s), s')" using contract by (simp add: alarms_contract_def)
  obtain limit where limit: "signer_tx cr (signer b0) (generator_tx_body gen) limit = Ok raw" "needed t \<le> limit"
    using signed_with_enough_gas [where needed = needed, OF _ _ sim _ sign] needed conf b0 by (auto simp: alarms_package_def)
  then have raw: "raw_body raw = generator_tx_body gen" "needed t1 \<le> raw_gas raw"
    using shows_body b0 obs unfolding shows_body_and_gas_def by auto
  from contract [unfolded alarms_contract_def, THEN conjunct2, THEN conjunct2, rule_format, of raw t1] raw raw_seq
  obtain delivered s2 k where del: "code response = 0"
      "query_tx (alarms_tx_env base) (txhash response) t2 = (Ok (Some delivered), s2)"
      "clock (alarms_tx_env base) s2 \<le> clock (alarms_tx_env base) t2 + generator_timeout_duration gen * 5"
      "code delivered = 0" "decode_execute_response (alarms_decoders base) delivered = Ok k"
      "unat k = min (pending t1) (unat (alarms_per_message gen))" "pending s2 = pending t1 - unat k"
      "chain_sequence s2 = chain_sequence t2"
    using sync by auto
  have "unat (chain_sequence s') \<le> unat (chain_sequence s) + most + 1"
    using s1(2) len room by (simp add: chain unat_word_ariths)
  with that [of response b' s' delivered s2 k] serve bt seq del now obs(2) s1(1) show thesis by simp
qed


section \<open>All alarms are dispatched\<close>

lemma served_chain_delivers:
  assumes own: "owned_account env chain_sequence" and quiet: "quiet env (\<lambda>s. (chain_sequence s, pending s, needed s))"
    and shows_body: "shows_body_and_gas cr sg raw_body raw_gas"
    and contract: "alarms_contract env base gen raw_body raw_gas raw_sequence chain_sequence needed pending"
    and others: "others_deliverable cr env raw_sequence chain_sequence attempts sg gen most before"
    and node: "\<And>f. sequence_checking_node cr env raw_sequence chain_sequence attempts sg (alarms_package gen hard_limit f)"
    and conf: "gas_conf_wf (gas_and_fee_conf sg)"
      "gas_adjustment_denominator (gas_and_fee_conf sg) \<le> gas_adjustment_numerator (gas_and_fee_conf sg)"
    and needed: "\<And>s. needed s \<le> hard_limit" and "0 < alarms_per_message gen"
    and "generator_timeout_duration gen * 5 < 2 ^ 64 * 1000000000"
  shows "delivering_chain (served_alarms_env cr env before base) gen hard_limit
    (can_serve chain_sequence sg most pending) (\<lambda>(b, s). pending s)"
  unfolding delivering_chain_def
proof (intro conjI allI impI)
  fix f bs
  assume ready: "can_serve chain_sequence sg most pending bs"
  obtain b s where bs: "bs = (b, s)" by fastforce
  obtain response b' s' delivered s2 k where
    served: "serve cr env (before s) (alarms_package gen hard_limit f) b s = Some (Ok (), Some response, b', s')"
    and code: "code response = 0" and seq: "in_sequence chain_sequence sg b' s'"
    and query: "query_tx (alarms_tx_env base) (txhash response) s' = (Ok (Some delivered), s2)"
      "clock (alarms_tx_env base) s2 \<le> clock (alarms_tx_env base) s' + generator_timeout_duration gen * 5"
      "code delivered = 0" "decode_execute_response (alarms_decoders base) delivered = Ok k"
    and k: "unat k = min (pending s) (unat (alarms_per_message gen))" "pending s2 = pending s - unat k"
    and chain: "chain_sequence s2 = chain_sequence s'" "unat (chain_sequence s2) \<le> unat (chain_sequence s) + most + 1"
    by (rule serve_delivers [OF own quiet shows_body contract others node conf needed ready [unfolded bs]])
  have again: "can_serve chain_sequence sg most pending (b', s2)" if "k = alarms_per_message gen"
  proof -
    have "0 < unat k" "unat k \<le> pending s" using that k(1) assms(10) by (simp_all add: unat_gt_0)
    then have "Suc (pending s2 + 1) * (most + 1) \<le> (pending s + 1) * (most + 1)"
      using k(2) by (intro mult_le_mono1) simp
    then show ?thesis using ready seq chain by (auto simp: can_serve_def bs in_sequence_def broadcast_wf_def)
  qed
  let ?env = "served_alarms_env cr env before base" and ?pkg = "alarms_package gen hard_limit f"
  show "\<exists>rx s1 accepted s2 delivered s3 k.
      send_package ?env (generator_transaction_tx gen) ?pkg bs = (Ok rx, s1) \<and>
      await_response ?env rx s1 = (Ok accepted, s2) \<and> code accepted = 0 \<and>
      query_tx (alarms_tx_env ?env) (txhash accepted) s2 = (Ok (Some delivered), s3) \<and>
      clock (alarms_tx_env ?env) s3 \<le> clock (alarms_tx_env ?env) s2 + generator_timeout_duration gen * 5 \<and>
      code delivered = 0 \<and> decode_execute_response (alarms_decoders ?env) delivered = Ok k \<and>
      unat k = min (case bs of (b, s) \<Rightarrow> pending s) (unat (alarms_per_message gen)) \<and>
      (case s3 of (b, s) \<Rightarrow> pending s) = (case bs of (b, s) \<Rightarrow> pending s) - unat k \<and>
      (k = alarms_per_message gen \<longrightarrow> can_serve chain_sequence sg most pending s3)"
    using served code query k again
    by (intro exI [of _ "(before s, ?pkg)"] exI [of _ bs] exI [of _ response] exI [of _ "(b', s')"]
        exI [of _ delivered] exI [of _ "(b', s2)"] exI [of _ k])
      (simp add: served_alarms_env_def await_feedback_def beside_def bs)
qed (rule assms(11))



section \<open>A small node\<close>

text \<open>
  A signature shows body, gas limit and sequence number.  The node keeps the account's
  sequence number, the pending alarms, the number dispatched last, and how many transactions
  it was sent; each call needs 100 gas.
\<close>

type_synonym example_raw = "string tx_body \<times> gas \<times> u64"

record example_world =
  world_sequence :: u64
  world_pending :: nat
  world_dispatched :: nat
  world_sent :: nat

definition showing_cosmrs :: "(unit, string tx_body, example_raw, example_raw) cosmrs" where
  "showing_cosmrs =
     \<lparr>coin_new = \<lambda>a d. Ok (Coin a d),
      sign_doc_new = \<lambda>body auth _ _. Ok (body, fee_gas_limit (signer_fee auth), signer_sequence auth),
      doc_sign = \<lambda>doc _. Ok doc, public_key_of = \<lambda>k. k, key_account_id = \<lambda>_ _. Ok ''account''\<rparr>"

definition dispatching_node :: "(example_raw, example_world) broadcast_env" where
  "dispatching_node =
     \<lparr>simulate = \<lambda>raw w. (Ok 100, w),
      sync = \<lambda>(body, limit, n) w.
        (let w = w\<lparr>world_sent := Suc (world_sent w)\<rparr> in
         if n \<noteq> world_sequence w then (Ok (example_response\<lparr>code := 32\<rparr>), w)
         else if limit < 100 then (Ok (example_response\<lparr>code := 11\<rparr>), w)
         else
           (Ok (example_response\<lparr>code := 0\<rparr>),
            (if body = generator_tx_body example_generator
             then w\<lparr>world_sequence := n + 1, world_dispatched := min (world_pending w) 5,
                    world_pending := world_pending w - min (world_pending w) 5\<rparr>
             else w\<lparr>world_sequence := n + 1\<rparr>))),
      query_account = \<lambda>_ w. (Ok \<lparr>account_number = 7, account_sequence = world_sequence w\<rparr>, w),
      sleep = \<lambda>_ w. w, now = \<lambda>_. 0\<rparr>"

definition dispatching_chain :: "(string, unit, unit, example_world) alarms_env" where
  "dispatching_chain =
     \<lparr>smart_version = \<lambda>_ _ w. (Ok (SemVer 0 4 4), w), smart_status = \<lambda>_ _ w. (Ok (0 < world_pending w), w),
      send_package = \<lambda>_ _ w. (Ok (), w), await_response = \<lambda>_ w. (Ok example_response, w),
      alarms_tx_env =
        \<lparr>query_tx = \<lambda>_ w. (Ok (Some (example_response\<lparr>response_data := to_dec (world_dispatched w)\<rparr>)), w),
         env_sleep = \<lambda>_ w. w, clock = \<lambda>_. 0\<rparr>,
      alarms_decoders = alarms_decoders example_chain,
      alarms_sleep = \<lambda>_ w. w\<rparr>"

text \<open>One package of another task waits before each of the generator's.\<close>

definition other_package :: "string tx_body tx_package" where
  "other_package =
     \<lparr>tx_body = (generator_tx_body example_generator)\<lparr>messages := [''other'']\<rparr>, source = ''other'',
      hard_gas_limit = 500, fallback_gas = 300, package_expiration = NoExpiration\<rparr>"

lemma showing_signs:
  "signer_tx showing_cosmrs (example_signer\<lparr>sequence_number := n\<rparr>) body limit = Ok (body, limit, n)"
proof -
  have "gas_conf_wf example_conf" by (simp add: example_conf_def gas_conf_wf_def)
  then obtain f where "calculate_fee example_conf limit = Ok f" using calculate_fee_eq by blast
  then show ?thesis by (simp add: signer_tx_def example_signer_def showing_cosmrs_def)
qed

lemma dispatching_node_owned: "owned_account dispatching_node world_sequence"
  by (auto simp: owned_account_def dispatching_node_def Let_def example_response_def split: if_splits)

lemma dispatching_node_quiet: "quiet dispatching_node (\<lambda>w. (world_sequence w, world_pending w, 100 :: gas))"
  by (auto simp: quiet_def dispatching_node_def Let_def example_response_def accepted_def
      SIGNATURE_VERIFICATION_ERROR_CODE_def)

lemma dispatching_node_checks:
  "sequence_checking_node showing_cosmrs dispatching_node (\<lambda>(body, limit, n). n) world_sequence world_sent
     example_signer pkg"
proof -
  have "is_ok (calculate_gas (gas_and_fee_conf example_signer) 100)"
    by (simp add: example_signer_def example_conf_def calculate_gas_def int_ops)
  then show ?thesis
    by (auto simp: sequence_checking_node_def showing_signs dispatching_node_def Let_def example_response_def)
qed

lemma dispatching_node_contract:
  "alarms_contract dispatching_node dispatching_chain example_generator fst (\<lambda>(body, limit, n). limit)
     (\<lambda>(body, limit, n). n) world_sequence (\<lambda>_. 100) world_pending"
proof -
  have small: "unat (of_nat (min n 5) :: u32) = min n 5" for n by (simp add: unat_of_nat)
  have parse: "parse_unsigned (to_dec (min n 5)) = Ok (of_nat (min n 5) :: u32)" for n
    using parse_to_dec [of "of_nat (min n 5) :: u32"] by (simp only: small)
  show ?thesis
    unfolding alarms_contract_def
    by (auto simp: dispatching_node_def dispatching_chain_def Let_def example_response_def
        decode_execute_response_def example_chain_def parse small)
      (auto simp: example_generator_def small)
qed


end
