(* ===== verification/Clients.thy ===== *)
theory Clients
  imports Node Feeder_Id
begin

text \<open>
  Handles on node clients (\<open>chain-ops/src/node/mod.rs\<close>).  A \<open>Client\<close> and the interfaces that
  \<open>define_interface!\<close> makes from it hold an \<open>Arc\<close> of one \<open>ClientInner\<close>: their clones and
  conversions copy the reference, never the client.  Here the clients live in a store and
  a handle is an index into it.  The feeders' cache of clients, one per network
  (\<open>market-data-feeder/src/task/id.rs\<close>), is put on top.
\<close>

section \<open>Handles\<close>

record ('endpoint, 'c) stored_client =
  stored_endpoint :: 'endpoint
  stored_inner :: "'c client_inner"

type_synonym ('endpoint, 'c) client_store = "('endpoint, 'c) stored_client list"

datatype client = Client (client_ref: nat)

datatype interface_kind =
    BroadcastTx | QueryAuth | QueryBank | QueryRaw | QueryReflection | QueryTendermint | QueryTx | QueryWasm

datatype interface = Interface (kind_of: interface_kind) (interface_ref: nat)

definition connect_client ::
  "('uri, 'endpoint, 'c, 's) transport \<Rightarrow> string \<Rightarrow> (('endpoint, 'c) client_store \<times> 's, client) eff" where
  "connect_client tr uri = (\<lambda>(store, s).
     (case client_connect tr uri s of
        (Inl e, s') \<Rightarrow> (Inl e, (store, s'))
      | (Inr (endpoint, inner), s') \<Rightarrow>
          (Ok (Client (length store)), (store @ [\<lparr>stored_endpoint = endpoint, stored_inner = inner\<rparr>], s'))))"

definition client_clone :: "client \<Rightarrow> client" where
  "client_clone c = Client (client_ref c)"

definition interface_new :: "interface_kind \<Rightarrow> nat \<Rightarrow> interface" where
  "interface_new kind inner = Interface kind inner"

text \<open>The methods \<open>broadcast_tx\<close>, \<open>query_auth\<close> and so on, one per kind.\<close>

definition client_interface :: "interface_kind \<Rightarrow> client \<Rightarrow> interface" where
  "client_interface kind c = interface_new kind (client_ref c)"

definition interface_clone :: "interface \<Rightarrow> interface" where
  "interface_clone i = Interface (kind_of i) (interface_ref i)"

text \<open>An operation on the client behind a reference, with the dialling of its endpoint.\<close>

definition on_client ::
  "('uri, 'endpoint, 'c, 's) transport \<Rightarrow> (('s, 'c) eff \<Rightarrow> ('c, 's, 'a) node_eff) \<Rightarrow> nat \<Rightarrow>
     ('endpoint, 'c) client_store \<Rightarrow> 's \<Rightarrow> 'a res \<times> ('endpoint, 'c) client_store \<times> 's" where
  "on_client tr operation ref store s =
     (let stored = store ! ref in
      case operation (endpoint_connect tr (stored_endpoint stored)) (stored_inner stored) s of
        (r, inner, s') \<Rightarrow> (r, store[ref := stored\<lparr>stored_inner := inner\<rparr>], s'))"

definition client_reconnect ::
  "('uri, 'endpoint, 'c, 's) transport \<Rightarrow> client \<Rightarrow> ('endpoint, 'c) client_store \<Rightarrow> 's \<Rightarrow>
     unit res \<times> ('endpoint, 'c) client_store \<times> 's" where
  "client_reconnect tr c = on_client tr reconnect (client_ref c)"

definition interface_reconnect ::
  "('uri, 'endpoint, 'c, 's) transport \<Rightarrow> interface \<Rightarrow> ('endpoint, 'c) client_store \<Rightarrow> 's \<Rightarrow>
     unit res \<times> ('endpoint, 'c) client_store \<times> 's" where
  "interface_reconnect tr i = on_client tr reconnect (interface_ref i)"

text \<open>Every other use of a handle goes through an interface.\<close>

definition interface_call ::
  "('uri, 'endpoint, 'c, 's) transport \<Rightarrow> (('s, 'c) eff \<Rightarrow> ('c, 's, 'a) node_eff) \<Rightarrow> interface \<Rightarrow>
     ('endpoint, 'c) client_store \<Rightarrow> 's \<Rightarrow> 'a res \<times> ('endpoint, 'c) client_store \<times> 's" where
  "interface_call tr operation i = on_client tr operation (interface_ref i)"

text \<open>The clients and interfaces that come from one connection.\<close>

inductive client_of :: "client \<Rightarrow> client \<Rightarrow> bool" for c where
  same: "client_of c c"
| cloned: "client_of c d \<Longrightarrow> client_of c (client_clone d)"

inductive interface_of :: "client \<Rightarrow> interface \<Rightarrow> bool" for c where
  made: "client_of c d \<Longrightarrow> interface_of c (client_interface kind d)"
| cloned_interface: "interface_of c i \<Longrightarrow> interface_of c (interface_clone i)"

lemma client_of_ref: "client_of c d \<Longrightarrow> client_ref d = client_ref c"
  by (induction rule: client_of.induct) (simp_all add: client_clone_def)

lemma interface_of_ref: "interface_of c i \<Longrightarrow> interface_ref i = client_ref c"
  by (induction rule: interface_of.induct)
    (simp_all add: client_interface_def interface_new_def interface_clone_def client_of_ref)


section \<open>One client behind many handles\<close>

lemma service_client_twice:
  assumes "service_client dial c s = (Ok channel, c', s')"
  shows "c' = \<lparr>should_reconnect = False, grpc = channel\<rparr> \<and> service_client dial' c' s'' = (Ok channel, c', s'')"
  using assms
  by (cases c) (auto simp: service_client_reconnects split: if_splits prod.splits sum.splits elim: panics.elims)

lemma on_client_service_twice:
  assumes "on_client tr service_client ref store s = (Ok channel, store', s')" and "ref < length store"
  shows "on_client tr service_client ref store' s'' = (Ok channel, store', s'')"
proof -
  let ?dial = "endpoint_connect tr (stored_endpoint (store ! ref))"
  obtain c' where c': "service_client ?dial (stored_inner (store ! ref)) s = (Ok channel, c', s')"
      "store' = store[ref := (store ! ref)\<lparr>stored_inner := c'\<rparr>]"
    using assms(1) by (auto simp: on_client_def Let_def split: prod.splits)
  note again = service_client_twice [OF c'(1), THEN conjunct2, of ?dial s'']
  show ?thesis using assms(2) by (simp add: on_client_def Let_def c'(2) again)
qed

lemma on_client_elsewhere:
  "on_client tr operation ref store s = (r, store', s') \<Longrightarrow> ref' \<noteq> ref \<Longrightarrow> store' ! ref' = store ! ref'"
  by (auto simp: on_client_def Let_def split: prod.splits)


section \<open>One client per network\<close>

text \<open>
  The cache of the service as its feeders are created: between two creations any calls are
  made on the clients, which stay where they are, and other clients may be connected.
\<close>

inductive cache_reachable ::
  "(client, ('endpoint, 'c) client_store \<times> 's) feeder_creation \<Rightarrow> client feeder_context \<Rightarrow>
     ('endpoint, 'c) client_store \<Rightarrow> bool" for env where
  empty_cache: "dex_node_clients ctx = [] \<Longrightarrow> cache_reachable env ctx store"
| creation: "cache_reachable env ctx store \<Longrightarrow>
    dex_node_client env net ctx (store, s) = (r, ctx', (store', s')) \<Longrightarrow> cache_reachable env ctx' store'"
| clients_used: "cache_reachable env ctx store \<Longrightarrow> length store \<le> length store' \<Longrightarrow> cache_reachable env ctx store'"

definition cache_inv :: "client feeder_context \<Rightarrow> ('endpoint, 'c) client_store \<Rightarrow> bool" where
  "cache_inv ctx store \<longleftrightarrow>
     (\<forall>net c. bt_get (dex_node_clients ctx) net = Some c \<longrightarrow> client_ref c < length store) \<and>
     (\<forall>net net' c c'. bt_get (dex_node_clients ctx) net = Some c \<and> bt_get (dex_node_clients ctx) net' = Some c' \<and>
        client_ref c = client_ref c' \<longrightarrow> net = net')"

lemma cache_inv_mono: "cache_inv ctx store \<Longrightarrow> length store \<le> length store' \<Longrightarrow> cache_inv ctx store'"
  unfolding cache_inv_def by (meson less_le_trans)

lemma connect_client_fresh:
  assumes "connect_client tr uri (store, s) = (r, (store', s'))"
  shows "length store \<le> length store'"
    and "r = Ok c \<Longrightarrow> client_ref c = length store \<and> length store' = Suc (length store)"
  using assms by (auto simp: connect_client_def split: prod.splits sum.splits)

lemma dex_node_client_cache_inv:
  assumes "connect env = connect_client tr" and "cache_inv ctx store"
    and "dex_node_client env net ctx (store, s) = (r, ctx', (store', s'))"
  shows "cache_inv ctx' store'"
proof (cases "bt_get (dex_node_clients ctx) net")
  case (Some c)
  with assms(2,3) show ?thesis by (simp add: dex_node_client_def)
next
  case None
  show ?thesis
  proof (cases "and_then (dex_node_grpc_var net) (read_string (creation_environment env))")
    case (Inl e)
    with assms(2,3) None show ?thesis by (simp add: dex_node_client_def)
  next
    case (Inr uri)
    obtain q store1 s1 where q: "connect_client tr uri (store, s) = (q, (store1, s1))" by (metis prod_cases3)
    note fresh = connect_client_fresh [OF q]
    show ?thesis
    proof (cases q)
      case (Inl e)
      with assms None Inr q fresh(1) show ?thesis
        by (auto simp: dex_node_client_def intro: cache_inv_mono)
    next
      case q: (Inr c)
      have "ctx' = ctx\<lparr>dex_node_clients := bt_insert net c (dex_node_clients ctx)\<rparr>" "store' = store1"
        using assms(1,3) None Inr \<open>connect_client tr uri (store, s) = _\<close> q by (simp_all add: dex_node_client_def)
      moreover have "client_ref c' < client_ref c" if "bt_get (dex_node_clients ctx) net' = Some c'" for net' c'
        using assms(2) that fresh(2) [OF q] by (simp add: cache_inv_def)
      ultimately show ?thesis
        using assms(2) fresh(2) [OF q] unfolding cache_inv_def
        by (auto simp: bt_get_insert intro: less_SucI dest: less_imp_neq split: if_splits) (metis less_irrefl)+
    qed
  qed
qed

lemma cache_reachable_inv:
  assumes "cache_reachable env ctx store" and "connect env = connect_client tr"
  shows "cache_inv ctx store"
  using assms(1)
proof induction
  case (creation ctx store net s r ctx' store' s')
  then show ?case using dex_node_client_cache_inv [OF assms(2)] by blast
qed (simp add: cache_inv_def, blast intro: cache_inv_mono)


text \<open>Channels are numbered; the client of one network was asked to reconnect.\<close>

definition example_transport :: "(string, string, nat, nat) transport" where
  "example_transport =
     \<lparr>parse_uri = Ok, uri_scheme = \<lambda>_. Some ''http'', plain_endpoint = \<lambda>uri. uri, tls_config = Ok,
      endpoint_connect = \<lambda>_ s. (Ok s, Suc s)\<rparr>"

definition sharing_creation :: "(client, (string, nat) client_store \<times> nat) feeder_creation" where
  "sharing_creation =
     \<lparr>query_protocol = \<lambda>_ s. (Err [''unavailable''], s), connect = connect_client example_transport,
      creation_environment = \<lambda>_. Ok ''http://dex'',
      creation_oracle =
        \<lparr>smart_version = \<lambda>_ _ s. (Ok (SemVer 0 5 15), s), smart_currencies = \<lambda>_ _ s. (Ok [], s),
         smart_currency_pairs = \<lambda>_ _ s. (Ok [], s), instant_now = \<lambda>_. 0\<rparr>\<rparr>"

definition sharing_context :: "(string, client) btree_map \<Rightarrow> client feeder_context" where
  "sharing_context clients =
     \<lparr>dex_node_clients = clients, context_duration_before_start = 0, gas_limit = 1000,
      update_currencies_interval = 60\<rparr>"

definition flagged_store :: "(string, nat) client_store" where
  "flagged_store = [\<lparr>stored_endpoint = ''http://dex'', stored_inner = \<lparr>should_reconnect = True, grpc = 3\<rparr>\<rparr>]"

lemma sharing_reachable:
  "cache_reachable sharing_creation (sharing_context [(''Osmosis'', Client 0)]) flagged_store"
proof -
  have "cache_reachable sharing_creation (sharing_context []) []"
    by (rule empty_cache) (simp add: sharing_context_def)
  moreover have "dex_node_client sharing_creation ''Osmosis'' (sharing_context []) ([], 3) =
      (Ok (Client 0), sharing_context [(''Osmosis'', Client 0)],
        ([\<lparr>stored_endpoint = ''http://dex'', stored_inner = \<lparr>should_reconnect = False, grpc = 3\<rparr>\<rparr>], 4))"
    by (simp add: dex_node_client_def sharing_creation_def sharing_context_def connect_client_def client_connect_def
        build_endpoint_def example_transport_def bind_eff_def lift_eff_def context_eff_def map_eff_def
        dex_node_grpc_var_def insert_underscores.simps is_char_boundary_def is_continuation_def
        is_ascii_uppercase_def read_string_def)
  ultimately have "cache_reachable sharing_creation (sharing_context [(''Osmosis'', Client 0)])
      [\<lparr>stored_endpoint = ''http://dex'', stored_inner = \<lparr>should_reconnect = False, grpc = 3\<rparr>\<rparr>]"
    by (rule creation)
  then show ?thesis by (rule clients_used) (simp add: flagged_store_def)
qed


end
