(* ===== verification/Supervisor_Test.thy ===== *)
theory Supervisor_Test
  imports Supervisor
begin

text \<open>
  The integration test of the supervisor (\<open>chain-ops/tests/supervisor\<close>): a supervisor over stub
  tasks that never end, whose stub protocol watcher adds two protocols and removes them
  again, while a counter shared by the application's tasks tells how many of them run.
\<close>

section \<open>The stub tasks\<close>

text \<open>An identifier is a structure whose one field is the protocol.\<close>

type_synonym test_id = string

datatype test_task = TestTask (test_task_protocol: string)

text \<open>
  A spawned task is first polled at some later time, an aborted one is dropped at some later
  time.  \<open>running\<close> holds the handle and the identifier of each task that was not dropped, and
  whether it was polled.
\<close>

record test_world =
  application_defined_tasks_count :: u64
  next_handle :: nat
  running :: "(nat \<times> test_id task_id \<times> bool) list"
  aborted :: "nat list"
  reports :: "test_id task_report list"

definition test_into_task :: "test_id \<Rightarrow> nat \<Rightarrow> (test_world, test_task) eff" where
  "test_into_task a chan w = (Ok (TestTask a), w)"

definition testing_env :: "(test_id, nat, nat, test_task, test_world) supervisor_env" where
  "testing_env =
     \<lparr>spawn = \<lambda>i task state w.
        (Ok (next_handle w),
         w\<lparr>next_handle := Suc (next_handle w), running := running w @ [(next_handle w, i, False)]\<rparr>),
      drop_token = \<lambda>h w. w\<lparr>aborted := h # aborted w\<rparr>,
      new_channel = \<lambda>w. (next_handle w, w\<lparr>next_handle := Suc (next_handle w)\<rparr>),
      into_task = test_into_task,
      application_id = test_task_protocol,
      application_protocol = Some,
      protocol_task_set_ids = \<lambda>protocol. [protocol],
      instant_now = \<lambda>w. 0, instant_checked_add = \<lambda>a b. Some (a + b),
      recv_result = \<lambda>w. (case reports w of [] \<Rightarrow> None | r # rs \<Rightarrow> Some (Some r, w\<lparr>reports := rs\<rparr>))\<rparr>"

text \<open>\<open>Task::run\<close> adds to the counter when it is first polled, \<open>Task::drop\<close> subtracts.\<close>

definition is_application :: "'a task_id \<Rightarrow> bool" where
  "is_application i = (case i of IdApplicationDefined _ \<Rightarrow> True | _ \<Rightarrow> False)"

definition test_task_run :: "test_id task_id \<Rightarrow> u64 \<Rightarrow> u64" where
  "test_task_run i count = (if is_application i then count + 1 else count)"

definition test_task_drop :: "test_id task_id \<Rightarrow> u64 \<Rightarrow> u64" where
  "test_task_drop i count = (if is_application i then count - 1 else count)"

text \<open>What the scheduler does while the watcher yields: it drops what was aborted and polls the rest.\<close>

definition yield_now :: "test_world \<Rightarrow> test_world" where
  "yield_now w =
     (let gone = filter (\<lambda>(h, _). h \<in> set (aborted w)) (running w);
          kept = filter (\<lambda>(h, _). h \<notin> set (aborted w)) (running w);
          count = fold (\<lambda>(_, i, polled). if polled then id else test_task_run i) kept
            (application_defined_tasks_count w) in
      w\<lparr>application_defined_tasks_count := fold (\<lambda>(_, i, _). test_task_drop i) gone count,
        running := map (\<lambda>(h, i, _). (h, i, True)) kept, aborted := [],
        reports := reports w @ map (\<lambda>(_, i, _). (i, TaskCancelled)) gone\<rparr>)"


section \<open>The test\<close>

datatype watcher_action = Send command | AwaitCount nat

definition testing_protocol_watcher_run :: "string list \<Rightarrow> watcher_action list" where
  "testing_protocol_watcher_run protocols =
     map (\<lambda>protocol. Send (ProtocolAdded protocol)) protocols @ [AwaitCount (length protocols)] @
     concat (map (\<lambda>(count, protocol). [Send (ProtocolRemoved protocol), AwaitCount count])
       (rev (enumerate 0 protocols)))"

text \<open>
  While the watcher waits, the reports that reached the supervisor are handled in their order.
  \<open>None\<close>: the supervisor fails, or the counter does not get to the awaited value.
\<close>

fun supervised ::
  "watcher_action list \<Rightarrow> (test_id, nat, nat) supervisor \<Rightarrow> test_world \<Rightarrow>
     ((test_id, nat, nat) supervisor \<times> test_world) option" where
  "supervised [] sv w = Some (sv, w)"
| "supervised (Send c # rest) sv w =
     (case supervisor_step testing_env (CommandReceived c) sv w of
        Some (Inr _, sv', w') \<Rightarrow> supervised rest sv' w'
      | _ \<Rightarrow> None)"
| "supervised (AwaitCount n # rest) sv w =
     (let w' = yield_now w in
      if application_defined_tasks_count w' = of_nat n
      then (case handle_reports testing_env (reports w') sv (w'\<lparr>reports := []\<rparr>) of
              Some (Inr _, sv', w'') \<Rightarrow> supervised rest sv' w''
            | _ \<Rightarrow> None)
      else None)"

definition initial_world :: test_world where
  "initial_world = \<lparr>application_defined_tasks_count = 0, next_handle = 0, running = [], aborted = [], reports = []\<rparr>"

text \<open>When the watcher is done the supervisor is dropped, with the tokens of its tasks.\<close>

definition supervisor_test :: "string list \<Rightarrow> bool" where
  "supervisor_test protocols \<longleftrightarrow>
     (case supervisor_new testing_env [] initial_world of
        (Inl _, _) \<Rightarrow> False
      | (Inr sv, w) \<Rightarrow>
          (case supervised (testing_protocol_watcher_run protocols) sv w of
             None \<Rightarrow> False
           | Some (sv', w') \<Rightarrow>
               application_defined_tasks_count (yield_now (drop_states testing_env (task_states sv') w')) = 0))"

lemma supervisor_test_passes: "supervisor_test [''1'', ''2'']"
  by code_simp

end
