(* ===== verification/Spec2Isabelle.thy ===== *)
theory Spec2Isabelle
  imports Built_In Log_Lines Alarms Reconnect App Channels Restart_Queue Log Bound_Checked
    Unit_Tests Alarms_Delivery Clients Supervisor_Test
begin

text \<open>
  \<^bold>\<open>Verification library of the oracle price feeder.\<close>

  The repository holds two off-chain services of the Nolus protocol over one library.
  \<open>market-data-feeder\<close> queries prices from decentralised exchanges and feeds them to the
  oracle contracts; \<open>alarms-dispatcher\<close> calls the oracle and time alarms contracts while
  they have alarms to deliver.  \<open>chain-ops\<close> is what both share: a supervisor that starts,
  restarts and stops tasks, a broadcaster that signs and sends transactions one after the
  other, a watcher of the registered protocols, a balance reporter, node clients,
  contract queries, the transaction helpers and the event loop of the process.

  \<^bold>\<open>How the parts interact.\<close>  \<open>service::run\<close> owns the join handles of all tasks and forwards
  their results to the supervisor.  The supervisor spawns the built-in tasks and the
  application's tasks, gives the latter the sending end of the broadcaster's channel, and
  reacts to task results, to the watcher's commands and to its restart queue.  A feeder or
  an alarms generator sends packages (body, hard gas limit, fallback gas, expiration) to
  the broadcaster and waits for the response, then polls the node until the transaction
  is included and adjusts its gas estimate.

  \<^bold>\<open>Conventions.\<close>  A fallible operation has the type \<open>'a res\<close>, whose failures are
  \<open>Error ms\<close> (the chain of an \<open>anyhow\<close> error) or \<open>Panic m\<close>; an effectful one is a function on
  a state \<open>'s\<close> that stands for the world (\<open>('s, 'a) eff\<close>).  Integers are words of the
  width the code uses, with \<open>+\<close>, \<open>-\<close>, \<open>*\<close> of debug builds as the \<open>_or_panic\<close> operations.
  Durations and instants are numbers of nanoseconds.  Ordered maps and sets are sorted
  association lists and lists.  Code outside the repository (gRPC and its transport,
  \<open>cosmrs\<close>, \<open>serde\<close>, \<open>tokio\<close>'s scheduler, the operating system) is a field of an
  environment record or an argument.  Loops that need not end are \<open>partial_function
  (option)\<close>, so that \<open>None\<close> is the value of a run that does not return; the loops of
  the event loop and of the feeder are given as turns over a description of what
  their futures yield at that time, so no fuel is needed anywhere.

  \<^bold>\<open>Theories.\<close>
  \<^item> \<open>Prelude\<close>: results, effects, checked and panicking machine arithmetic.
  \<^item> \<open>BTree\<close>: \<open>BTreeMap\<close> and \<open>BTreeSet\<close>, with the contract of an ordered map as a locale.
  \<^item> \<open>Digits\<close>: decimal strings, printing and parsing of unsigned integers.
  \<^item> \<open>Contract\<close> (\<open>chain-ops/src/contract\<close>): contract versions and the admin contract's queries.
  \<^item> \<open>Env\<close> (\<open>chain-ops/src/env.rs\<close>), \<open>Configuration\<close> (\<open>chain-ops/src/supervisor/configuration.rs\<close>,
    \<open>key.rs\<close>): reading the environment.
  \<^item> \<open>Node\<close> (\<open>chain-ops/src/node\<close>): the client, its reconnection and its queries; \<open>Reconnect\<close>: any
    number of tasks that share one client, each access to its flag and its lock a step;
    \<open>Clients\<close>: clients, their clones and their interfaces as references into a store of connections.
  \<^item> \<open>Signer\<close> (\<open>chain-ops/src/signer.rs\<close>), \<open>Tx\<close> (\<open>chain-ops/src/tx.rs\<close>): fees, gas and signatures;
    message templates, waiting for inclusion, the moving gas estimate.
  \<^item> \<open>Task\<close> (\<open>chain-ops/src/task/mod.rs\<close>), \<open>TaskSet\<close> (\<open>chain-ops/src/task_set.rs\<close>), \<open>Broadcast\<close>,
    \<open>Balance_Reporter\<close>, \<open>Protocol_Watcher\<close> (\<open>chain-ops/src/task\<close>), \<open>Supervisor\<close>
    (\<open>chain-ops/src/supervisor/mod.rs\<close>), \<open>Service\<close> (\<open>chain-ops/src/service\<close>, \<open>chain-ops/src/channel\<close>).
  \<^item> \<open>Restart_Queue\<close>: the supervisor's queue of deferred restarts over time; \<open>Built_In\<close>: tasks
    created from the configuration; \<open>Defer\<close> (\<open>chain-ops/src/defer.rs\<close>): the drop guard.
  \<^item> \<open>Channels\<close>: the two bounded channels between the event loop and the supervisor, as a
    step relation over how full they are and what each side is sending.
  \<^item> \<open>App\<close> (\<open>chain-ops/src/run.rs\<close>, \<open>macros.rs\<close>, \<open>service::run\<close>), \<open>Log\<close> (\<open>chain-ops/src/log.rs\<close>): the life
    of the process, and the log split into files by hour.
  \<^item> \<open>Alarms\<close> (\<open>services/alarms-dispatcher\<close>): generators, identifiers and task creation.
  \<^item> \<open>Delivery\<close>: whole runs of the broadcaster over an account that nobody else uses;
    \<open>Alarms_Delivery\<close>: a generator, the broadcaster that serves it among other tasks, and the
    waiting for inclusion, put together over one node.
  \<^item> \<open>Provider_Data\<close>, \<open>Oracle\<close>, \<open>Osmosis\<close>, \<open>Providers\<close>, \<open>Feeder\<close>, \<open>Feeder_Exit\<close>, \<open>Price_Format\<close>,
    \<open>Feeder_Id\<close>, \<open>Bound_Checked\<close> (\<open>services/market-data-feeder\<close>): amounts and pairs, the oracle's
    currencies, the normalisation of Osmosis spot prices, both providers' query messages,
    the feeding task by its turns and as a whole run with its end, its log format,
    identifiers and task creation, the range-checked byte.
  \<^item> \<open>Log_Lines\<close>: what the supervisor, the broadcaster and the feeder write to the log.
  \<^item> \<open>Price_Tests\<close> (\<open>providers/osmosis/test\<close>): the computation with which the tests check a
    normalised price, compared with the provider's; \<open>Unit_Tests\<close>: the unit tests' examples,
    evaluated on the definitions; \<open>Supervisor_Test\<close>: the integration test of the supervisor
    (\<open>chain-ops/tests/supervisor\<close>) with its stub tasks and its counter, run on the definitions.

  \<^bold>\<open>What is shown.\<close>  Prices: a normalised price never panics, is accepted exactly when the
  exponents allow it, and equals the spot price up to the digits that do not fit in 128
  bits.  Gas: the fee is the configured product, rounded down, and never overflows, the
  adjusted limit never exceeds the hard limit, the moving estimate is a weighted mean and stays under the hard
  limit for feeders and for alarms, from the generator to the signature.  Broadcasting:
  a signature failure is never fed back, and a package reaches a node that checks
  sequence numbers within six attempts; a whole run answers every package in order and
  spends at most five transactions in total on finding the sequence number; a generator served by the
  broadcaster ends its streak with no alarm left.  Supervision: no task that the
  supervisor should keep is ever forgotten, the third consecutive exit defers, the watched
  set and the tracked feeders follow the registry.  Feeding: a round queries each pair
  once, sends only what was collected in that round, and starts only on a new block.
  When a feeder ends, in whatever way, none of its queries runs on.  Restarts: once
  three minutes have passed since an entry was placed, no entry before it has to be waited
  for, but an entry for a task that runs already stops it.  Connections: at most one task reconnects a shared client at
  a time, as often as a channel was reported at most, and no call uses a channel reported
  before it began; feeders of one network share one connection, feeders of different
  networks none.  Tests: the property test of the normalisation draws exactly the prices
  that are accepted and passes on all of them but those that start with the digits of the
  largest value.  Process: no handle or result is lost in the event loop, a shutdown joins everything, the
  event loop and the supervisor never wait for each other's channel for ever, the process
  succeeds only after a stop signal, and a log line goes to the file of its hour.  Locales:
  \<open>ordered_map\<close> (for \<open>BTree\<close>), \<open>provider_messages\<close> (both providers), \<open>feeding\<close> (both
  feeders) and \<open>application_defined\<close> (both services).

  \<^bold>\<open>Not modelled.\<close>  The printed form of log lines; trait declarations without behaviour of
  their own (\<open>application_defined.rs\<close>) and accessors of single fields; signals on systems
  other than Unix; the wire formats produced by \<open>serde\<close> and \<open>prost\<close>; the comparisons
  of encodings in \<open>test-encoding-compatibility\<close>, whose two sides are both third-party code, and the
  random generation of strings for the property test.  The delivery theorems suppose an
  account used by this broadcaster only and packages without expiration, which is what
  the dispatcher sends.
\<close>


section \<open>Gas, from the generator to the signature\<close>


text \<open>
  C18: whatever the node answers and whatever the simulation says, a package that a turn of a
  feeder sends is signed, if it is signed at all, over a body that holds the encoding of a
  non-empty list of prices for distinct configured pairs, and with a gas limit of at most
  the hard limit configured for feeders.
\<close>

theorem prices_signed_within_hard_limit:
  assumes "feeding env" and "feeder_reachable env base f" and "sends_logged env sent"
    and "feeder_turn env base w f s = (r, f', s')" and "sent s' = sent s @ [pkg]"
    and "simulate_and_sign_tx cr benv b (tx_body pkg) (hard_gas_limit pkg) (fallback_gas pkg) t = (Ok raw, t')"
  shows "\<exists>limit prices. signer_tx cr (signer b) (tx_body pkg) limit = Ok raw \<and>
    limit \<le> feeder_hard_gas_limit base \<and>
    feeds_prices env (execute_template f) prices (tx_body pkg) \<and> prices \<noteq> [] \<and>
    distinct (map fed_pair prices) \<and> set (map fed_pair prices) \<subseteq> fst ` set (query_messages f)"
proof -
  from feeder_turn_valid_sends [OF assms(1-4)] assms(5) obtain prices where
    prices: "feeds_prices env (execute_template f) prices (tx_body pkg)" "prices \<noteq> []"
      "distinct (map fed_pair prices)" "set (map fed_pair prices) \<subseteq> fst ` set (query_messages f)"
      "hard_gas_limit pkg = feeder_hard_gas_limit base" "fallback_gas pkg \<le> hard_gas_limit pkg"
    by (auto simp: valid_sends_def)
  from signed_gas_within_limit [OF assms(6) prices(6)] prices show ?thesis by auto
qed

section \<open>The dispatcher's own tasks\<close>

text \<open>
  C23: as long as the broadcaster has not exited, whatever results and protocol commands
  arrive, the dispatcher never forgets its time alarms generator or a built-in task: each
  is running or waiting for its restart.
\<close>

theorem dispatcher_keeps_time_alarms:
  assumes "supervisor_reachable (alarms_supervisor_env any_from_msg platform_query protocol_query cfg ctx base)
    alarms_startup_tasks sv"
  shows "{IdBalanceReporter, IdBroadcast, IdProtocolWatcher, IdApplicationDefined TimeAlarmsGenerator} \<subseteq> tracked sv"
proof -
  have "i \<in> tracked sv"
    if "i \<in> {IdBalanceReporter, IdBroadcast, IdProtocolWatcher} \<union> IdApplicationDefined ` set alarms_startup_tasks" for i
    using alarms.reachable_tracks [OF assms that] that
    by (auto simp: alarms_startup_tasks_def alarms_supervisor_env_def)
  then show ?thesis by (simp add: alarms_startup_tasks_def)
qed

section \<open>Feeders follow the registry\<close>



section \<open>Examples\<close>

text \<open>A runtime in which every spawn succeeds and nothing is reported.\<close>

definition example_runtime ::
  "('task \<Rightarrow> 'a) \<Rightarrow> ('a, unit, nat, 'task, 's) supervisor_env" where
  "example_runtime app_id =
     \<lparr>spawn = \<lambda>i t st s. (Ok 0, s), drop_token = \<lambda>_ s. s, new_channel = \<lambda>s. ((), s),
      into_task = \<lambda>a tx s. (Err [''undefined''], s), application_id = app_id,
      application_protocol = \<lambda>_. None, protocol_task_set_ids = \<lambda>_. [],
      instant_now = \<lambda>_. 0, instant_checked_add = \<lambda>t d. Some (t + d),
      recv_result = \<lambda>_. None\<rparr>"

definition example_alarms_context :: alarms_context where
  "example_alarms_context =
     \<lparr>gas_per_time_alarm = 1000, time_alarms_per_message = 5, gas_per_price_alarm = 2000,
      price_alarms_per_message = 8\<rparr>"

lemmas root_eval = example_runtime_def supervisor_new_def start_tasks_def task_run_def
  task_identifier_def less_task_id_def state_new_def run_task_def create_task_def

definition example_dispatcher ::
  "(alarms_id, unit, nat, (string, unit) alarms_task, unit) supervisor_env" where
  "example_dispatcher =
     alarms_supervisor_env (\<lambda>_. Ok ''call'') (\<lambda>s. (Ok \<lparr>time_alarms = ''nolus1alarms''\<rparr>, s))
       (\<lambda>_ s. (Err [''unknown protocol''], s)) example_configuration example_alarms_context
       (example_runtime alarms_task_id)"

lemma example_dispatcher_starts:
  "\<exists>sv. supervisor_new example_dispatcher alarms_startup_tasks () = (Ok sv, ())"
  by (simp add: root_eval example_dispatcher_def alarms_supervisor_env_def alarms_startup_tasks_def
      create_time_alarms_task_def bind_eff_def lift_eff_def map_eff_def new_time_alarms_def with_source_def)

theorem dispatcher_keeps_time_alarms_witness:
  "\<exists>sv. supervisor_new example_dispatcher alarms_startup_tasks () = (Ok sv, ()) \<and>
    {IdBalanceReporter, IdBroadcast, IdProtocolWatcher, IdApplicationDefined TimeAlarmsGenerator} \<subseteq> tracked sv"
proof -
  obtain sv where sv: "supervisor_new example_dispatcher alarms_startup_tasks () = (Ok sv, ())"
    using example_dispatcher_starts by blast
  from dispatcher_keeps_time_alarms [OF supervisor_reachable.started [OF sv [unfolded example_dispatcher_def]]]
  show ?thesis using sv by blast
qed

definition example_feeder_supervisor :: "(feeder_id, unit, nat) supervisor" where
  "example_feeder_supervisor =
     \<lparr>task_states = [(IdApplicationDefined (FeederId ''A''), state_new 0)], restart_queue = [],
      transaction_tx = (), protocol_watcher_rx = ()\<rparr>"

lemma example_round_handled:
  "\<exists>sv' s'. handle_commands (feeder_supervisor_env example_creation example_configuration
      (example_runtime feeder_task_id)) [ProtocolAdded ''P'', ProtocolRemoved ''A'']
      example_feeder_supervisor (example_context, ()) = (Ok (), sv', s')"
    (is "\<exists>sv' s'. handle_commands ?env _ _ _ = _")
proof -
  obtain t ctx' where created: "feeder_into_task example_creation example_configuration (FeederId ''P'') ()
      (example_context, ()) = (Ok t, (ctx', ()))" using example_created by blast
  then have "run_task ?env (IdApplicationDefined (FeederId ''P'')) example_feeder_supervisor (example_context, ()) =
      task_run ?env (TaskApplicationDefined t) example_feeder_supervisor (ctx', ())"
    by (simp add: run_task_def create_task_def feeder_supervisor_env_def example_runtime_def
        example_feeder_supervisor_def)
  moreover have "\<exists>sv' s'. task_run ?env (TaskApplicationDefined t) example_feeder_supervisor (ctx', ()) =
      (Ok (), sv', s')"
    by (simp add: task_run_def Let_def feeder_supervisor_env_def example_runtime_def split: option.split)
  ultimately obtain sv1 s1 where
    "run_task ?env (IdApplicationDefined (FeederId ''P'')) example_feeder_supervisor (example_context, ()) =
      (Ok (), sv1, s1)" by auto
  moreover have "protocol_task_set_ids ?env ''P'' = [FeederId ''P'']"
    by (simp add: feeder_supervisor_env_def feeder_protocol_task_set_ids_def)
  ultimately have "handle_protocol_command ?env (ProtocolAdded ''P'') example_feeder_supervisor (example_context, ()) =
      (Ok (), sv1, s1)" by (simp add: handle_protocol_command_def)
  with handle_removed [of ?env "[''A'']" sv1 s1] show ?thesis by auto
qed


definition example_alarms_cosmrs :: "(unit, string tx_body, gas \<times> u64, gas \<times> u64) cosmrs" where
  "example_alarms_cosmrs =
     \<lparr>coin_new = \<lambda>a d. Ok (Coin a d),
      sign_doc_new = \<lambda>_ info _ _. Ok (fee_gas_limit (signer_fee info), signer_sequence info),
      doc_sign = \<lambda>doc _. Ok doc, public_key_of = \<lambda>k. k, key_account_id = \<lambda>_ p. Ok p\<rparr>"

definition example_broadcaster :: "unit broadcast" where
  "example_broadcaster =
     \<lparr>signer = example_signer, delay_duration = 1, retry_delay_duration = 1, consecutive_errors = 0\<rparr>"

lemma example_alarms_signs:
  "\<exists>raw t'. simulate_and_sign_tx example_alarms_cosmrs example_node example_broadcaster
      body hard_limit fallback (3, 0) = (Ok raw, t')"
proof -
  have conf_of_signer: "gas_and_fee_conf example_signer = example_conf" by (simp add: example_signer_def)
  have conf: "gas_conf_wf example_conf" by (simp add: example_conf_def gas_conf_wf_def)
  have signs: "\<exists>raw. signer_tx example_alarms_cosmrs example_signer body gas = Ok raw" for body gas
  proof -
    obtain f where "calculate_fee example_conf gas = Ok f" using calculate_fee_eq [OF conf] by blast
    then show ?thesis by (simp add: signer_tx_def example_signer_def example_alarms_cosmrs_def)
  qed
  obtain g where "calculate_gas example_conf 100 = Ok g"
    by (simp add: calculate_gas_def example_conf_def int_ops)
  moreover obtain raw0 where "signer_tx example_alarms_cosmrs example_signer body hard_limit = Ok raw0"
    using signs by blast
  moreover obtain raw1 where "signer_tx example_alarms_cosmrs example_signer body
      (if g \<le> hard_limit then g else hard_limit) = Ok raw1" using signs by blast
  ultimately show ?thesis
    by (simp add: simulate_and_sign_tx_def example_node_def tx_with_gas_adjustment_def example_broadcaster_def
        conf_of_signer)
qed


theorem prices_signed_within_hard_limit_witness:
  "\<exists>(pkg :: string tx_body tx_package) raw limit.
    signer_tx example_alarms_cosmrs (signer example_broadcaster) (tx_body pkg) limit = Ok raw \<and>
    limit \<le> feeder_hard_gas_limit example_base \<and>
    (\<exists>prices. feeds_prices example_market (execute_template example_querying) prices (tx_body pkg) \<and> prices \<noteq> [])"
proof -
  obtain f' pkg where turn: "feeder_turn example_market example_base example_wakeup example_querying ([], 3) =
     (Ok (), f', ([pkg], 3))" using example_send by blast
  obtain raw t' where signs: "simulate_and_sign_tx example_alarms_cosmrs example_node example_broadcaster
      (tx_body pkg) (hard_gas_limit pkg) (fallback_gas pkg) (3, 0) = (Ok raw, t')"
    using example_alarms_signs by blast
  have sent: "fst ([pkg], 3 :: u64) = fst ([], 3 :: u64) @ [pkg]" by simp
  from prices_signed_within_hard_limit [OF example_feeding.feeding_axioms example_market_reachable(2)
      example_logged turn sent signs]
  show ?thesis by blast
qed

end
